(* ===== verification/Prelude.thy ===== *)
theory Prelude
  imports Main "HOL-Library.Word" "HOL-Library.AList" "HOL-Library.Multiset"
begin

unbundle bit_operations_syntax

text \<open>
  Shared vocabulary of the development.

  \<^item> machine integers: \<open>u8\<close>, \<open>u16\<close>, \<open>u32\<close>, \<open>u64\<close> are the unsigned types of the C++ sources,
    \<open>s64\<close> is \<^verbatim>\<open>std::int64_t\<close>: the same 64 bits, read with \<^const>\<open>sint\<close> where the code compares;
  \<^item> \<^verbatim>\<open>std::unordered_map\<close> is an association list with distinct keys (\<open>umap\<close>): the list order
    stands for the unspecified iteration order of the container;
  \<^item> little-endian packing of words into bytes, with its round trip;
  \<^item> the collections \<open>umap_simps\<close> (lookups after updates), \<open>frame\<close> (what an operation leaves
    alone) and \<open>parses_intros\<close> (reader lemmas) that the component proofs pass to the simplifier.
\<close>

named_theorems umap_simps \<open>lookups and key sets of updated unordered maps\<close>
named_theorems frame \<open>fields an operation leaves unchanged\<close>
named_theorems parses_intros \<open>composition rules for byte readers\<close>

type_synonym u8 = "8 word"
type_synonym u16 = "16 word"
type_synonym u32 = "32 word"
type_synonym u64 = "64 word"
type_synonym s64 = "64 word"
type_synonym bytes = "u8 list"

section \<open>Counters\<close>

lemma unat_add_one:
  assumes "a < (b :: 'a::len word)"
  shows "unat (a + 1) = unat a + 1"
proof -
  have "unat a < unat b" using assms by (simp add: word_less_nat_alt)
  moreover have "unat b < 2 ^ LENGTH('a)" by (rule unsigned_less)
  ultimately have "unat a + 1 < 2 ^ LENGTH('a)" by linarith
  then show ?thesis by (simp add: unat_word_ariths)
qed

lemma unat_add_one_le: "unat (a + 1 :: 'a::len word) \<le> unat a + 1"
  by (simp add: unat_word_ariths)

section \<open>Unordered maps\<close>

type_synonym ('k, 'v) umap = "('k \<times> 'v) list"

definition umap_ok :: "('k, 'v) umap \<Rightarrow> bool" where
  "umap_ok m \<longleftrightarrow> distinct (map fst m)"

text \<open>\<open>find\<close>, \<open>operator[] =\<close>, \<open>erase\<close>, and \<open>operator[]\<close> with a default-constructed value.\<close>

definition umap_find :: "('k, 'v) umap \<Rightarrow> 'k \<Rightarrow> 'v option" where
  "umap_find m k = map_of m k"

definition umap_set :: "'k \<Rightarrow> 'v \<Rightarrow> ('k, 'v) umap \<Rightarrow> ('k, 'v) umap" where
  "umap_set k v m = AList.update k v m"

definition umap_erase :: "'k \<Rightarrow> ('k, 'v) umap \<Rightarrow> ('k, 'v) umap" where
  "umap_erase k m = AList.delete k m"

definition umap_get :: "'v \<Rightarrow> ('k, 'v) umap \<Rightarrow> 'k \<Rightarrow> 'v" where
  "umap_get d m k = (case umap_find m k of Some v \<Rightarrow> v | None \<Rightarrow> d)"

text \<open>Mutation of an element through a reference obtained from \<open>find\<close>.\<close>

definition umap_upd :: "'k \<Rightarrow> ('v \<Rightarrow> 'v) \<Rightarrow> ('k, 'v) umap \<Rightarrow> ('k, 'v) umap" where
  "umap_upd k f m = AList.map_entry k f m"

lemma umap_find_Nil [umap_simps, simp]: "umap_find [] k = None"
  by (simp add: umap_find_def)

lemma umap_find_Cons: "umap_find (p # m) k = (if fst p = k then Some (snd p) else umap_find m k)"
  by (cases p) (simp add: umap_find_def)

lemma umap_find_set [umap_simps, simp]:
  "umap_find (umap_set k v m) k' = (if k' = k then Some v else umap_find m k')"
  by (simp add: umap_find_def umap_set_def AList.update_conv')

lemma umap_find_erase [umap_simps, simp]:
  "umap_find (umap_erase k m) k' = (if k' = k then None else umap_find m k')"
  by (simp add: umap_find_def umap_erase_def AList.delete_conv')

lemma umap_find_upd [umap_simps, simp]:
  "umap_find (umap_upd k f m) k' =
     (if k' = k then map_option f (umap_find m k) else umap_find m k')"
  by (simp add: umap_find_def umap_upd_def AList.map_of_map_entry split: option.split)

lemma umap_get_set [umap_simps, simp]:
  "umap_get d (umap_set k v m) k' = (if k' = k then v else umap_get d m k')"
  by (simp add: umap_get_def)

lemma umap_get_Some [umap_simps]: "umap_find m k = Some v \<Longrightarrow> umap_get d m k = v"
  by (simp add: umap_get_def)

lemma umap_get_None [umap_simps]: "umap_find m k = None \<Longrightarrow> umap_get d m k = d"
  by (simp add: umap_get_def)

lemma keys_upd [umap_simps, simp]: "map fst (umap_upd k f m) = map fst m"
  unfolding umap_upd_def by (induction m) auto

lemma umap_upd_upd: "umap_upd k g (umap_upd k h m) = umap_upd k (\<lambda>v. g (h v)) m"
  unfolding umap_upd_def by (induction m) auto

lemma umap_upd_cong: "(\<And>v. umap_find m k = Some v \<Longrightarrow> g v = h v) \<Longrightarrow> umap_upd k g m = umap_upd k h m"
  unfolding umap_upd_def umap_find_def by (induction m) auto

lemma umap_upd_id: "(\<And>v. umap_find m k = Some v \<Longrightarrow> g v = v) \<Longrightarrow> umap_upd k g m = m"
  unfolding umap_upd_def umap_find_def by (induction m) auto

lemma keys_set [umap_simps]:
  "map fst (umap_set k v m) = (if k \<in> set (map fst m) then map fst m else map fst m @ [k])"
  unfolding umap_set_def by (rule AList.update_keys)

lemma keys_erase [umap_simps]: "map fst (umap_erase k m) = removeAll k (map fst m)"
  unfolding umap_erase_def by (rule AList.delete_keys)

lemma umap_ok_Nil [umap_simps, simp]: "umap_ok []"
  by (simp add: umap_ok_def)

lemma umap_ok_set [umap_simps, simp]: "umap_ok m \<Longrightarrow> umap_ok (umap_set k v m)"
  by (auto simp: umap_ok_def keys_set)

lemma umap_ok_upd [umap_simps, simp]: "umap_ok (umap_upd k f m) \<longleftrightarrow> umap_ok m"
  by (simp add: umap_ok_def)

lemma umap_ok_erase [umap_simps, simp]: "umap_ok m \<Longrightarrow> umap_ok (umap_erase k m)"
  by (simp add: umap_ok_def keys_erase distinct_removeAll)

lemma umap_find_Some_in: "umap_find m k = Some v \<Longrightarrow> (k, v) \<in> set m"
  unfolding umap_find_def by (rule map_of_SomeD)

lemma umap_find_eq_Some: "umap_ok m \<Longrightarrow> umap_find m k = Some v \<longleftrightarrow> (k, v) \<in> set m"
  unfolding umap_find_def umap_ok_def by (rule map_of_eq_Some_iff)

lemma umap_find_None_iff: "umap_find m k = None \<longleftrightarrow> k \<notin> set (map fst m)"
  by (simp add: umap_find_def map_of_eq_None_iff)

lemma umap_find_key: "k \<in> set (map fst m) \<longleftrightarrow> (\<exists>v. umap_find m k = Some v)"
  using umap_find_None_iff [of m k] by (cases "umap_find m k") auto

text \<open>Two maps that differ by a permutation of their entries (a rehash) agree on every lookup.\<close>

lemma umap_find_perm:
  assumes "umap_ok m" and "mset m' = mset m"
  shows "umap_ok m'" and "umap_find m' k = umap_find m k"
proof -
  have "mset (map fst m') = mset (map fst m)"
    unfolding mset_map assms(2) ..
  then have "distinct (map fst m') \<longleftrightarrow> distinct (map fst m)"
    by (rule mset_eq_imp_distinct_iff)
  with assms(1) show ok: "umap_ok m'"
    by (simp add: umap_ok_def)
  have "set m' = set m"
    using assms(2) by (rule mset_eq_setD)
  then have iff: "umap_find m' k = Some v \<longleftrightarrow> umap_find m k = Some v" for v
    unfolding umap_find_eq_Some [OF ok] umap_find_eq_Some [OF assms(1)] by simp
  show "umap_find m' k = umap_find m k"
  proof (cases "umap_find m k")
    case None
    then show ?thesis using iff by (metis not_None_eq)
  next
    case (Some v)
    then show ?thesis using iff [of v] by simp
  qed
qed

section \<open>Little-endian packing\<close>

text \<open>\<^verbatim>\<open>for (int i = 0; i < n; ++i) push_back((v >> (8 * i)) & 0xFF)\<close> and its inverse
  \<^verbatim>\<open>v |= data[pos + i] << (8 * i)\<close>.\<close>

definition le_put :: "nat \<Rightarrow> 'a::len word \<Rightarrow> bytes" where
  "le_put n v = map (\<lambda>i. ucast (drop_bit (8 * i) v AND 255)) [0..<n]"

fun le_get_from :: "nat \<Rightarrow> bytes \<Rightarrow> 'a::len word \<Rightarrow> 'a word" where
  "le_get_from i [] v = v"
| "le_get_from i (b # bs) v = le_get_from (Suc i) bs (v OR push_bit (8 * i) (ucast b))"

definition le_get :: "bytes \<Rightarrow> 'a::len word" where
  "le_get bs = le_get_from 0 bs 0"

lemma length_le_put [simp]: "length (le_put n v) = n"
  by (simp add: le_put_def)

lemma bit_le_get_from:
  "bit (le_get_from i bs v :: 'a::len word) k \<longleftrightarrow>
     bit v k \<or> (k < LENGTH('a) \<and> i \<le> k div 8 \<and> k div 8 < i + length bs \<and>
       bit (bs ! (k div 8 - i)) (k mod 8))"
proof (induction bs arbitrary: i v)
  case Nil
  then show ?case by auto
next
  case (Cons b bs)
  have byte: "bit (push_bit (8 * i) (ucast b) :: 'a word) k \<longleftrightarrow>
      k < LENGTH('a) \<and> k div 8 = i \<and> bit b (k mod 8)"
  proof -
    have "bit b (k - 8 * i) \<longleftrightarrow> k div 8 = i \<and> bit b (k mod 8)" if "8 * i \<le> k"
    proof (cases "k - 8 * i < 8")
      case True
      with that have "k div 8 = i" by (simp add: div_nat_eqI)
      moreover from this have "k mod 8 = k - 8 * i" by (simp add: modulo_nat_def)
      ultimately show ?thesis by simp
    next
      case False
      with that have "k div 8 \<noteq> i" by auto
      moreover have "\<not> bit b (k - 8 * i)"
        using False bit_imp_le_length [of b "k - 8 * i"] by auto
      ultimately show ?thesis by simp
    qed
    moreover have "8 * i \<le> k" if "k div 8 = i"
      using that by auto
    ultimately show ?thesis
      by (auto simp: bit_push_bit_iff bit_ucast_iff)
  qed
  show ?case
    unfolding le_get_from.simps Cons.IH bit_or_iff byte
    by (cases "k div 8 = i") (auto simp: nth_Cons' Suc_le_eq)
qed

lemma le_get_put:
  assumes "LENGTH('a::len) = 8 * n"
  shows "le_get (le_put n v) = (v :: 'a word)"
proof (rule bit_word_eqI)
  fix k
  assume k: "k < LENGTH('a)"
  then have "k div 8 < n" using assms by (simp add: less_mult_imp_div_less mult.commute)
  moreover have "8 * (k div 8) + k mod 8 = k" by simp
  moreover have "bit (255 :: 'a word) (k mod 8)"
  proof -
    have "(255 :: 'a word) = mask 8" by (simp add: mask_eq_exp_minus_1)
    moreover have "k mod 8 < LENGTH('a)" using k by (meson le_less_trans mod_less_eq_dividend)
    ultimately show ?thesis by (simp only: bit_mask_iff) simp
  qed
  ultimately show "bit (le_get (le_put n v) :: 'a word) k \<longleftrightarrow> bit v k"
    using k assms
    by (auto simp: le_get_def bit_le_get_from le_put_def bit_ucast_iff bit_and_iff bit_drop_bit_eq)
qed

lemma take_le_put [simp]: "take n (le_put n v @ bs) = le_put n v"
  by simp

lemma drop_le_put [simp]: "drop n (le_put n v @ bs) = bs"
  by simp

end
