(* ===== verification/Enums.thy ===== *)
theory Enums
  imports Prelude
begin

text \<open>
  The enumerations of \<^verbatim>\<open>include/decodefabric/*.hpp\<close> and the \<^verbatim>\<open>to_string\<close> functions of
  \<^verbatim>\<open>src/error.cpp\<close>. A C++ scoped enumeration with a fixed underlying type holds every value of
  that type: the codecs and the recovery code cast wire bytes to enumerations without checking
  them. Each datatype therefore has the source's enumerators and one constructor \<open>raw\<close> for the
  values that are not enumerators; \<open>X_val\<close> and \<open>X_of\<close> are the two casts, and \<open>X_ok e\<close> says that
  \<open>e\<close> is the model of a value of the underlying type (a \<open>raw\<close> value is not an enumerator).
\<close>

subsection \<open>ErrorCode\<close>

datatype (plugins only: code size) ErrorCode =
    EC_Ok | EC_InvalidArgument | EC_NullObject | EC_NotReady | EC_Busy
  | EC_AlreadyTerminal | EC_UnknownModel | EC_UnknownWorker | EC_UnknownDevice
  | EC_UnknownExecutor | EC_DuplicateId | EC_DuplicateRequest | EC_UnknownSequence
  | EC_UnknownState | EC_IncompatibleGroupMembers | EC_NoCompatibleWorker
  | EC_GroupFull | EC_ImpossibleMemoryEstimate | EC_ReservationOverflow
  | EC_MemoryExhaustion | EC_NoMemoryHeadroom | EC_ReservationConflict
  | EC_ReservationLeak | EC_Backpressure | EC_QueueSaturated | EC_TenantLimitExceeded
  | EC_AdmissionRejected | EC_Cancelled | EC_AlreadyCancelled | EC_DeadlineExpired
  | EC_StaleCoordinatorEpoch | EC_StaleWorkerBoot | EC_StaleAttempt
  | EC_StaleDecodeGeneration | EC_StaleStateGeneration | EC_DuplicateCompletion
  | EC_CompletionForCancelled | EC_CompletionForExpired | EC_CompletionForTerminal
  | EC_SupersededByRetry | EC_StateDigestMismatch | EC_TransactionConflict
  | EC_GrantConsumed | EC_RetryBudgetExhausted | EC_NonRetryableFailure
  | EC_RetryableFailure | EC_WorkerUnavailable | EC_WorkerBusy | EC_WorkerLost
  | EC_ExecutionFailed | EC_BackendError | EC_ProtocolMalformed
  | EC_ProtocolOversizedFrame | EC_ProtocolTruncatedFrame | EC_ProtocolUnknownVersion
  | EC_ProtocolUnknownType | EC_ProtocolInvalidField | EC_ProtocolEmptyFrame
  | EC_PersistenceCorrupt | EC_PersistenceChecksumMismatch | EC_PersistenceTruncated
  | EC_PersistenceUnknownVersion | EC_PersistenceIoError | EC_PersistenceInvalidField
  | EC_Overflow | EC_Underflow | EC_BoundedLengthExceeded | EC_InternalError
  | EC_NotImplemented | EC_ThreadSafetyViolation | EC_raw "u32"

primrec ErrorCode_val :: "ErrorCode \<Rightarrow> u32" where
  "ErrorCode_val EC_Ok = 0"
| "ErrorCode_val EC_InvalidArgument = 1"
| "ErrorCode_val EC_NullObject = 2"
| "ErrorCode_val EC_NotReady = 3"
| "ErrorCode_val EC_Busy = 4"
| "ErrorCode_val EC_AlreadyTerminal = 5"
| "ErrorCode_val EC_UnknownModel = 10"
| "ErrorCode_val EC_UnknownWorker = 11"
| "ErrorCode_val EC_UnknownDevice = 12"
| "ErrorCode_val EC_UnknownExecutor = 13"
| "ErrorCode_val EC_DuplicateId = 14"
| "ErrorCode_val EC_DuplicateRequest = 15"
| "ErrorCode_val EC_UnknownSequence = 16"
| "ErrorCode_val EC_UnknownState = 17"
| "ErrorCode_val EC_IncompatibleGroupMembers = 20"
| "ErrorCode_val EC_NoCompatibleWorker = 21"
| "ErrorCode_val EC_GroupFull = 22"
| "ErrorCode_val EC_ImpossibleMemoryEstimate = 30"
| "ErrorCode_val EC_ReservationOverflow = 31"
| "ErrorCode_val EC_MemoryExhaustion = 32"
| "ErrorCode_val EC_NoMemoryHeadroom = 33"
| "ErrorCode_val EC_ReservationConflict = 34"
| "ErrorCode_val EC_ReservationLeak = 35"
| "ErrorCode_val EC_Backpressure = 40"
| "ErrorCode_val EC_QueueSaturated = 41"
| "ErrorCode_val EC_TenantLimitExceeded = 42"
| "ErrorCode_val EC_AdmissionRejected = 43"
| "ErrorCode_val EC_Cancelled = 50"
| "ErrorCode_val EC_AlreadyCancelled = 51"
| "ErrorCode_val EC_DeadlineExpired = 52"
| "ErrorCode_val EC_StaleCoordinatorEpoch = 60"
| "ErrorCode_val EC_StaleWorkerBoot = 61"
| "ErrorCode_val EC_StaleAttempt = 62"
| "ErrorCode_val EC_StaleDecodeGeneration = 63"
| "ErrorCode_val EC_StaleStateGeneration = 64"
| "ErrorCode_val EC_DuplicateCompletion = 65"
| "ErrorCode_val EC_CompletionForCancelled = 66"
| "ErrorCode_val EC_CompletionForExpired = 67"
| "ErrorCode_val EC_CompletionForTerminal = 68"
| "ErrorCode_val EC_SupersededByRetry = 69"
| "ErrorCode_val EC_StateDigestMismatch = 73"
| "ErrorCode_val EC_TransactionConflict = 74"
| "ErrorCode_val EC_GrantConsumed = 75"
| "ErrorCode_val EC_RetryBudgetExhausted = 70"
| "ErrorCode_val EC_NonRetryableFailure = 71"
| "ErrorCode_val EC_RetryableFailure = 72"
| "ErrorCode_val EC_WorkerUnavailable = 80"
| "ErrorCode_val EC_WorkerBusy = 81"
| "ErrorCode_val EC_WorkerLost = 82"
| "ErrorCode_val EC_ExecutionFailed = 83"
| "ErrorCode_val EC_BackendError = 84"
| "ErrorCode_val EC_ProtocolMalformed = 90"
| "ErrorCode_val EC_ProtocolOversizedFrame = 91"
| "ErrorCode_val EC_ProtocolTruncatedFrame = 92"
| "ErrorCode_val EC_ProtocolUnknownVersion = 93"
| "ErrorCode_val EC_ProtocolUnknownType = 94"
| "ErrorCode_val EC_ProtocolInvalidField = 95"
| "ErrorCode_val EC_ProtocolEmptyFrame = 96"
| "ErrorCode_val EC_PersistenceCorrupt = 100"
| "ErrorCode_val EC_PersistenceChecksumMismatch = 101"
| "ErrorCode_val EC_PersistenceTruncated = 102"
| "ErrorCode_val EC_PersistenceUnknownVersion = 103"
| "ErrorCode_val EC_PersistenceIoError = 104"
| "ErrorCode_val EC_PersistenceInvalidField = 105"
| "ErrorCode_val EC_Overflow = 110"
| "ErrorCode_val EC_Underflow = 111"
| "ErrorCode_val EC_BoundedLengthExceeded = 112"
| "ErrorCode_val EC_InternalError = 120"
| "ErrorCode_val EC_NotImplemented = 121"
| "ErrorCode_val EC_ThreadSafetyViolation = 122"
| "ErrorCode_val (EC_raw v) = v"

definition ErrorCode_of :: "u32 \<Rightarrow> ErrorCode" where
  "ErrorCode_of v =
    (if v = 0 then EC_Ok
     else if v = 1 then EC_InvalidArgument
     else if v = 2 then EC_NullObject
     else if v = 3 then EC_NotReady
     else if v = 4 then EC_Busy
     else if v = 5 then EC_AlreadyTerminal
     else if v = 10 then EC_UnknownModel
     else if v = 11 then EC_UnknownWorker
     else if v = 12 then EC_UnknownDevice
     else if v = 13 then EC_UnknownExecutor
     else if v = 14 then EC_DuplicateId
     else if v = 15 then EC_DuplicateRequest
     else if v = 16 then EC_UnknownSequence
     else if v = 17 then EC_UnknownState
     else if v = 20 then EC_IncompatibleGroupMembers
     else if v = 21 then EC_NoCompatibleWorker
     else if v = 22 then EC_GroupFull
     else if v = 30 then EC_ImpossibleMemoryEstimate
     else if v = 31 then EC_ReservationOverflow
     else if v = 32 then EC_MemoryExhaustion
     else if v = 33 then EC_NoMemoryHeadroom
     else if v = 34 then EC_ReservationConflict
     else if v = 35 then EC_ReservationLeak
     else if v = 40 then EC_Backpressure
     else if v = 41 then EC_QueueSaturated
     else if v = 42 then EC_TenantLimitExceeded
     else if v = 43 then EC_AdmissionRejected
     else if v = 50 then EC_Cancelled
     else if v = 51 then EC_AlreadyCancelled
     else if v = 52 then EC_DeadlineExpired
     else if v = 60 then EC_StaleCoordinatorEpoch
     else if v = 61 then EC_StaleWorkerBoot
     else if v = 62 then EC_StaleAttempt
     else if v = 63 then EC_StaleDecodeGeneration
     else if v = 64 then EC_StaleStateGeneration
     else if v = 65 then EC_DuplicateCompletion
     else if v = 66 then EC_CompletionForCancelled
     else if v = 67 then EC_CompletionForExpired
     else if v = 68 then EC_CompletionForTerminal
     else if v = 69 then EC_SupersededByRetry
     else if v = 73 then EC_StateDigestMismatch
     else if v = 74 then EC_TransactionConflict
     else if v = 75 then EC_GrantConsumed
     else if v = 70 then EC_RetryBudgetExhausted
     else if v = 71 then EC_NonRetryableFailure
     else if v = 72 then EC_RetryableFailure
     else if v = 80 then EC_WorkerUnavailable
     else if v = 81 then EC_WorkerBusy
     else if v = 82 then EC_WorkerLost
     else if v = 83 then EC_ExecutionFailed
     else if v = 84 then EC_BackendError
     else if v = 90 then EC_ProtocolMalformed
     else if v = 91 then EC_ProtocolOversizedFrame
     else if v = 92 then EC_ProtocolTruncatedFrame
     else if v = 93 then EC_ProtocolUnknownVersion
     else if v = 94 then EC_ProtocolUnknownType
     else if v = 95 then EC_ProtocolInvalidField
     else if v = 96 then EC_ProtocolEmptyFrame
     else if v = 100 then EC_PersistenceCorrupt
     else if v = 101 then EC_PersistenceChecksumMismatch
     else if v = 102 then EC_PersistenceTruncated
     else if v = 103 then EC_PersistenceUnknownVersion
     else if v = 104 then EC_PersistenceIoError
     else if v = 105 then EC_PersistenceInvalidField
     else if v = 110 then EC_Overflow
     else if v = 111 then EC_Underflow
     else if v = 112 then EC_BoundedLengthExceeded
     else if v = 120 then EC_InternalError
     else if v = 121 then EC_NotImplemented
     else if v = 122 then EC_ThreadSafetyViolation
     else EC_raw v)"

definition ErrorCode_ok :: "ErrorCode \<Rightarrow> bool" where
  "ErrorCode_ok e \<longleftrightarrow> ErrorCode_of (ErrorCode_val e) = e"

primrec error_to_string :: "ErrorCode \<Rightarrow> string" where
  "error_to_string EC_Ok = ''ok''"
| "error_to_string EC_InvalidArgument = ''invalid_argument''"
| "error_to_string EC_NullObject = ''null_object''"
| "error_to_string EC_NotReady = ''not_ready''"
| "error_to_string EC_Busy = ''busy''"
| "error_to_string EC_AlreadyTerminal = ''already_terminal''"
| "error_to_string EC_UnknownModel = ''unknown_model''"
| "error_to_string EC_UnknownWorker = ''unknown_worker''"
| "error_to_string EC_UnknownDevice = ''unknown_device''"
| "error_to_string EC_UnknownExecutor = ''unknown_executor''"
| "error_to_string EC_DuplicateId = ''duplicate_id''"
| "error_to_string EC_DuplicateRequest = ''duplicate_request''"
| "error_to_string EC_UnknownSequence = ''unknown_sequence''"
| "error_to_string EC_UnknownState = ''unknown_state''"
| "error_to_string EC_IncompatibleGroupMembers = ''incompatible_group_members''"
| "error_to_string EC_NoCompatibleWorker = ''no_compatible_worker''"
| "error_to_string EC_GroupFull = ''group_full''"
| "error_to_string EC_ImpossibleMemoryEstimate = ''impossible_memory_estimate''"
| "error_to_string EC_ReservationOverflow = ''reservation_overflow''"
| "error_to_string EC_MemoryExhaustion = ''memory_exhaustion''"
| "error_to_string EC_NoMemoryHeadroom = ''no_memory_headroom''"
| "error_to_string EC_ReservationConflict = ''reservation_conflict''"
| "error_to_string EC_ReservationLeak = ''reservation_leak''"
| "error_to_string EC_Backpressure = ''backpressure''"
| "error_to_string EC_QueueSaturated = ''queue_saturated''"
| "error_to_string EC_TenantLimitExceeded = ''tenant_limit_exceeded''"
| "error_to_string EC_AdmissionRejected = ''admission_rejected''"
| "error_to_string EC_Cancelled = ''cancelled''"
| "error_to_string EC_AlreadyCancelled = ''already_cancelled''"
| "error_to_string EC_DeadlineExpired = ''deadline_expired''"
| "error_to_string EC_StaleCoordinatorEpoch = ''stale_coordinator_epoch''"
| "error_to_string EC_StaleWorkerBoot = ''stale_worker_boot''"
| "error_to_string EC_StaleAttempt = ''stale_attempt''"
| "error_to_string EC_StaleDecodeGeneration = ''stale_decode_generation''"
| "error_to_string EC_StaleStateGeneration = ''stale_state_generation''"
| "error_to_string EC_DuplicateCompletion = ''duplicate_completion''"
| "error_to_string EC_CompletionForCancelled = ''completion_for_cancelled''"
| "error_to_string EC_CompletionForExpired = ''completion_for_expired''"
| "error_to_string EC_CompletionForTerminal = ''completion_for_terminal''"
| "error_to_string EC_SupersededByRetry = ''superseded_by_retry''"
| "error_to_string EC_StateDigestMismatch = ''state_digest_mismatch''"
| "error_to_string EC_TransactionConflict = ''transaction_conflict''"
| "error_to_string EC_GrantConsumed = ''grant_consumed''"
| "error_to_string EC_RetryBudgetExhausted = ''retry_budget_exhausted''"
| "error_to_string EC_NonRetryableFailure = ''non_retryable_failure''"
| "error_to_string EC_RetryableFailure = ''retryable_failure''"
| "error_to_string EC_WorkerUnavailable = ''worker_unavailable''"
| "error_to_string EC_WorkerBusy = ''worker_busy''"
| "error_to_string EC_WorkerLost = ''worker_lost''"
| "error_to_string EC_ExecutionFailed = ''execution_failed''"
| "error_to_string EC_BackendError = ''backend_error''"
| "error_to_string EC_ProtocolMalformed = ''protocol_malformed''"
| "error_to_string EC_ProtocolOversizedFrame = ''protocol_oversized_frame''"
| "error_to_string EC_ProtocolTruncatedFrame = ''protocol_truncated_frame''"
| "error_to_string EC_ProtocolUnknownVersion = ''protocol_unknown_version''"
| "error_to_string EC_ProtocolUnknownType = ''protocol_unknown_type''"
| "error_to_string EC_ProtocolInvalidField = ''protocol_invalid_field''"
| "error_to_string EC_ProtocolEmptyFrame = ''protocol_empty_frame''"
| "error_to_string EC_PersistenceCorrupt = ''persistence_corrupt''"
| "error_to_string EC_PersistenceChecksumMismatch = ''persistence_checksum_mismatch''"
| "error_to_string EC_PersistenceTruncated = ''persistence_truncated''"
| "error_to_string EC_PersistenceUnknownVersion = ''persistence_unknown_version''"
| "error_to_string EC_PersistenceIoError = ''persistence_io_error''"
| "error_to_string EC_PersistenceInvalidField = ''persistence_invalid_field''"
| "error_to_string EC_Overflow = ''overflow''"
| "error_to_string EC_Underflow = ''underflow''"
| "error_to_string EC_BoundedLengthExceeded = ''bounded_length_exceeded''"
| "error_to_string EC_InternalError = ''internal_error''"
| "error_to_string EC_NotImplemented = ''not_implemented''"
| "error_to_string EC_ThreadSafetyViolation = ''thread_safety_violation''"
| "error_to_string (EC_raw v) = ''unknown_error_code''"

lemma ErrorCode_val_of [simp]: "ErrorCode_val (ErrorCode_of v) = v"
  by (simp add: ErrorCode_of_def)

lemma ErrorCode_ok_of [simp]: "ErrorCode_ok (ErrorCode_of v)"
  by (simp add: ErrorCode_ok_def)

lemma ErrorCode_of_val [simp]: "ErrorCode_ok e \<Longrightarrow> ErrorCode_of (ErrorCode_val e) = e"
  by (simp add: ErrorCode_ok_def)

lemma ErrorCode_ok_enumerators [simp]:
  "ErrorCode_ok EC_Ok"
  "ErrorCode_ok EC_InvalidArgument"
  "ErrorCode_ok EC_NullObject"
  "ErrorCode_ok EC_NotReady"
  "ErrorCode_ok EC_Busy"
  "ErrorCode_ok EC_AlreadyTerminal"
  "ErrorCode_ok EC_UnknownModel"
  "ErrorCode_ok EC_UnknownWorker"
  "ErrorCode_ok EC_UnknownDevice"
  "ErrorCode_ok EC_UnknownExecutor"
  "ErrorCode_ok EC_DuplicateId"
  "ErrorCode_ok EC_DuplicateRequest"
  "ErrorCode_ok EC_UnknownSequence"
  "ErrorCode_ok EC_UnknownState"
  "ErrorCode_ok EC_IncompatibleGroupMembers"
  "ErrorCode_ok EC_NoCompatibleWorker"
  "ErrorCode_ok EC_GroupFull"
  "ErrorCode_ok EC_ImpossibleMemoryEstimate"
  "ErrorCode_ok EC_ReservationOverflow"
  "ErrorCode_ok EC_MemoryExhaustion"
  "ErrorCode_ok EC_NoMemoryHeadroom"
  "ErrorCode_ok EC_ReservationConflict"
  "ErrorCode_ok EC_ReservationLeak"
  "ErrorCode_ok EC_Backpressure"
  "ErrorCode_ok EC_QueueSaturated"
  "ErrorCode_ok EC_TenantLimitExceeded"
  "ErrorCode_ok EC_AdmissionRejected"
  "ErrorCode_ok EC_Cancelled"
  "ErrorCode_ok EC_AlreadyCancelled"
  "ErrorCode_ok EC_DeadlineExpired"
  "ErrorCode_ok EC_StaleCoordinatorEpoch"
  "ErrorCode_ok EC_StaleWorkerBoot"
  "ErrorCode_ok EC_StaleAttempt"
  "ErrorCode_ok EC_StaleDecodeGeneration"
  "ErrorCode_ok EC_StaleStateGeneration"
  "ErrorCode_ok EC_DuplicateCompletion"
  "ErrorCode_ok EC_CompletionForCancelled"
  "ErrorCode_ok EC_CompletionForExpired"
  "ErrorCode_ok EC_CompletionForTerminal"
  "ErrorCode_ok EC_SupersededByRetry"
  "ErrorCode_ok EC_StateDigestMismatch"
  "ErrorCode_ok EC_TransactionConflict"
  "ErrorCode_ok EC_GrantConsumed"
  "ErrorCode_ok EC_RetryBudgetExhausted"
  "ErrorCode_ok EC_NonRetryableFailure"
  "ErrorCode_ok EC_RetryableFailure"
  "ErrorCode_ok EC_WorkerUnavailable"
  "ErrorCode_ok EC_WorkerBusy"
  "ErrorCode_ok EC_WorkerLost"
  "ErrorCode_ok EC_ExecutionFailed"
  "ErrorCode_ok EC_BackendError"
  "ErrorCode_ok EC_ProtocolMalformed"
  "ErrorCode_ok EC_ProtocolOversizedFrame"
  "ErrorCode_ok EC_ProtocolTruncatedFrame"
  "ErrorCode_ok EC_ProtocolUnknownVersion"
  "ErrorCode_ok EC_ProtocolUnknownType"
  "ErrorCode_ok EC_ProtocolInvalidField"
  "ErrorCode_ok EC_ProtocolEmptyFrame"
  "ErrorCode_ok EC_PersistenceCorrupt"
  "ErrorCode_ok EC_PersistenceChecksumMismatch"
  "ErrorCode_ok EC_PersistenceTruncated"
  "ErrorCode_ok EC_PersistenceUnknownVersion"
  "ErrorCode_ok EC_PersistenceIoError"
  "ErrorCode_ok EC_PersistenceInvalidField"
  "ErrorCode_ok EC_Overflow"
  "ErrorCode_ok EC_Underflow"
  "ErrorCode_ok EC_BoundedLengthExceeded"
  "ErrorCode_ok EC_InternalError"
  "ErrorCode_ok EC_NotImplemented"
  "ErrorCode_ok EC_ThreadSafetyViolation"
  by (simp_all add: ErrorCode_ok_def ErrorCode_of_def)

subsection \<open>SequenceState\<close>

datatype (plugins only: code size) SequenceState =
    ST_Admitted | ST_Waiting | ST_Ready | ST_Grouped | ST_Reserved | ST_Dispatched
  | ST_Running | ST_StepCompleted | ST_ReadyForNextToken | ST_Yielded | ST_Paused
  | ST_CancelRequested | ST_Cancelled | ST_DeadlineExpired | ST_RetryableFailure
  | ST_NonRetryableFailure | ST_Retrying | ST_Completed | ST_StaleSuperseded
  | ST_raw "u8"

primrec SequenceState_val :: "SequenceState \<Rightarrow> u8" where
  "SequenceState_val ST_Admitted = 0"
| "SequenceState_val ST_Waiting = 1"
| "SequenceState_val ST_Ready = 2"
| "SequenceState_val ST_Grouped = 3"
| "SequenceState_val ST_Reserved = 4"
| "SequenceState_val ST_Dispatched = 5"
| "SequenceState_val ST_Running = 6"
| "SequenceState_val ST_StepCompleted = 7"
| "SequenceState_val ST_ReadyForNextToken = 8"
| "SequenceState_val ST_Yielded = 9"
| "SequenceState_val ST_Paused = 10"
| "SequenceState_val ST_CancelRequested = 11"
| "SequenceState_val ST_Cancelled = 12"
| "SequenceState_val ST_DeadlineExpired = 13"
| "SequenceState_val ST_RetryableFailure = 14"
| "SequenceState_val ST_NonRetryableFailure = 15"
| "SequenceState_val ST_Retrying = 16"
| "SequenceState_val ST_Completed = 17"
| "SequenceState_val ST_StaleSuperseded = 18"
| "SequenceState_val (ST_raw v) = v"

definition SequenceState_of :: "u8 \<Rightarrow> SequenceState" where
  "SequenceState_of v =
    (if v = 0 then ST_Admitted
     else if v = 1 then ST_Waiting
     else if v = 2 then ST_Ready
     else if v = 3 then ST_Grouped
     else if v = 4 then ST_Reserved
     else if v = 5 then ST_Dispatched
     else if v = 6 then ST_Running
     else if v = 7 then ST_StepCompleted
     else if v = 8 then ST_ReadyForNextToken
     else if v = 9 then ST_Yielded
     else if v = 10 then ST_Paused
     else if v = 11 then ST_CancelRequested
     else if v = 12 then ST_Cancelled
     else if v = 13 then ST_DeadlineExpired
     else if v = 14 then ST_RetryableFailure
     else if v = 15 then ST_NonRetryableFailure
     else if v = 16 then ST_Retrying
     else if v = 17 then ST_Completed
     else if v = 18 then ST_StaleSuperseded
     else ST_raw v)"

definition SequenceState_ok :: "SequenceState \<Rightarrow> bool" where
  "SequenceState_ok e \<longleftrightarrow> SequenceState_of (SequenceState_val e) = e"

primrec state_to_string :: "SequenceState \<Rightarrow> string" where
  "state_to_string ST_Admitted = ''Admitted''"
| "state_to_string ST_Waiting = ''Waiting''"
| "state_to_string ST_Ready = ''Ready''"
| "state_to_string ST_Grouped = ''Grouped''"
| "state_to_string ST_Reserved = ''Reserved''"
| "state_to_string ST_Dispatched = ''Dispatched''"
| "state_to_string ST_Running = ''Running''"
| "state_to_string ST_StepCompleted = ''StepCompleted''"
| "state_to_string ST_ReadyForNextToken = ''ReadyForNextToken''"
| "state_to_string ST_Yielded = ''Yielded''"
| "state_to_string ST_Paused = ''Paused''"
| "state_to_string ST_CancelRequested = ''CancelRequested''"
| "state_to_string ST_Cancelled = ''Cancelled''"
| "state_to_string ST_DeadlineExpired = ''DeadlineExpired''"
| "state_to_string ST_RetryableFailure = ''RetryableFailure''"
| "state_to_string ST_NonRetryableFailure = ''NonRetryableFailure''"
| "state_to_string ST_Retrying = ''Retrying''"
| "state_to_string ST_Completed = ''Completed''"
| "state_to_string ST_StaleSuperseded = ''StaleSuperseded''"
| "state_to_string (ST_raw v) = ''Unknown''"

lemma SequenceState_val_of [simp]: "SequenceState_val (SequenceState_of v) = v"
  by (simp add: SequenceState_of_def)

lemma SequenceState_ok_of [simp]: "SequenceState_ok (SequenceState_of v)"
  by (simp add: SequenceState_ok_def)

lemma SequenceState_of_val [simp]: "SequenceState_ok e \<Longrightarrow> SequenceState_of (SequenceState_val e) = e"
  by (simp add: SequenceState_ok_def)

lemma SequenceState_ok_enumerators [simp]:
  "SequenceState_ok ST_Admitted"
  "SequenceState_ok ST_Waiting"
  "SequenceState_ok ST_Ready"
  "SequenceState_ok ST_Grouped"
  "SequenceState_ok ST_Reserved"
  "SequenceState_ok ST_Dispatched"
  "SequenceState_ok ST_Running"
  "SequenceState_ok ST_StepCompleted"
  "SequenceState_ok ST_ReadyForNextToken"
  "SequenceState_ok ST_Yielded"
  "SequenceState_ok ST_Paused"
  "SequenceState_ok ST_CancelRequested"
  "SequenceState_ok ST_Cancelled"
  "SequenceState_ok ST_DeadlineExpired"
  "SequenceState_ok ST_RetryableFailure"
  "SequenceState_ok ST_NonRetryableFailure"
  "SequenceState_ok ST_Retrying"
  "SequenceState_ok ST_Completed"
  "SequenceState_ok ST_StaleSuperseded"
  by (simp_all add: SequenceState_ok_def SequenceState_of_def)

subsection \<open>BackendKind\<close>

datatype (plugins only: code size) BackendKind =
    BK_CPU | BK_CUDA | BK_raw "u8"

primrec BackendKind_val :: "BackendKind \<Rightarrow> u8" where
  "BackendKind_val BK_CPU = 0"
| "BackendKind_val BK_CUDA = 1"
| "BackendKind_val (BK_raw v) = v"

definition BackendKind_of :: "u8 \<Rightarrow> BackendKind" where
  "BackendKind_of v =
    (if v = 0 then BK_CPU
     else if v = 1 then BK_CUDA
     else BK_raw v)"

definition BackendKind_ok :: "BackendKind \<Rightarrow> bool" where
  "BackendKind_ok e \<longleftrightarrow> BackendKind_of (BackendKind_val e) = e"

primrec backend_to_string :: "BackendKind \<Rightarrow> string" where
  "backend_to_string BK_CPU = ''cpu''"
| "backend_to_string BK_CUDA = ''cuda''"
| "backend_to_string (BK_raw v) = ''unknown_backend''"

lemma BackendKind_val_of [simp]: "BackendKind_val (BackendKind_of v) = v"
  by (simp add: BackendKind_of_def)

lemma BackendKind_ok_of [simp]: "BackendKind_ok (BackendKind_of v)"
  by (simp add: BackendKind_ok_def)

lemma BackendKind_of_val [simp]: "BackendKind_ok e \<Longrightarrow> BackendKind_of (BackendKind_val e) = e"
  by (simp add: BackendKind_ok_def)

lemma BackendKind_ok_enumerators [simp]:
  "BackendKind_ok BK_CPU"
  "BackendKind_ok BK_CUDA"
  by (simp_all add: BackendKind_ok_def BackendKind_of_def)

subsection \<open>DType\<close>

datatype (plugins only: code size) DType =
    DT_Invalid | DT_F32 | DT_F16 | DT_BF16 | DT_F64 | DT_I32 | DT_I64 | DT_U8
  | DT_raw "u8"

primrec DType_val :: "DType \<Rightarrow> u8" where
  "DType_val DT_Invalid = 0"
| "DType_val DT_F32 = 1"
| "DType_val DT_F16 = 2"
| "DType_val DT_BF16 = 3"
| "DType_val DT_F64 = 4"
| "DType_val DT_I32 = 5"
| "DType_val DT_I64 = 6"
| "DType_val DT_U8 = 7"
| "DType_val (DT_raw v) = v"

definition DType_of :: "u8 \<Rightarrow> DType" where
  "DType_of v =
    (if v = 0 then DT_Invalid
     else if v = 1 then DT_F32
     else if v = 2 then DT_F16
     else if v = 3 then DT_BF16
     else if v = 4 then DT_F64
     else if v = 5 then DT_I32
     else if v = 6 then DT_I64
     else if v = 7 then DT_U8
     else DT_raw v)"

definition DType_ok :: "DType \<Rightarrow> bool" where
  "DType_ok e \<longleftrightarrow> DType_of (DType_val e) = e"

primrec dtype_to_string :: "DType \<Rightarrow> string" where
  "dtype_to_string DT_Invalid = ''invalid''"
| "dtype_to_string DT_F32 = ''f32''"
| "dtype_to_string DT_F16 = ''f16''"
| "dtype_to_string DT_BF16 = ''bf16''"
| "dtype_to_string DT_F64 = ''f64''"
| "dtype_to_string DT_I32 = ''i32''"
| "dtype_to_string DT_I64 = ''i64''"
| "dtype_to_string DT_U8 = ''u8''"
| "dtype_to_string (DT_raw v) = ''unknown_dtype''"

lemma DType_val_of [simp]: "DType_val (DType_of v) = v"
  by (simp add: DType_of_def)

lemma DType_ok_of [simp]: "DType_ok (DType_of v)"
  by (simp add: DType_ok_def)

lemma DType_of_val [simp]: "DType_ok e \<Longrightarrow> DType_of (DType_val e) = e"
  by (simp add: DType_ok_def)

lemma DType_ok_enumerators [simp]:
  "DType_ok DT_Invalid"
  "DType_ok DT_F32"
  "DType_ok DT_F16"
  "DType_ok DT_BF16"
  "DType_ok DT_F64"
  "DType_ok DT_I32"
  "DType_ok DT_I64"
  "DType_ok DT_U8"
  by (simp_all add: DType_ok_def DType_of_def)

subsection \<open>LatencyClass\<close>

datatype (plugins only: code size) LatencyClass =
    LC_None | LC_RealTime | LC_Interactive | LC_Standard | LC_Bulk | LC_raw "u8"

primrec LatencyClass_val :: "LatencyClass \<Rightarrow> u8" where
  "LatencyClass_val LC_None = 0"
| "LatencyClass_val LC_RealTime = 1"
| "LatencyClass_val LC_Interactive = 2"
| "LatencyClass_val LC_Standard = 3"
| "LatencyClass_val LC_Bulk = 4"
| "LatencyClass_val (LC_raw v) = v"

definition LatencyClass_of :: "u8 \<Rightarrow> LatencyClass" where
  "LatencyClass_of v =
    (if v = 0 then LC_None
     else if v = 1 then LC_RealTime
     else if v = 2 then LC_Interactive
     else if v = 3 then LC_Standard
     else if v = 4 then LC_Bulk
     else LC_raw v)"

definition LatencyClass_ok :: "LatencyClass \<Rightarrow> bool" where
  "LatencyClass_ok e \<longleftrightarrow> LatencyClass_of (LatencyClass_val e) = e"

primrec latency_to_string :: "LatencyClass \<Rightarrow> string" where
  "latency_to_string LC_None = ''none''"
| "latency_to_string LC_RealTime = ''realtime''"
| "latency_to_string LC_Interactive = ''interactive''"
| "latency_to_string LC_Standard = ''standard''"
| "latency_to_string LC_Bulk = ''bulk''"
| "latency_to_string (LC_raw v) = ''unknown_latency''"

lemma LatencyClass_val_of [simp]: "LatencyClass_val (LatencyClass_of v) = v"
  by (simp add: LatencyClass_of_def)

lemma LatencyClass_ok_of [simp]: "LatencyClass_ok (LatencyClass_of v)"
  by (simp add: LatencyClass_ok_def)

lemma LatencyClass_of_val [simp]: "LatencyClass_ok e \<Longrightarrow> LatencyClass_of (LatencyClass_val e) = e"
  by (simp add: LatencyClass_ok_def)

lemma LatencyClass_ok_enumerators [simp]:
  "LatencyClass_ok LC_None"
  "LatencyClass_ok LC_RealTime"
  "LatencyClass_ok LC_Interactive"
  "LatencyClass_ok LC_Standard"
  "LatencyClass_ok LC_Bulk"
  by (simp_all add: LatencyClass_ok_def LatencyClass_of_def)

subsection \<open>MemberOutcomeKind\<close>

datatype (plugins only: code size) MemberOutcomeKind =
    MK_StepSuccessContinue | MK_StepSuccessTerminal | MK_Yielded | MK_RetryableFailure
  | MK_NonRetryableFailure | MK_Cancelled | MK_Expired | MK_StaleAuthorityRejected
  | MK_raw "u8"

primrec MemberOutcomeKind_val :: "MemberOutcomeKind \<Rightarrow> u8" where
  "MemberOutcomeKind_val MK_StepSuccessContinue = 0"
| "MemberOutcomeKind_val MK_StepSuccessTerminal = 1"
| "MemberOutcomeKind_val MK_Yielded = 2"
| "MemberOutcomeKind_val MK_RetryableFailure = 3"
| "MemberOutcomeKind_val MK_NonRetryableFailure = 4"
| "MemberOutcomeKind_val MK_Cancelled = 5"
| "MemberOutcomeKind_val MK_Expired = 6"
| "MemberOutcomeKind_val MK_StaleAuthorityRejected = 7"
| "MemberOutcomeKind_val (MK_raw v) = v"

definition MemberOutcomeKind_of :: "u8 \<Rightarrow> MemberOutcomeKind" where
  "MemberOutcomeKind_of v =
    (if v = 0 then MK_StepSuccessContinue
     else if v = 1 then MK_StepSuccessTerminal
     else if v = 2 then MK_Yielded
     else if v = 3 then MK_RetryableFailure
     else if v = 4 then MK_NonRetryableFailure
     else if v = 5 then MK_Cancelled
     else if v = 6 then MK_Expired
     else if v = 7 then MK_StaleAuthorityRejected
     else MK_raw v)"

definition MemberOutcomeKind_ok :: "MemberOutcomeKind \<Rightarrow> bool" where
  "MemberOutcomeKind_ok e \<longleftrightarrow> MemberOutcomeKind_of (MemberOutcomeKind_val e) = e"

primrec outcome_to_string :: "MemberOutcomeKind \<Rightarrow> string" where
  "outcome_to_string MK_StepSuccessContinue = ''StepSuccessContinue''"
| "outcome_to_string MK_StepSuccessTerminal = ''StepSuccessTerminal''"
| "outcome_to_string MK_Yielded = ''Yielded''"
| "outcome_to_string MK_RetryableFailure = ''RetryableFailure''"
| "outcome_to_string MK_NonRetryableFailure = ''NonRetryableFailure''"
| "outcome_to_string MK_Cancelled = ''Cancelled''"
| "outcome_to_string MK_Expired = ''Expired''"
| "outcome_to_string MK_StaleAuthorityRejected = ''StaleAuthorityRejected''"
| "outcome_to_string (MK_raw v) = ''UnknownOutcome''"

lemma MemberOutcomeKind_val_of [simp]: "MemberOutcomeKind_val (MemberOutcomeKind_of v) = v"
  by (simp add: MemberOutcomeKind_of_def)

lemma MemberOutcomeKind_ok_of [simp]: "MemberOutcomeKind_ok (MemberOutcomeKind_of v)"
  by (simp add: MemberOutcomeKind_ok_def)

lemma MemberOutcomeKind_of_val [simp]: "MemberOutcomeKind_ok e \<Longrightarrow> MemberOutcomeKind_of (MemberOutcomeKind_val e) = e"
  by (simp add: MemberOutcomeKind_ok_def)

lemma MemberOutcomeKind_ok_enumerators [simp]:
  "MemberOutcomeKind_ok MK_StepSuccessContinue"
  "MemberOutcomeKind_ok MK_StepSuccessTerminal"
  "MemberOutcomeKind_ok MK_Yielded"
  "MemberOutcomeKind_ok MK_RetryableFailure"
  "MemberOutcomeKind_ok MK_NonRetryableFailure"
  "MemberOutcomeKind_ok MK_Cancelled"
  "MemberOutcomeKind_ok MK_Expired"
  "MemberOutcomeKind_ok MK_StaleAuthorityRejected"
  by (simp_all add: MemberOutcomeKind_ok_def MemberOutcomeKind_of_def)

subsection \<open>WorkerHealth\<close>

datatype (plugins only: code size) WorkerHealth =
    WH_Unknown | WH_Healthy | WH_Degraded | WH_Failed | WH_raw "u8"

primrec WorkerHealth_val :: "WorkerHealth \<Rightarrow> u8" where
  "WorkerHealth_val WH_Unknown = 0"
| "WorkerHealth_val WH_Healthy = 1"
| "WorkerHealth_val WH_Degraded = 2"
| "WorkerHealth_val WH_Failed = 3"
| "WorkerHealth_val (WH_raw v) = v"

definition WorkerHealth_of :: "u8 \<Rightarrow> WorkerHealth" where
  "WorkerHealth_of v =
    (if v = 0 then WH_Unknown
     else if v = 1 then WH_Healthy
     else if v = 2 then WH_Degraded
     else if v = 3 then WH_Failed
     else WH_raw v)"

definition WorkerHealth_ok :: "WorkerHealth \<Rightarrow> bool" where
  "WorkerHealth_ok e \<longleftrightarrow> WorkerHealth_of (WorkerHealth_val e) = e"

primrec health_to_string :: "WorkerHealth \<Rightarrow> string" where
  "health_to_string WH_Unknown = ''unknown''"
| "health_to_string WH_Healthy = ''healthy''"
| "health_to_string WH_Degraded = ''degraded''"
| "health_to_string WH_Failed = ''failed''"
| "health_to_string (WH_raw v) = ''unknown_health''"

lemma WorkerHealth_val_of [simp]: "WorkerHealth_val (WorkerHealth_of v) = v"
  by (simp add: WorkerHealth_of_def)

lemma WorkerHealth_ok_of [simp]: "WorkerHealth_ok (WorkerHealth_of v)"
  by (simp add: WorkerHealth_ok_def)

lemma WorkerHealth_of_val [simp]: "WorkerHealth_ok e \<Longrightarrow> WorkerHealth_of (WorkerHealth_val e) = e"
  by (simp add: WorkerHealth_ok_def)

lemma WorkerHealth_ok_enumerators [simp]:
  "WorkerHealth_ok WH_Unknown"
  "WorkerHealth_ok WH_Healthy"
  "WorkerHealth_ok WH_Degraded"
  "WorkerHealth_ok WH_Failed"
  by (simp_all add: WorkerHealth_ok_def WorkerHealth_of_def)

subsection \<open>GroupExclusion\<close>

datatype (plugins only: code size) GroupExclusion =
    GX_None | GX_KeyIncompatible | GX_GroupFull | GX_WorkLimitExceeded
  | GX_KvGrowthLimitExceeded | GX_MemoryHeadroomExceeded | GX_TenantShareExceeded
  | GX_LatencyClassExceeded | GX_DeadlinePressureExceeded | GX_AlreadyDispatched
  | GX_NotReady | GX_Terminal | GX_raw "u8"

primrec GroupExclusion_val :: "GroupExclusion \<Rightarrow> u8" where
  "GroupExclusion_val GX_None = 0"
| "GroupExclusion_val GX_KeyIncompatible = 1"
| "GroupExclusion_val GX_GroupFull = 2"
| "GroupExclusion_val GX_WorkLimitExceeded = 3"
| "GroupExclusion_val GX_KvGrowthLimitExceeded = 4"
| "GroupExclusion_val GX_MemoryHeadroomExceeded = 5"
| "GroupExclusion_val GX_TenantShareExceeded = 6"
| "GroupExclusion_val GX_LatencyClassExceeded = 7"
| "GroupExclusion_val GX_DeadlinePressureExceeded = 8"
| "GroupExclusion_val GX_AlreadyDispatched = 9"
| "GroupExclusion_val GX_NotReady = 10"
| "GroupExclusion_val GX_Terminal = 11"
| "GroupExclusion_val (GX_raw v) = v"

definition GroupExclusion_of :: "u8 \<Rightarrow> GroupExclusion" where
  "GroupExclusion_of v =
    (if v = 0 then GX_None
     else if v = 1 then GX_KeyIncompatible
     else if v = 2 then GX_GroupFull
     else if v = 3 then GX_WorkLimitExceeded
     else if v = 4 then GX_KvGrowthLimitExceeded
     else if v = 5 then GX_MemoryHeadroomExceeded
     else if v = 6 then GX_TenantShareExceeded
     else if v = 7 then GX_LatencyClassExceeded
     else if v = 8 then GX_DeadlinePressureExceeded
     else if v = 9 then GX_AlreadyDispatched
     else if v = 10 then GX_NotReady
     else if v = 11 then GX_Terminal
     else GX_raw v)"

definition GroupExclusion_ok :: "GroupExclusion \<Rightarrow> bool" where
  "GroupExclusion_ok e \<longleftrightarrow> GroupExclusion_of (GroupExclusion_val e) = e"

primrec exclusion_to_string :: "GroupExclusion \<Rightarrow> string" where
  "exclusion_to_string GX_None = ''none''"
| "exclusion_to_string GX_KeyIncompatible = ''key_incompatible''"
| "exclusion_to_string GX_GroupFull = ''group_full''"
| "exclusion_to_string GX_WorkLimitExceeded = ''work_limit_exceeded''"
| "exclusion_to_string GX_KvGrowthLimitExceeded = ''kv_growth_limit_exceeded''"
| "exclusion_to_string GX_MemoryHeadroomExceeded = ''memory_headroom_exceeded''"
| "exclusion_to_string GX_TenantShareExceeded = ''tenant_share_exceeded''"
| "exclusion_to_string GX_LatencyClassExceeded = ''latency_class_exceeded''"
| "exclusion_to_string GX_DeadlinePressureExceeded = ''deadline_pressure_exceeded''"
| "exclusion_to_string GX_AlreadyDispatched = ''already_dispatched''"
| "exclusion_to_string GX_NotReady = ''not_ready''"
| "exclusion_to_string GX_Terminal = ''terminal''"
| "exclusion_to_string (GX_raw v) = ''unknown_group_exclusion''"

lemma GroupExclusion_val_of [simp]: "GroupExclusion_val (GroupExclusion_of v) = v"
  by (simp add: GroupExclusion_of_def)

lemma GroupExclusion_ok_of [simp]: "GroupExclusion_ok (GroupExclusion_of v)"
  by (simp add: GroupExclusion_ok_def)

lemma GroupExclusion_of_val [simp]: "GroupExclusion_ok e \<Longrightarrow> GroupExclusion_of (GroupExclusion_val e) = e"
  by (simp add: GroupExclusion_ok_def)

lemma GroupExclusion_ok_enumerators [simp]:
  "GroupExclusion_ok GX_None"
  "GroupExclusion_ok GX_KeyIncompatible"
  "GroupExclusion_ok GX_GroupFull"
  "GroupExclusion_ok GX_WorkLimitExceeded"
  "GroupExclusion_ok GX_KvGrowthLimitExceeded"
  "GroupExclusion_ok GX_MemoryHeadroomExceeded"
  "GroupExclusion_ok GX_TenantShareExceeded"
  "GroupExclusion_ok GX_LatencyClassExceeded"
  "GroupExclusion_ok GX_DeadlinePressureExceeded"
  "GroupExclusion_ok GX_AlreadyDispatched"
  "GroupExclusion_ok GX_NotReady"
  "GroupExclusion_ok GX_Terminal"
  by (simp_all add: GroupExclusion_ok_def GroupExclusion_of_def)

subsection \<open>EventKind\<close>

datatype (plugins only: code size) EventKind =
    EV_RequestAdmitted | EV_RequestRejected | EV_SequenceReady | EV_SequenceGrouped
  | EV_GroupFormed | EV_GroupGrew | EV_GroupShrank | EV_DispatchIssued
  | EV_StepCompleted | EV_SequenceCompleted | EV_SequenceCancelled
  | EV_SequenceExpired | EV_RetryStarted | EV_RetryFailed | EV_WorkerUp
  | EV_WorkerDown | EV_WorkerRestarted | EV_EpochRolled | EV_StaleRejected
  | EV_ReservationGranted | EV_ReservationReleased | EV_DeadlineMiss
  | EV_BackpressureApplied | EV_MemoryReconciled | EV_Yielding | EV_raw "u16"

primrec EventKind_val :: "EventKind \<Rightarrow> u16" where
  "EventKind_val EV_RequestAdmitted = 0"
| "EventKind_val EV_RequestRejected = 1"
| "EventKind_val EV_SequenceReady = 2"
| "EventKind_val EV_SequenceGrouped = 3"
| "EventKind_val EV_GroupFormed = 4"
| "EventKind_val EV_GroupGrew = 5"
| "EventKind_val EV_GroupShrank = 6"
| "EventKind_val EV_DispatchIssued = 7"
| "EventKind_val EV_StepCompleted = 8"
| "EventKind_val EV_SequenceCompleted = 9"
| "EventKind_val EV_SequenceCancelled = 10"
| "EventKind_val EV_SequenceExpired = 11"
| "EventKind_val EV_RetryStarted = 12"
| "EventKind_val EV_RetryFailed = 13"
| "EventKind_val EV_WorkerUp = 14"
| "EventKind_val EV_WorkerDown = 15"
| "EventKind_val EV_WorkerRestarted = 16"
| "EventKind_val EV_EpochRolled = 17"
| "EventKind_val EV_StaleRejected = 18"
| "EventKind_val EV_ReservationGranted = 19"
| "EventKind_val EV_ReservationReleased = 20"
| "EventKind_val EV_DeadlineMiss = 21"
| "EventKind_val EV_BackpressureApplied = 22"
| "EventKind_val EV_MemoryReconciled = 23"
| "EventKind_val EV_Yielding = 24"
| "EventKind_val (EV_raw v) = v"

definition EventKind_of :: "u16 \<Rightarrow> EventKind" where
  "EventKind_of v =
    (if v = 0 then EV_RequestAdmitted
     else if v = 1 then EV_RequestRejected
     else if v = 2 then EV_SequenceReady
     else if v = 3 then EV_SequenceGrouped
     else if v = 4 then EV_GroupFormed
     else if v = 5 then EV_GroupGrew
     else if v = 6 then EV_GroupShrank
     else if v = 7 then EV_DispatchIssued
     else if v = 8 then EV_StepCompleted
     else if v = 9 then EV_SequenceCompleted
     else if v = 10 then EV_SequenceCancelled
     else if v = 11 then EV_SequenceExpired
     else if v = 12 then EV_RetryStarted
     else if v = 13 then EV_RetryFailed
     else if v = 14 then EV_WorkerUp
     else if v = 15 then EV_WorkerDown
     else if v = 16 then EV_WorkerRestarted
     else if v = 17 then EV_EpochRolled
     else if v = 18 then EV_StaleRejected
     else if v = 19 then EV_ReservationGranted
     else if v = 20 then EV_ReservationReleased
     else if v = 21 then EV_DeadlineMiss
     else if v = 22 then EV_BackpressureApplied
     else if v = 23 then EV_MemoryReconciled
     else if v = 24 then EV_Yielding
     else EV_raw v)"

definition EventKind_ok :: "EventKind \<Rightarrow> bool" where
  "EventKind_ok e \<longleftrightarrow> EventKind_of (EventKind_val e) = e"

primrec event_to_string :: "EventKind \<Rightarrow> string" where
  "event_to_string EV_RequestAdmitted = ''RequestAdmitted''"
| "event_to_string EV_RequestRejected = ''RequestRejected''"
| "event_to_string EV_SequenceReady = ''SequenceReady''"
| "event_to_string EV_SequenceGrouped = ''SequenceGrouped''"
| "event_to_string EV_GroupFormed = ''GroupFormed''"
| "event_to_string EV_GroupGrew = ''GroupGrew''"
| "event_to_string EV_GroupShrank = ''GroupShrank''"
| "event_to_string EV_DispatchIssued = ''DispatchIssued''"
| "event_to_string EV_StepCompleted = ''StepCompleted''"
| "event_to_string EV_SequenceCompleted = ''SequenceCompleted''"
| "event_to_string EV_SequenceCancelled = ''SequenceCancelled''"
| "event_to_string EV_SequenceExpired = ''SequenceExpired''"
| "event_to_string EV_RetryStarted = ''RetryStarted''"
| "event_to_string EV_RetryFailed = ''RetryFailed''"
| "event_to_string EV_WorkerUp = ''WorkerUp''"
| "event_to_string EV_WorkerDown = ''WorkerDown''"
| "event_to_string EV_WorkerRestarted = ''WorkerRestarted''"
| "event_to_string EV_EpochRolled = ''EpochRolled''"
| "event_to_string EV_StaleRejected = ''StaleRejected''"
| "event_to_string EV_ReservationGranted = ''ReservationGranted''"
| "event_to_string EV_ReservationReleased = ''ReservationReleased''"
| "event_to_string EV_DeadlineMiss = ''DeadlineMiss''"
| "event_to_string EV_BackpressureApplied = ''BackpressureApplied''"
| "event_to_string EV_MemoryReconciled = ''MemoryReconciled''"
| "event_to_string EV_Yielding = ''Yielding''"
| "event_to_string (EV_raw v) = ''UnknownEvent''"

lemma EventKind_val_of [simp]: "EventKind_val (EventKind_of v) = v"
  by (simp add: EventKind_of_def)

lemma EventKind_ok_of [simp]: "EventKind_ok (EventKind_of v)"
  by (simp add: EventKind_ok_def)

lemma EventKind_of_val [simp]: "EventKind_ok e \<Longrightarrow> EventKind_of (EventKind_val e) = e"
  by (simp add: EventKind_ok_def)

lemma EventKind_ok_enumerators [simp]:
  "EventKind_ok EV_RequestAdmitted"
  "EventKind_ok EV_RequestRejected"
  "EventKind_ok EV_SequenceReady"
  "EventKind_ok EV_SequenceGrouped"
  "EventKind_ok EV_GroupFormed"
  "EventKind_ok EV_GroupGrew"
  "EventKind_ok EV_GroupShrank"
  "EventKind_ok EV_DispatchIssued"
  "EventKind_ok EV_StepCompleted"
  "EventKind_ok EV_SequenceCompleted"
  "EventKind_ok EV_SequenceCancelled"
  "EventKind_ok EV_SequenceExpired"
  "EventKind_ok EV_RetryStarted"
  "EventKind_ok EV_RetryFailed"
  "EventKind_ok EV_WorkerUp"
  "EventKind_ok EV_WorkerDown"
  "EventKind_ok EV_WorkerRestarted"
  "EventKind_ok EV_EpochRolled"
  "EventKind_ok EV_StaleRejected"
  "EventKind_ok EV_ReservationGranted"
  "EventKind_ok EV_ReservationReleased"
  "EventKind_ok EV_DeadlineMiss"
  "EventKind_ok EV_BackpressureApplied"
  "EventKind_ok EV_MemoryReconciled"
  "EventKind_ok EV_Yielding"
  by (simp_all add: EventKind_ok_def EventKind_of_def)

subsection \<open>FrameType\<close>

datatype (plugins only: code size) FrameType =
    FT_Hello | FT_HelloAck | FT_ExecuteRequest | FT_ExecuteResult | FT_WorkerStatus
  | FT_WorkerShutdownAck | FT_PreparedResult | FT_CommitGrant | FT_CommitReceipt
  | FT_AbortPrepared | FT_GrantStatus | FT_SubmitRequest | FT_Acknowledge
  | FT_CancelRequest | FT_StatusQuery | FT_StatusReply | FT_SnapshotRequest
  | FT_SnapshotReply | FT_ExplainRequest | FT_ExplainReply | FT_Shutdown
  | FT_ShutdownAck | FT_Error | FT_GetAuthority | FT_AuthorityReply | FT_SubmitAck
  | FT_RollEpoch | FT_raw "u32"

primrec FrameType_val :: "FrameType \<Rightarrow> u32" where
  "FrameType_val FT_Hello = 1"
| "FrameType_val FT_HelloAck = 2"
| "FrameType_val FT_ExecuteRequest = 10"
| "FrameType_val FT_ExecuteResult = 11"
| "FrameType_val FT_WorkerStatus = 12"
| "FrameType_val FT_WorkerShutdownAck = 13"
| "FrameType_val FT_PreparedResult = 14"
| "FrameType_val FT_CommitGrant = 15"
| "FrameType_val FT_CommitReceipt = 16"
| "FrameType_val FT_AbortPrepared = 17"
| "FrameType_val FT_GrantStatus = 18"
| "FrameType_val FT_SubmitRequest = 20"
| "FrameType_val FT_Acknowledge = 21"
| "FrameType_val FT_CancelRequest = 22"
| "FrameType_val FT_StatusQuery = 23"
| "FrameType_val FT_StatusReply = 24"
| "FrameType_val FT_SnapshotRequest = 25"
| "FrameType_val FT_SnapshotReply = 26"
| "FrameType_val FT_ExplainRequest = 27"
| "FrameType_val FT_ExplainReply = 28"
| "FrameType_val FT_Shutdown = 30"
| "FrameType_val FT_ShutdownAck = 31"
| "FrameType_val FT_Error = 32"
| "FrameType_val FT_GetAuthority = 40"
| "FrameType_val FT_AuthorityReply = 41"
| "FrameType_val FT_SubmitAck = 42"
| "FrameType_val FT_RollEpoch = 43"
| "FrameType_val (FT_raw v) = v"

definition FrameType_of :: "u32 \<Rightarrow> FrameType" where
  "FrameType_of v =
    (if v = 1 then FT_Hello
     else if v = 2 then FT_HelloAck
     else if v = 10 then FT_ExecuteRequest
     else if v = 11 then FT_ExecuteResult
     else if v = 12 then FT_WorkerStatus
     else if v = 13 then FT_WorkerShutdownAck
     else if v = 14 then FT_PreparedResult
     else if v = 15 then FT_CommitGrant
     else if v = 16 then FT_CommitReceipt
     else if v = 17 then FT_AbortPrepared
     else if v = 18 then FT_GrantStatus
     else if v = 20 then FT_SubmitRequest
     else if v = 21 then FT_Acknowledge
     else if v = 22 then FT_CancelRequest
     else if v = 23 then FT_StatusQuery
     else if v = 24 then FT_StatusReply
     else if v = 25 then FT_SnapshotRequest
     else if v = 26 then FT_SnapshotReply
     else if v = 27 then FT_ExplainRequest
     else if v = 28 then FT_ExplainReply
     else if v = 30 then FT_Shutdown
     else if v = 31 then FT_ShutdownAck
     else if v = 32 then FT_Error
     else if v = 40 then FT_GetAuthority
     else if v = 41 then FT_AuthorityReply
     else if v = 42 then FT_SubmitAck
     else if v = 43 then FT_RollEpoch
     else FT_raw v)"

definition FrameType_ok :: "FrameType \<Rightarrow> bool" where
  "FrameType_ok e \<longleftrightarrow> FrameType_of (FrameType_val e) = e"

primrec frame_to_string :: "FrameType \<Rightarrow> string" where
  "frame_to_string FT_Hello = ''Hello''"
| "frame_to_string FT_HelloAck = ''HelloAck''"
| "frame_to_string FT_ExecuteRequest = ''ExecuteRequest''"
| "frame_to_string FT_ExecuteResult = ''ExecuteResult''"
| "frame_to_string FT_WorkerStatus = ''WorkerStatus''"
| "frame_to_string FT_WorkerShutdownAck = ''WorkerShutdownAck''"
| "frame_to_string FT_PreparedResult = ''UnknownFrame''"
| "frame_to_string FT_CommitGrant = ''UnknownFrame''"
| "frame_to_string FT_CommitReceipt = ''UnknownFrame''"
| "frame_to_string FT_AbortPrepared = ''UnknownFrame''"
| "frame_to_string FT_GrantStatus = ''UnknownFrame''"
| "frame_to_string FT_SubmitRequest = ''SubmitRequest''"
| "frame_to_string FT_Acknowledge = ''Acknowledge''"
| "frame_to_string FT_CancelRequest = ''CancelRequest''"
| "frame_to_string FT_StatusQuery = ''StatusQuery''"
| "frame_to_string FT_StatusReply = ''StatusReply''"
| "frame_to_string FT_SnapshotRequest = ''SnapshotRequest''"
| "frame_to_string FT_SnapshotReply = ''SnapshotReply''"
| "frame_to_string FT_ExplainRequest = ''ExplainRequest''"
| "frame_to_string FT_ExplainReply = ''ExplainReply''"
| "frame_to_string FT_Shutdown = ''Shutdown''"
| "frame_to_string FT_ShutdownAck = ''ShutdownAck''"
| "frame_to_string FT_Error = ''Error''"
| "frame_to_string FT_GetAuthority = ''GetAuthority''"
| "frame_to_string FT_AuthorityReply = ''AuthorityReply''"
| "frame_to_string FT_SubmitAck = ''SubmitAck''"
| "frame_to_string FT_RollEpoch = ''RollEpoch''"
| "frame_to_string (FT_raw v) = ''UnknownFrame''"

lemma FrameType_val_of [simp]: "FrameType_val (FrameType_of v) = v"
  by (simp add: FrameType_of_def)

lemma FrameType_ok_of [simp]: "FrameType_ok (FrameType_of v)"
  by (simp add: FrameType_ok_def)

lemma FrameType_of_val [simp]: "FrameType_ok e \<Longrightarrow> FrameType_of (FrameType_val e) = e"
  by (simp add: FrameType_ok_def)

lemma FrameType_ok_enumerators [simp]:
  "FrameType_ok FT_Hello"
  "FrameType_ok FT_HelloAck"
  "FrameType_ok FT_ExecuteRequest"
  "FrameType_ok FT_ExecuteResult"
  "FrameType_ok FT_WorkerStatus"
  "FrameType_ok FT_WorkerShutdownAck"
  "FrameType_ok FT_PreparedResult"
  "FrameType_ok FT_CommitGrant"
  "FrameType_ok FT_CommitReceipt"
  "FrameType_ok FT_AbortPrepared"
  "FrameType_ok FT_GrantStatus"
  "FrameType_ok FT_SubmitRequest"
  "FrameType_ok FT_Acknowledge"
  "FrameType_ok FT_CancelRequest"
  "FrameType_ok FT_StatusQuery"
  "FrameType_ok FT_StatusReply"
  "FrameType_ok FT_SnapshotRequest"
  "FrameType_ok FT_SnapshotReply"
  "FrameType_ok FT_ExplainRequest"
  "FrameType_ok FT_ExplainReply"
  "FrameType_ok FT_Shutdown"
  "FrameType_ok FT_ShutdownAck"
  "FrameType_ok FT_Error"
  "FrameType_ok FT_GetAuthority"
  "FrameType_ok FT_AuthorityReply"
  "FrameType_ok FT_SubmitAck"
  "FrameType_ok FT_RollEpoch"
  by (simp_all add: FrameType_ok_def FrameType_of_def)

subsection \<open>ReservationKind\<close>

datatype (plugins only: code size) ReservationKind =
    RK_SequenceReservation | RK_GroupReservation | RK_raw "u8"

primrec ReservationKind_val :: "ReservationKind \<Rightarrow> u8" where
  "ReservationKind_val RK_SequenceReservation = 0"
| "ReservationKind_val RK_GroupReservation = 1"
| "ReservationKind_val (RK_raw v) = v"

definition ReservationKind_of :: "u8 \<Rightarrow> ReservationKind" where
  "ReservationKind_of v =
    (if v = 0 then RK_SequenceReservation
     else if v = 1 then RK_GroupReservation
     else RK_raw v)"

definition ReservationKind_ok :: "ReservationKind \<Rightarrow> bool" where
  "ReservationKind_ok e \<longleftrightarrow> ReservationKind_of (ReservationKind_val e) = e"

lemma ReservationKind_val_of [simp]: "ReservationKind_val (ReservationKind_of v) = v"
  by (simp add: ReservationKind_of_def)

lemma ReservationKind_ok_of [simp]: "ReservationKind_ok (ReservationKind_of v)"
  by (simp add: ReservationKind_ok_def)

lemma ReservationKind_of_val [simp]: "ReservationKind_ok e \<Longrightarrow> ReservationKind_of (ReservationKind_val e) = e"
  by (simp add: ReservationKind_ok_def)

lemma ReservationKind_ok_enumerators [simp]:
  "ReservationKind_ok RK_SequenceReservation"
  "ReservationKind_ok RK_GroupReservation"
  by (simp_all add: ReservationKind_ok_def ReservationKind_of_def)

end
