(* ===== verification/Results.thy ===== *)
theory Results
  imports Enums
begin

text \<open>
  Structured errors and \<^verbatim>\<open>Result<T>\<close> (\<^verbatim>\<open>include/decodefabric/error.hpp\<close>): a value of type
  \<open>'a result\<close> is \<^term>\<open>Inl e\<close> for an error and \<^term>\<open>Inr v\<close> for a value. An early return on
  \<^verbatim>\<open>!r.ok()\<close> is \<open>result_bind\<close>.
\<close>

record Error =
  err_code :: ErrorCode
  err_message :: string

type_synonym 'a result = "Error + 'a"

definition failed :: "ErrorCode \<Rightarrow> string \<Rightarrow> 'a result" where
  "failed c m = Inl \<lparr>err_code = c, err_message = m\<rparr>"

definition result_bind :: "'a result \<Rightarrow> ('a \<Rightarrow> 'b result) \<Rightarrow> 'b result" where
  "result_bind r f = (case r of Inl e \<Rightarrow> Inl e | Inr v \<Rightarrow> f v)"

lemma result_bind_simps [simp]:
  "result_bind (Inl e) f = Inl e"
  "result_bind (Inr v) f = f v"
  by (simp_all add: result_bind_def)

lemma failed_neq_Inr [simp]: "failed c m \<noteq> Inr v" "Inr v \<noteq> failed c m"
  by (simp_all add: failed_def)

lemma result_bind_failed [simp]: "result_bind (failed c m) f = failed c m"
  by (simp add: failed_def)

lemma result_bind_eq_Inr:
  "result_bind r f = Inr w \<longleftrightarrow> (\<exists>v. r = Inr v \<and> f v = Inr w)"
  by (cases r) auto

definition is_ok :: "'a result \<Rightarrow> bool" where
  "is_ok r = (case r of Inl _ \<Rightarrow> False | Inr _ \<Rightarrow> True)"

lemma is_ok_simps [simp]: "is_ok (Inr v)" "\<not> is_ok (Inl e)" "\<not> is_ok (failed c m)"
  by (simp_all add: is_ok_def failed_def)

end
