(* ===== verification/Lifecycle.thy ===== *)
theory Lifecycle
  imports Results
begin

text \<open>
  The per-sequence state machine (\<^verbatim>\<open>include/decodefabric/state_machine.hpp\<close> and
  \<^verbatim>\<open>src/core.cpp\<close>) and the generation budget (\<^verbatim>\<open>include/decodefabric/token.hpp\<close>).
  \<^verbatim>\<open>SequenceStateMachine\<close> holds one \<^typ>\<open>SequenceState\<close>; \<open>transition_to\<close> returns the result
  together with the new state, and \<open>sm_go\<close> is a call whose result the caller drops.
\<close>

section \<open>The state machine\<close>

definition is_terminal :: "SequenceState \<Rightarrow> bool" where
  "is_terminal s \<longleftrightarrow> s = ST_Cancelled \<or> s = ST_DeadlineExpired \<or> s = ST_NonRetryableFailure \<or>
     s = ST_Completed \<or> s = ST_StaleSuperseded"

definition is_stopped :: "SequenceState \<Rightarrow> bool" where
  "is_stopped s \<longleftrightarrow> s = ST_CancelRequested \<or> is_terminal s"

definition can_transition :: "SequenceState \<Rightarrow> SequenceState \<Rightarrow> bool" where
  "can_transition from to \<longleftrightarrow>
    (if from = to then False
     else if is_terminal from then False
     else case from of
       ST_Admitted \<Rightarrow> to = ST_Waiting \<or> to = ST_Cancelled \<or> to = ST_DeadlineExpired
     | ST_Waiting \<Rightarrow> to = ST_Ready \<or> to = ST_Paused \<or> to = ST_Cancelled \<or> to = ST_DeadlineExpired
     | ST_Ready \<Rightarrow> to = ST_Grouped \<or> to = ST_Waiting \<or> to = ST_Yielded \<or> to = ST_Paused \<or>
         to = ST_Cancelled \<or> to = ST_DeadlineExpired
     | ST_ReadyForNextToken \<Rightarrow> to = ST_Grouped \<or> to = ST_Waiting \<or> to = ST_Yielded \<or>
         to = ST_Paused \<or> to = ST_Cancelled \<or> to = ST_DeadlineExpired
     | ST_Grouped \<Rightarrow> to = ST_Reserved \<or> to = ST_Ready \<or> to = ST_Waiting \<or> to = ST_Cancelled \<or>
         to = ST_DeadlineExpired
     | ST_Reserved \<Rightarrow> to = ST_Dispatched \<or> to = ST_Ready \<or> to = ST_Waiting \<or> to = ST_Cancelled \<or>
         to = ST_DeadlineExpired
     | ST_Dispatched \<Rightarrow> to = ST_Running \<or> to = ST_StepCompleted \<or> to = ST_CancelRequested \<or>
         to = ST_Cancelled \<or> to = ST_DeadlineExpired \<or> to = ST_StaleSuperseded \<or>
         to = ST_RetryableFailure \<or> to = ST_NonRetryableFailure \<or> to = ST_Retrying
     | ST_Running \<Rightarrow> to = ST_StepCompleted \<or> to = ST_Completed \<or> to = ST_NonRetryableFailure \<or>
         to = ST_RetryableFailure \<or> to = ST_Retrying \<or> to = ST_Cancelled \<or>
         to = ST_DeadlineExpired \<or> to = ST_StaleSuperseded
     | ST_StepCompleted \<Rightarrow> to = ST_ReadyForNextToken \<or> to = ST_Completed \<or> to = ST_Cancelled \<or>
         to = ST_DeadlineExpired \<or> to = ST_NonRetryableFailure \<or> to = ST_RetryableFailure \<or>
         to = ST_Retrying \<or> to = ST_StaleSuperseded \<or> to = ST_Waiting
     | ST_Yielded \<Rightarrow> to = ST_Ready \<or> to = ST_Waiting \<or> to = ST_Paused \<or> to = ST_Cancelled \<or>
         to = ST_DeadlineExpired
     | ST_Paused \<Rightarrow> to = ST_Ready \<or> to = ST_Waiting \<or> to = ST_Cancelled \<or> to = ST_DeadlineExpired
     | ST_CancelRequested \<Rightarrow> to = ST_Cancelled \<or> to = ST_DeadlineExpired \<or> to = ST_Completed
     | ST_RetryableFailure \<Rightarrow> to = ST_Retrying
     | ST_Retrying \<Rightarrow> to = ST_Ready \<or> to = ST_Cancelled \<or> to = ST_DeadlineExpired
     | _ \<Rightarrow> False)"

definition transition_to :: "SequenceState \<Rightarrow> SequenceState \<Rightarrow> unit result \<times> SequenceState" where
  "transition_to next cur =
    (if \<not> can_transition cur next
     then (failed EC_InvalidArgument
             (''invalid transition '' @ state_to_string cur @ '' -> '' @ state_to_string next), cur)
     else (Inr (), next))"

definition sm_go :: "SequenceState \<Rightarrow> SequenceState \<Rightarrow> SequenceState" where
  "sm_go next cur = snd (transition_to next cur)"

lemma sm_go_eq: "sm_go next cur = (if can_transition cur next then next else cur)"
  by (simp add: sm_go_def transition_to_def)

lemma terminal_stuck [simp]: "is_terminal s \<Longrightarrow> \<not> can_transition s t"
  by (simp add: can_transition_def)

lemma sm_go_terminal [simp]: "is_terminal s \<Longrightarrow> sm_go t s = s"
  by (simp add: sm_go_eq)

lemma is_terminal_simps [simp]:
  "\<not> is_terminal ST_Admitted" "\<not> is_terminal ST_Waiting" "\<not> is_terminal ST_Ready"
  "\<not> is_terminal ST_Grouped" "\<not> is_terminal ST_Reserved" "\<not> is_terminal ST_Dispatched"
  "\<not> is_terminal ST_Running" "\<not> is_terminal ST_StepCompleted" "\<not> is_terminal ST_ReadyForNextToken"
  "\<not> is_terminal ST_Yielded" "\<not> is_terminal ST_Paused" "\<not> is_terminal ST_CancelRequested"
  "is_terminal ST_Cancelled" "is_terminal ST_DeadlineExpired" "\<not> is_terminal ST_RetryableFailure"
  "is_terminal ST_NonRetryableFailure" "\<not> is_terminal ST_Retrying" "is_terminal ST_Completed"
  "is_terminal ST_StaleSuperseded" "\<not> is_terminal (ST_raw v)"
  by (simp_all add: is_terminal_def)

lemma sm_go_cases: "sm_go t s = s \<or> (can_transition s t \<and> sm_go t s = t)"
  by (simp add: sm_go_eq)

text \<open>The transitions the fabric's operations rely on, evaluated once.\<close>

lemma sm_go_simps [simp]:
  "sm_go ST_Waiting ST_Admitted = ST_Waiting"
  "sm_go ST_Ready ST_Waiting = ST_Ready"
  "sm_go ST_Ready ST_Grouped = ST_Ready"
  "sm_go ST_Grouped ST_Ready = ST_Grouped"
  "sm_go ST_Grouped ST_ReadyForNextToken = ST_Grouped"
  "sm_go ST_Grouped ST_Waiting = ST_Waiting"
  "sm_go ST_Grouped ST_Yielded = ST_Yielded"
  "sm_go ST_Reserved ST_Grouped = ST_Reserved"
  "sm_go ST_Dispatched ST_Reserved = ST_Dispatched"
  "sm_go ST_StepCompleted ST_Dispatched = ST_StepCompleted"
  "sm_go ST_StepCompleted ST_Running = ST_StepCompleted"
  "sm_go ST_ReadyForNextToken ST_StepCompleted = ST_ReadyForNextToken"
  "sm_go ST_Completed ST_StepCompleted = ST_Completed"
  "sm_go ST_Waiting ST_StepCompleted = ST_Waiting"
  "sm_go ST_Retrying ST_RetryableFailure = ST_Retrying"
  "sm_go ST_Ready ST_Retrying = ST_Ready"
  "sm_go ST_CancelRequested ST_Dispatched = ST_CancelRequested"
  "sm_go ST_Cancelled ST_CancelRequested = ST_Cancelled"
  by (simp_all add: sm_go_eq can_transition_def)

text \<open>A transition into a terminal state, or into any state, never starts from a terminal one; and a
  terminal state is never left, whatever sequence of transitions is requested.\<close>

lemma sm_go_fold_terminal: "is_terminal s \<Longrightarrow> fold sm_go ts s = s"
  by (induction ts) auto

lemma can_transition_irrefl [simp]: "\<not> can_transition s s"
  by (simp add: can_transition_def)

lemma can_transition_enumerator: "can_transition s t \<Longrightarrow> t \<noteq> ST_raw v"
  by (cases s) (auto simp: can_transition_def split: if_splits)

lemma terminal_rtranclp: "can_transition\<^sup>*\<^sup>* s t \<Longrightarrow> is_terminal s \<Longrightarrow> t = s"
  by (induction rule: converse_rtranclp_induct) auto

text \<open>Progress: from every enumerator a terminal state can be reached.\<close>

lemma to_cancelled:
  "s \<in> {ST_Admitted, ST_Waiting, ST_Ready, ST_Grouped, ST_Reserved, ST_Dispatched, ST_Running,
        ST_StepCompleted, ST_ReadyForNextToken, ST_Yielded, ST_Paused, ST_CancelRequested,
        ST_Retrying} \<Longrightarrow> can_transition s ST_Cancelled"
  by (auto simp: can_transition_def)

lemma reaches_terminal:
  assumes "\<And>v. s \<noteq> ST_raw v"
  shows "\<exists>t. is_terminal t \<and> can_transition\<^sup>*\<^sup>* s t"
proof (cases "is_terminal s")
  case True
  then show ?thesis by blast
next
  case False
  consider "can_transition s ST_Cancelled" | "s = ST_RetryableFailure"
    using False assms to_cancelled by (cases s) auto
  then show ?thesis
  proof cases
    case 1
    then show ?thesis by (meson is_terminal_simps(13) r_into_rtranclp)
  next
    case 2
    then have "can_transition s ST_Retrying" by (simp add: can_transition_def)
    moreover have "can_transition ST_Retrying ST_Cancelled" by (simp add: to_cancelled)
    ultimately show ?thesis by (meson is_terminal_simps(13) r_into_rtranclp rtranclp_trans)
  qed
qed

text \<open>What a sequence can become before it is ever dispatched.\<close>

definition undispatched :: "SequenceState set" where
  "undispatched = {ST_Admitted, ST_Waiting, ST_Ready, ST_Grouped, ST_Reserved, ST_Yielded,
     ST_Paused, ST_Cancelled, ST_DeadlineExpired}"

lemma undispatched_step:
  "s \<in> undispatched \<Longrightarrow> can_transition s t \<Longrightarrow> t \<in> undispatched \<or> t = ST_Dispatched"
  by (auto simp: undispatched_def can_transition_def split: if_splits)

lemma undispatched_path:
  assumes "(\<lambda>a b. can_transition a b \<and> b \<noteq> ST_Dispatched)\<^sup>*\<^sup>* s t" and "s \<in> undispatched"
  shows "t \<in> undispatched"
  using assms by (induction rule: rtranclp_induct) (auto dest: undispatched_step)

section \<open>The generation budget\<close>

record TokenBudget =
  tb_max :: u64
  tb_generated :: u64

definition new_budget :: "u64 \<Rightarrow> TokenBudget" where
  "new_budget m = \<lparr>tb_max = m, tb_generated = 0\<rparr>"

definition checked_add :: "u64 \<Rightarrow> u64 \<Rightarrow> u64 result" where
  "checked_add a b =
    (if b > - 1 - a then failed EC_Overflow ''token counter overflow'' else Inr (a + b))"

definition budget_remaining :: "TokenBudget \<Rightarrow> u64" where
  "budget_remaining b = (if tb_generated b \<ge> tb_max b then 0 else tb_max b - tb_generated b)"

definition budget_exhausted :: "TokenBudget \<Rightarrow> bool" where
  "budget_exhausted b \<longleftrightarrow> tb_generated b \<ge> tb_max b"

definition budget_valid :: "TokenBudget \<Rightarrow> bool" where
  "budget_valid b \<longleftrightarrow> tb_max b > 0"

definition budget_advance :: "u64 \<Rightarrow> TokenBudget \<Rightarrow> unit result \<times> TokenBudget" where
  "budget_advance by b =
    (case checked_add (tb_generated b) by of
       Inl e \<Rightarrow> (Inl e, b)
     | Inr next \<Rightarrow>
         if next > tb_max b
         then (failed EC_Backpressure ''generation budget exhausted'', b)
         else (Inr (), b\<lparr>tb_generated := next\<rparr>))"

definition budget_advanced :: "u64 \<Rightarrow> TokenBudget \<Rightarrow> TokenBudget" where
  "budget_advanced by b = snd (budget_advance by b)"

definition budget_ok :: "TokenBudget \<Rightarrow> bool" where
  "budget_ok b \<longleftrightarrow> tb_generated b \<le> tb_max b"

lemma checked_add_spec:
  "checked_add a b =
     (if unat a + unat b < 2 ^ 64 then Inr (a + b) else failed EC_Overflow ''token counter overflow'')"
proof -
  have "unat (- 1 - a) = 2 ^ 64 - 1 - unat a"
    using unat_sub [of a "- 1"] by (simp add: unsigned_minus_1_eq_mask mask_eq_exp_minus_1)
  moreover have "unat a < 2 ^ 64" using unsigned_less [of a] by simp
  ultimately have "b > - 1 - a \<longleftrightarrow> \<not> unat a + unat b < 2 ^ 64"
    unfolding word_less_nat_alt by linarith
  then show ?thesis by (simp add: checked_add_def)
qed

lemma budget_advance_spec:
  "budget_advance by b =
    (if 2 ^ 64 \<le> unat (tb_generated b) + unat by
     then (failed EC_Overflow ''token counter overflow'', b)
     else if unat (tb_max b) < unat (tb_generated b) + unat by
     then (failed EC_Backpressure ''generation budget exhausted'', b)
     else (Inr (), b\<lparr>tb_generated := tb_generated b + by\<rparr>))"
  by (auto simp: budget_advance_def checked_add_spec failed_def word_less_nat_alt unat_word_ariths)

lemma budget_advanced_max [simp]: "tb_max (budget_advanced n b) = tb_max b"
  by (auto simp: budget_advanced_def budget_advance_spec)

lemma budget_advanced_ok [simp]: "budget_ok b \<Longrightarrow> budget_ok (budget_advanced n b)"
  by (auto simp: budget_ok_def budget_advanced_def budget_advance_spec word_le_nat_alt unat_word_ariths)

lemma budget_ok_new [simp]: "budget_ok (new_budget m)"
  by (simp add: budget_ok_def new_budget_def)

lemma unat_budget_remaining:
  "budget_ok b \<Longrightarrow> unat (budget_remaining b) = unat (tb_max b) - unat (tb_generated b)"
  by (auto simp: budget_remaining_def budget_ok_def unat_sub word_le_nat_alt)

lemma budget_advanced_one:
  assumes "\<not> budget_exhausted b"
  shows "tb_generated (budget_advanced 1 b) = tb_generated b + 1"
    and "unat (tb_generated (budget_advanced 1 b)) = unat (tb_generated b) + 1"
proof -
  have lt: "unat (tb_generated b) < unat (tb_max b)"
    using assms by (simp add: budget_exhausted_def word_less_nat_alt not_le)
  moreover have "unat (tb_max b) < 2 ^ 64" using unsigned_less [of "tb_max b"] by simp
  ultimately show "tb_generated (budget_advanced 1 b) = tb_generated b + 1"
    and "unat (tb_generated (budget_advanced 1 b)) = unat (tb_generated b) + 1"
    by (auto simp: budget_advanced_def budget_advance_spec unat_word_ariths)
qed

lemma budget_advanced_exhausted: "budget_exhausted b \<Longrightarrow> budget_advanced 1 b = b"
  by (auto simp: budget_advanced_def budget_advance_spec budget_exhausted_def word_le_nat_alt)

text \<open>The replay loop of recovery, \<^verbatim>\<open>for (k = 0; k < n; ++k) budget.advance(1)\<close>.\<close>

definition budget_replay :: "nat \<Rightarrow> TokenBudget \<Rightarrow> TokenBudget" where
  "budget_replay n = budget_advanced 1 ^^ n"

lemma budget_replay_generated:
  "tb_max (budget_replay n (new_budget m)) = m"
  "unat (tb_generated (budget_replay n (new_budget m))) = min n (unat m)"
proof (induction n)
  case 0
  show "tb_max (budget_replay 0 (new_budget m)) = m"
    and "unat (tb_generated (budget_replay 0 (new_budget m))) = min 0 (unat m)"
    by (simp_all add: budget_replay_def new_budget_def)
next
  case (Suc n)
  let ?b = "budget_replay n (new_budget m)"
  have step: "budget_replay (Suc n) (new_budget m) = budget_advanced 1 ?b"
    by (simp add: budget_replay_def)
  show "tb_max (budget_replay (Suc n) (new_budget m)) = m"
    using Suc.IH(1) step by simp
  show "unat (tb_generated (budget_replay (Suc n) (new_budget m))) = min (Suc n) (unat m)"
  proof (cases "budget_exhausted ?b")
    case True
    then have "unat m \<le> unat (tb_generated ?b)"
      using Suc.IH(1) by (simp add: budget_exhausted_def word_le_nat_alt)
    with True Suc.IH(2) step show ?thesis by (simp add: budget_advanced_exhausted)
  next
    case False
    then have "unat (tb_generated ?b) < unat m"
      using Suc.IH(1) by (simp add: budget_exhausted_def word_less_nat_alt not_le)
    with False Suc.IH(2) step show ?thesis by (simp add: budget_advanced_one(2))
  qed
qed

end
