(* ===== verification/Float64.thy ===== *)
theory Float64
  imports Prelude
begin

text \<open>
  \<^verbatim>\<open>double\<close> as the C++ sources use it: an IEEE 754 binary64 value is its 64-bit pattern (the code
  itself copies doubles to and from \<^verbatim>\<open>std::uint64_t\<close> with \<^verbatim>\<open>memcpy\<close>). Addition, multiplication,
  division and the conversion from integers are computed exactly on integers and then rounded to
  nearest, ties to even; comparisons are false on NaN, and the two zeros are equal. The functions
  of the C math library (\<^verbatim>\<open>std::tanh\<close>, \<^verbatim>\<open>std::sin\<close>, \<^verbatim>\<open>std::sqrt\<close>) have no result fixed by the
  language and are parameters of the definitions that call them.
\<close>

type_synonym double = u64

definition f64_sign :: "double \<Rightarrow> bool" where
  "f64_sign b = bit b 63"

definition f64_exp :: "double \<Rightarrow> u64" where
  "f64_exp b = drop_bit 52 b AND 0x7FF"

definition f64_frac :: "double \<Rightarrow> u64" where
  "f64_frac b = b AND 0xFFFFFFFFFFFFF"

definition f64_nan :: double where
  "f64_nan = 0x7FF8000000000000"

definition f64_is_nan :: "double \<Rightarrow> bool" where
  "f64_is_nan b \<longleftrightarrow> f64_exp b = 2047 \<and> f64_frac b \<noteq> 0"

definition f64_is_inf :: "double \<Rightarrow> bool" where
  "f64_is_inf b \<longleftrightarrow> f64_exp b = 2047 \<and> f64_frac b = 0"

text \<open>A finite value is \<open>f64_int b * 2 ^ f64_scale b\<close>.\<close>

definition f64_int :: "double \<Rightarrow> int" where
  "f64_int b =
    (let m = uint (f64_frac b);
         n = (if f64_exp b = 0 then m else m + 2 ^ 52)
     in if f64_sign b then - n else n)"

definition f64_scale :: "double \<Rightarrow> int" where
  "f64_scale b = (if f64_exp b = 0 then - 1074 else uint (f64_exp b) - 1075)"

definition f64_signed :: "bool \<Rightarrow> double \<Rightarrow> double" where
  "f64_signed neg m = (if neg then m OR 0x8000000000000000 else m)"

definition f64_inf :: double where
  "f64_inf = 0x7FF0000000000000"

function int_bits :: "int \<Rightarrow> int" where
  "int_bits n = (if n \<le> 0 then 0 else 1 + int_bits (n div 2))"
  by pat_completeness auto
termination
  by (relation "measure nat") auto

declare int_bits.simps [simp del]

definition shl :: "int \<Rightarrow> int \<Rightarrow> int" where
  "shl i n = (if n \<le> 0 then i else i * 2 ^ nat n)"

text \<open>Round the positive value \<open>num / den * 2 ^ ex\<close> to the nearest double, ties to even.\<close>

definition f64_round :: "int \<Rightarrow> int \<Rightarrow> int \<Rightarrow> double" where
  "f64_round num den ex =
    (if num = 0 then 0
     else
       let k = max (int_bits num - int_bits den - 53) (- 1074 - ex);
           e = (if shl num (- k) div shl den k < 2 ^ 53 then k else k + 1);
           n = shl num (- e);
           d = shl den e;
           q = n div d;
           r = n mod d;
           q' = (if 2 * r > d \<or> (2 * r = d \<and> odd q) then q + 1 else q);
           m = (e + ex + 1074) * 2 ^ 52 + q'
       in if m \<ge> 2047 * 2 ^ 52 then f64_inf else word_of_int m)"

definition f64_add :: "double \<Rightarrow> double \<Rightarrow> double" where
  "f64_add a b =
    (if f64_is_nan a \<or> f64_is_nan b then f64_nan
     else if f64_is_inf a then (if f64_is_inf b \<and> f64_sign a \<noteq> f64_sign b then f64_nan else a)
     else if f64_is_inf b then b
     else
       let ex = min (f64_scale a) (f64_scale b);
           s = shl (f64_int a) (f64_scale a - ex) + shl (f64_int b) (f64_scale b - ex)
       in if s = 0 then f64_signed (f64_sign a \<and> f64_sign b) 0
          else f64_signed (s < 0) (f64_round \<bar>s\<bar> 1 ex))"

definition f64_mul :: "double \<Rightarrow> double \<Rightarrow> double" where
  "f64_mul a b =
    (let neg = (f64_sign a \<noteq> f64_sign b) in
     if f64_is_nan a \<or> f64_is_nan b then f64_nan
     else if f64_is_inf a \<or> f64_is_inf b
       then (if f64_int a = 0 \<or> f64_int b = 0 then f64_nan else f64_signed neg f64_inf)
     else f64_signed neg
       (f64_round \<bar>f64_int a * f64_int b\<bar> 1 (f64_scale a + f64_scale b)))"

definition f64_div :: "double \<Rightarrow> double \<Rightarrow> double" where
  "f64_div a b =
    (let neg = (f64_sign a \<noteq> f64_sign b) in
     if f64_is_nan a \<or> f64_is_nan b \<or> (f64_is_inf a \<and> f64_is_inf b) then f64_nan
     else if f64_is_inf a then f64_signed neg f64_inf
     else if f64_is_inf b then f64_signed neg 0
     else if f64_int b = 0 then (if f64_int a = 0 then f64_nan else f64_signed neg f64_inf)
     else f64_signed neg
       (f64_round \<bar>f64_int a\<bar> \<bar>f64_int b\<bar> (f64_scale a - f64_scale b)))"

definition f64_of_int :: "int \<Rightarrow> double" where
  "f64_of_int i = f64_signed (i < 0) (f64_round \<bar>i\<bar> 1 0)"

text \<open>The order on values: the bit pattern without its sign is monotone in the magnitude.\<close>

definition f64_key :: "double \<Rightarrow> int" where
  "f64_key b = (let m = uint (b AND 0x7FFFFFFFFFFFFFFF) in if f64_sign b then - m else m)"

definition f64_less :: "double \<Rightarrow> double \<Rightarrow> bool" where
  "f64_less a b \<longleftrightarrow> \<not> f64_is_nan a \<and> \<not> f64_is_nan b \<and> f64_key a < f64_key b"

definition f64_eq :: "double \<Rightarrow> double \<Rightarrow> bool" where
  "f64_eq a b \<longleftrightarrow> \<not> f64_is_nan a \<and> \<not> f64_is_nan b \<and> f64_key a = f64_key b"

text \<open>\<^verbatim>\<open>std::min(a, b)\<close> is \<^verbatim>\<open>(b < a) ? b : a\<close>.\<close>

definition f64_min :: "double \<Rightarrow> double \<Rightarrow> double" where
  "f64_min a b = (if f64_less b a then b else a)"

end
