(* ===== verification/Records.thy ===== *)
theory Records
  imports Lifecycle Float64
begin

text \<open>
  The data of the public API: identifiers (\<^verbatim>\<open>ids.hpp\<close>), time (\<^verbatim>\<open>clock.hpp\<close>), state descriptors,
  requests, compatibility keys, devices, workers, group limits, reservations and the messages of
  the transactional executor protocol (\<^verbatim>\<open>executor.hpp\<close>). Each C++ struct is a record with the
  source's fields in the source's order, prefixed by the struct's initials; \<open>default_\<close> values are
  the C++ member initialisers.
\<close>

section \<open>Identifiers and time\<close>

text \<open>\<^verbatim>\<open>Id<Tag>\<close> is a 64-bit value; the tag separates categories at compile time only.\<close>

type_synonym RequestId = u64
type_synonym AttemptId = u64
type_synonym TenantId = u64
type_synonym ModelId = u64
type_synonym ModelRevision = u64
type_synonym AdapterId = u64
type_synonym SequenceId = u64
type_synonym DecodeGroupId = u64
type_synonym DispatchId = u64
type_synonym DecodeGeneration = u64
type_synonym StateId = u64
type_synonym DeviceId = u64
type_synonym WorkerId = u64
type_synonym WorkerBootId = u64
type_synonym CoordinatorEpoch = u64
type_synonym ReservationId = u64
type_synonym EventId = u64
type_synonym ExecutorId = u64
type_synonym ProposalId = u64
type_synonym GrantId = u64
type_synonym ReceiptId = u64

definition id_null :: u64 where
  "id_null = 0"

definition id_is_null :: "u64 \<Rightarrow> bool" where
  "id_is_null v \<longleftrightarrow> v = 0"

definition id_is_valid :: "u64 \<Rightarrow> bool" where
  "id_is_valid v \<longleftrightarrow> v \<noteq> 0"

text \<open>\<^verbatim>\<open>Nanoseconds\<close> is \<^verbatim>\<open>std::int64_t\<close>; a \<^verbatim>\<open>TimePoint\<close> is one such value and is compared as signed.\<close>

type_synonym Nanoseconds = s64
type_synonym TimePoint = s64

definition ns_less :: "Nanoseconds \<Rightarrow> Nanoseconds \<Rightarrow> bool" where
  "ns_less a b \<longleftrightarrow> sint a < sint b"

section \<open>State descriptors and requests\<close>

record StateDescriptor =
  sd_id :: StateId
  sd_generation :: u64
  sd_device :: DeviceId
  sd_bytes_held :: u64
  sd_estimated_growth :: u64
  sd_owner_tag :: u64
  sd_access_version :: u64

definition default_StateDescriptor :: StateDescriptor where
  "default_StateDescriptor = \<lparr>sd_id = 0, sd_generation = 0, sd_device = 0, sd_bytes_held = 0,
     sd_estimated_growth = 0, sd_owner_tag = 0, sd_access_version = 0\<rparr>"

definition sd_valid :: "StateDescriptor \<Rightarrow> bool" where
  "sd_valid s \<longleftrightarrow> id_is_valid (sd_id s)"

definition equals_identity :: "StateDescriptor \<Rightarrow> StateDescriptor \<Rightarrow> bool" where
  "equals_identity s o' \<longleftrightarrow> sd_id s = sd_id o' \<and> sd_device s = sd_device o' \<and> sd_owner_tag s = sd_owner_tag o'"

definition matches_state :: "StateDescriptor \<Rightarrow> StateDescriptor \<Rightarrow> bool" where
  "matches_state s o' \<longleftrightarrow> equals_identity s o' \<and> sd_generation s = sd_generation o' \<and>
     sd_access_version s = sd_access_version o'"

record DecodeRequest =
  rq_id :: RequestId
  rq_initial_attempt :: AttemptId
  rq_tenant :: TenantId
  rq_model :: ModelId
  rq_revision :: ModelRevision
  rq_adapter :: AdapterId
  rq_sequence :: SequenceId
  rq_prompt_length :: u64
  rq_max_generation_length :: u64
  rq_pregenerated :: u64
  rq_priority :: u32
  rq_tenant_weight :: double
  rq_latency_class :: LatencyClass
  rq_deadline :: TimePoint
  rq_arrival :: TimePoint
  rq_per_token_target_ns :: Nanoseconds
  rq_estimated_kv_growth_per_token :: u64
  rq_device_constraint :: DeviceId
  rq_sampling_metadata :: string
  rq_state :: StateDescriptor

definition default_DecodeRequest :: DecodeRequest where
  "default_DecodeRequest = \<lparr>rq_id = 0, rq_initial_attempt = 0, rq_tenant = 0, rq_model = 0,
     rq_revision = 0, rq_adapter = 0, rq_sequence = 0, rq_prompt_length = 0,
     rq_max_generation_length = 0, rq_pregenerated = 0, rq_priority = 0,
     rq_tenant_weight = 0x3FF0000000000000, rq_latency_class = LC_Standard, rq_deadline = 0,
     rq_arrival = 0, rq_per_token_target_ns = 0, rq_estimated_kv_growth_per_token = 0,
     rq_device_constraint = 0, rq_sampling_metadata = [], rq_state = default_StateDescriptor\<rparr>"

definition valid_request_id :: "DecodeRequest \<Rightarrow> bool" where
  "valid_request_id r \<longleftrightarrow> id_is_valid (rq_id r) \<and> id_is_valid (rq_sequence r) \<and>
     id_is_valid (rq_tenant r) \<and> id_is_valid (rq_model r) \<and> id_is_valid (rq_revision r)"

definition validate :: "DecodeRequest \<Rightarrow> unit result" where
  "validate r =
    (if \<not> valid_request_id r
       then failed EC_InvalidArgument ''request/sequence/tenant/model/revision id invalid''
     else if rq_max_generation_length r = 0
       then failed EC_InvalidArgument ''maximum generation length must be > 0''
     else if rq_pregenerated r > rq_max_generation_length r
       then failed EC_InvalidArgument ''pregenerated exceeds maximum generation length''
     else if \<not> f64_less 0 (rq_tenant_weight r)
       then failed EC_InvalidArgument ''tenant weight must be positive''
     else Inr ())"

section \<open>Compatibility keys, devices, workers\<close>

record CompatibilityKey =
  ck_model :: ModelId
  ck_revision :: ModelRevision
  ck_adapter :: AdapterId
  ck_backend :: BackendKind
  ck_device :: DeviceId
  ck_dtype :: DType
  ck_tensor_layout :: u32
  ck_kv_representation :: u32
  ck_sequence_requirements :: u32
  ck_operator_policy :: u32

definition default_CompatibilityKey :: CompatibilityKey where
  "default_CompatibilityKey = \<lparr>ck_model = 0, ck_revision = 0, ck_adapter = 0, ck_backend = BK_CPU,
     ck_device = 0, ck_dtype = DT_F32, ck_tensor_layout = 0, ck_kv_representation = 0,
     ck_sequence_requirements = 0, ck_operator_policy = 0\<rparr>"

definition ck_valid :: "CompatibilityKey \<Rightarrow> bool" where
  "ck_valid k \<longleftrightarrow> id_is_valid (ck_model k) \<and> id_is_valid (ck_device k)"

record DeviceDescriptor =
  dd_id :: DeviceId
  dd_backend :: BackendKind
  dd_name :: string
  dd_compute_capability_major :: u32
  dd_compute_capability_minor :: u32
  dd_memory_bytes :: u64
  dd_supported_dtypes :: u32
  dd_max_groups_concurrent :: u32

definition default_DeviceDescriptor :: DeviceDescriptor where
  "default_DeviceDescriptor = \<lparr>dd_id = 0, dd_backend = BK_CPU, dd_name = [],
     dd_compute_capability_major = 0, dd_compute_capability_minor = 0, dd_memory_bytes = 0,
     dd_supported_dtypes = 0, dd_max_groups_concurrent = 0\<rparr>"

record WorkerDescriptor =
  wd_id :: WorkerId
  wd_boot_id :: WorkerBootId
  wd_device :: DeviceDescriptor
  wd_health :: WorkerHealth
  wd_advertised_capacity :: u64
  wd_active_reservations :: u64
  wd_supported_models :: "CompatibilityKey list"
  wd_generation :: u64

definition wd_valid :: "WorkerDescriptor \<Rightarrow> bool" where
  "wd_valid w \<longleftrightarrow> id_is_valid (wd_id w) \<and> id_is_valid (wd_boot_id w)"

section \<open>Groups and reservations\<close>

record GroupLimits =
  gl_max_sequences :: u32
  gl_max_work_units :: u64
  gl_max_kv_growth_bytes :: u64
  gl_memory_headroom_bytes :: u64
  gl_max_tenant_share :: u32
  gl_max_latency_class :: LatencyClass
  gl_max_deadline_pressure :: u32

definition default_GroupLimits :: GroupLimits where
  "default_GroupLimits = \<lparr>gl_max_sequences = 64, gl_max_work_units = 0, gl_max_kv_growth_bytes = 0,
     gl_memory_headroom_bytes = 0, gl_max_tenant_share = 0, gl_max_latency_class = LC_Bulk,
     gl_max_deadline_pressure = 0\<rparr>"

record DecodeGroup =
  dg_id :: DecodeGroupId
  dg_key :: CompatibilityKey
  dg_members :: "SequenceId list"
  dg_created_at :: TimePoint
  dg_estimated_work :: u64
  dg_estimated_kv_growth :: u64

record Reservation =
  rv_id :: ReservationId
  rv_kind :: ReservationKind
  rv_sequence :: SequenceId
  rv_group :: DecodeGroupId
  rv_device :: DeviceId
  rv_bytes :: u64
  rv_released :: bool
  rv_valid :: bool
  rv_made_at :: TimePoint

section \<open>Executor protocol\<close>

record MemberOutcome =
  mo_sequence :: SequenceId
  mo_kind :: MemberOutcomeKind
  mo_attempt :: AttemptId
  mo_generation :: DecodeGeneration
  mo_generated :: u64
  mo_token_identifier :: u64
  mo_terminal :: bool
  mo_error_code :: ErrorCode
  mo_error_message :: string
  mo_retryable :: bool
  mo_started_at :: TimePoint
  mo_finished_at :: TimePoint
  mo_active_ns :: Nanoseconds
  mo_kv_bytes_delta :: u64
  mo_kv_bytes_after :: u64

definition default_MemberOutcome :: MemberOutcome where
  "default_MemberOutcome = \<lparr>mo_sequence = 0, mo_kind = MK_StepSuccessContinue, mo_attempt = 0,
     mo_generation = 0, mo_generated = 0, mo_token_identifier = 0, mo_terminal = False,
     mo_error_code = EC_Ok, mo_error_message = [], mo_retryable = False, mo_started_at = 0,
     mo_finished_at = 0, mo_active_ns = 0, mo_kv_bytes_delta = 0, mo_kv_bytes_after = 0\<rparr>"

definition mo_succeeded :: "MemberOutcome \<Rightarrow> bool" where
  "mo_succeeded o' \<longleftrightarrow> mo_kind o' = MK_StepSuccessContinue \<or> mo_kind o' = MK_StepSuccessTerminal"

record DecodeMemberSpec =
  ms_sequence :: SequenceId
  ms_attempt :: AttemptId
  ms_generation :: DecodeGeneration
  ms_state :: StateDescriptor
  ms_current_length :: u64
  ms_generated_tokens :: u64
  ms_remaining_budget :: u64
  ms_payload :: bytes

record DecodeExecutionRequest =
  er_dispatch_id :: DispatchId
  er_epoch :: CoordinatorEpoch
  er_worker :: WorkerId
  er_worker_boot :: WorkerBootId
  er_key :: CompatibilityKey
  er_device :: DeviceDescriptor
  er_reservation_id :: u64
  er_members :: "DecodeMemberSpec list"
  er_group_payload :: bytes
  er_deadline_hint_ns :: Nanoseconds

record DecodeExecutionResult =
  xr_dispatch_id :: DispatchId
  xr_epoch :: CoordinatorEpoch
  xr_worker :: WorkerId
  xr_worker_boot :: WorkerBootId
  xr_outcomes :: "MemberOutcome list"
  xr_group_active_ns :: Nanoseconds
  xr_group_error :: ErrorCode
  xr_group_error_message :: string
  xr_group_retryable :: bool

record PreparedMember =
  pm_sequence :: SequenceId
  pm_state :: StateId
  pm_attempt :: AttemptId
  pm_generation :: DecodeGeneration
  pm_dispatch :: DispatchId
  pm_epoch :: CoordinatorEpoch
  pm_worker :: WorkerId
  pm_worker_boot :: WorkerBootId
  pm_proposal :: ProposalId
  pm_pre_state_digest :: u64
  pm_post_state_digest :: u64
  pm_delta_digest :: u64
  pm_outcome :: MemberOutcome
  pm_committed_position_before :: u64
  pm_committed_position_after :: u64
  pm_active_ns :: Nanoseconds

definition is_commit_eligible :: "PreparedMember \<Rightarrow> bool" where
  "is_commit_eligible pm \<longleftrightarrow> mo_succeeded (pm_outcome pm)"

record PreparedDecode =
  pd_dispatch_id :: DispatchId
  pd_epoch :: CoordinatorEpoch
  pd_worker :: WorkerId
  pd_worker_boot :: WorkerBootId
  pd_members :: "PreparedMember list"
  pd_group_active_ns :: Nanoseconds
  pd_group_error :: ErrorCode
  pd_group_error_message :: string

record CommitGrant =
  cg_grant_id :: GrantId
  cg_proposal :: ProposalId
  cg_epoch :: CoordinatorEpoch
  cg_worker :: WorkerId
  cg_worker_boot :: WorkerBootId
  cg_sequence :: SequenceId
  cg_state :: StateId
  cg_attempt :: AttemptId
  cg_generation :: DecodeGeneration
  cg_dispatch :: DispatchId
  cg_committed_position :: u64
  cg_pre_state_digest :: u64
  cg_post_state_digest :: u64
  cg_delta_digest :: u64
  cg_outcome_kind :: MemberOutcomeKind
  cg_terminal :: bool
  cg_token_identifier :: u32
  cg_active_ns :: Nanoseconds

record MemberReceipt =
  mr_receipt_id :: ReceiptId
  mr_grant_id :: GrantId
  mr_proposal :: ProposalId
  mr_epoch :: CoordinatorEpoch
  mr_worker :: WorkerId
  mr_worker_boot :: WorkerBootId
  mr_sequence :: SequenceId
  mr_state :: StateId
  mr_attempt :: AttemptId
  mr_generation :: DecodeGeneration
  mr_dispatch :: DispatchId
  mr_committed_position_before :: u64
  mr_committed_position_after :: u64
  mr_pre_state_digest :: u64
  mr_post_state_digest :: u64
  mr_delta_digest :: u64
  mr_outcome_kind :: MemberOutcomeKind
  mr_terminal :: bool
  mr_token_identifier :: u32
  mr_active_ns :: Nanoseconds
  mr_committed_at :: TimePoint

record AcceptedGeneration =
  ag_idempotency_key :: u64
  ag_epoch :: CoordinatorEpoch
  ag_worker :: WorkerId
  ag_worker_boot :: WorkerBootId
  ag_sequence :: SequenceId
  ag_state :: StateId
  ag_attempt :: AttemptId
  ag_generation :: DecodeGeneration
  ag_dispatch :: DispatchId
  ag_committed_position_before :: u64
  ag_committed_position_after :: u64
  ag_pre_state_digest :: u64
  ag_post_state_digest :: u64
  ag_delta_digest :: u64
  ag_terminal :: bool
  ag_promotion_observed :: bool

definition default_AcceptedGeneration :: AcceptedGeneration where
  "default_AcceptedGeneration = \<lparr>ag_idempotency_key = 0, ag_epoch = 0, ag_worker = 0,
     ag_worker_boot = 0, ag_sequence = 0, ag_state = 0, ag_attempt = 0, ag_generation = 0,
     ag_dispatch = 0, ag_committed_position_before = 0, ag_committed_position_after = 0,
     ag_pre_state_digest = 0, ag_post_state_digest = 0, ag_delta_digest = 0, ag_terminal = False,
     ag_promotion_observed = False\<rparr>"

record ReceiptDecode =
  rd_dispatch_id :: DispatchId
  rd_epoch :: CoordinatorEpoch
  rd_worker :: WorkerId
  rd_worker_boot :: WorkerBootId
  rd_receipts :: "MemberReceipt list"
  rd_group_error :: ErrorCode
  rd_group_error_message :: string

record AbortPrepared =
  ab_proposal :: ProposalId
  ab_sequence :: SequenceId
  ab_state :: StateId
  ab_attempt :: AttemptId
  ab_generation :: DecodeGeneration
  ab_dispatch :: DispatchId
  ab_epoch :: CoordinatorEpoch
  ab_worker :: WorkerId
  ab_worker_boot :: WorkerBootId

end
