(* ===== verification/Core.thy ===== *)
theory Core
  imports Records
begin

text \<open>
  \<^verbatim>\<open>src/core.cpp\<close>: the canonical text and hash of a compatibility key, the explainable
  compatibility decision, device capabilities, and the diagnostic printers. The scheduler files
  candidates into groups by the canonical text of their key, so its injectivity is what makes a
  group homogeneous.
\<close>

section \<open>Decimal printing\<close>

text \<open>\<^verbatim>\<open>while (v > 0) { tmp[t++] = '0' + v % 10; v /= 10; }\<close>: the digits, least significant first.\<close>

definition digit_char :: "u64 \<Rightarrow> char" where
  "digit_char d = char_of (48 + unat d)"

function u64_digits :: "u64 \<Rightarrow> string" where
  "u64_digits v = (if v > 0 then digit_char (v mod 10) # u64_digits (v div 10) else [])"
  by pat_completeness auto
termination
proof (relation "measure unat")
  fix v :: u64
  assume "v > 0"
  then have "0 < unat v" by (simp add: word_less_nat_alt)
  then show "(v div 10, v) \<in> measure unat" by (simp add: unat_div)
qed simp

declare u64_digits.simps [simp del]

definition append_u64 :: "string \<Rightarrow> u64 \<Rightarrow> string" where
  "append_u64 s v = (if v = 0 then s @ ''0'' else s @ rev (u64_digits v))"

text \<open>\<^verbatim>\<open>std::to_string\<close> and stream output of unsigned and signed 64-bit integers.\<close>

definition dec_u64 :: "u64 \<Rightarrow> string" where
  "dec_u64 v = append_u64 [] v"

definition dec_s64 :: "s64 \<Rightarrow> string" where
  "dec_s64 v = (if sint v < 0 then ''-'' @ dec_u64 (- v) else dec_u64 v)"

fun digits_value :: "string \<Rightarrow> nat" where
  "digits_value [] = 0"
| "digits_value (c # cs) = of_char c - 48 + 10 * digits_value cs"

lemma of_char_digit_char: "d < 10 \<Longrightarrow> of_char (digit_char d) = 48 + unat d"
  by (simp add: digit_char_def word_less_nat_alt)

lemma digits_value_u64_digits: "digits_value (u64_digits v) = unat v"
proof (induction v rule: u64_digits.induct)
  case (1 v)
  show ?case
  proof (cases "v > 0")
    case True
    have "of_char (digit_char (v mod 10)) = 48 + unat (v mod 10)"
      by (rule of_char_digit_char) (simp add: word_mod_less_divisor)
    then have "digits_value (u64_digits v) = unat (v mod 10) + 10 * unat (v div 10)"
      using 1 True by (simp add: u64_digits.simps [of v])
    then show ?thesis by (simp add: unat_mod unat_div)
  next
    case False
    then have "v = 0" by (simp add: word_gt_0)
    then show ?thesis by (simp add: u64_digits.simps [of 0])
  qed
qed

lemma digit_char_not_colon: "d < 10 \<Longrightarrow> digit_char d \<noteq> CHR '':''"
proof
  assume "d < 10" and "digit_char d = CHR '':''"
  then have "(48 :: nat) + unat d = of_char CHR '':''"
    using of_char_digit_char by metis
  then show False using \<open>d < 10\<close> by (simp add: word_less_nat_alt)
qed

lemma colon_notin_digits: "CHR '':'' \<notin> set (u64_digits v)"
proof (induction v rule: u64_digits.induct)
  case (1 v)
  then show ?case
    using digit_char_not_colon [of "v mod 10"]
    by (subst u64_digits.simps) (auto simp: word_mod_less_divisor)
qed

lemma colon_notin_dec [simp]: "CHR '':'' \<notin> set (dec_u64 v)"
  by (simp add: dec_u64_def append_u64_def colon_notin_digits)

lemma dec_u64_inj: "dec_u64 v = dec_u64 w \<longleftrightarrow> v = w"
proof
  have val: "digits_value (rev (dec_u64 v)) = unat v" for v
    by (simp add: dec_u64_def append_u64_def digits_value_u64_digits)
  assume "dec_u64 v = dec_u64 w"
  then have "unat v = unat w" by (metis val)
  then show "v = w" by (simp add: word_unat_eq_iff)
qed simp

lemma append_u64_eq: "append_u64 s v = s @ dec_u64 v"
  by (simp add: append_u64_def dec_u64_def)

section \<open>Compatibility keys\<close>

definition key_to_string :: "CompatibilityKey \<Rightarrow> string" where
  "key_to_string k =
    (let s = append_u64 ''model='' (ck_model k);
         s = append_u64 (s @ '':rev='') (ck_revision k);
         s = append_u64 (s @ '':adapter='') (ck_adapter k);
         s = s @ '':backend='' @ backend_to_string (ck_backend k);
         s = append_u64 (s @ '':device='') (ck_device k);
         s = s @ '':dtype='' @ dtype_to_string (ck_dtype k);
         s = append_u64 (s @ '':layout='') (ucast (ck_tensor_layout k));
         s = append_u64 (s @ '':kv='') (ucast (ck_kv_representation k));
         s = append_u64 (s @ '':seq='') (ucast (ck_sequence_requirements k));
         s = append_u64 (s @ '':op='') (ucast (ck_operator_policy k))
     in s)"

definition key_less :: "CompatibilityKey \<Rightarrow> CompatibilityKey \<Rightarrow> bool" where
  "key_less a b \<longleftrightarrow>
     lexordp (\<lambda>c d. (of_char c :: nat) < of_char d) (key_to_string a) (key_to_string b)"

text \<open>FNV-1a over the canonical bytes.\<close>

definition fnv_offset :: u64 where
  "fnv_offset = 1469598103934665603"

definition fnv_prime :: u64 where
  "fnv_prime = 1099511628211"

definition key_hash :: "CompatibilityKey \<Rightarrow> u64" where
  "key_hash k = fold (\<lambda>c h. (h XOR of_nat (of_char c)) * fnv_prime) (key_to_string k) fnv_offset"

record CompatibilityDecision =
  cd_compatible :: bool
  cd_key :: CompatibilityKey
  cd_reason :: string
  cd_matched :: "string list"
  cd_mismatched :: "string list"

definition key_components :: "CompatibilityKey \<Rightarrow> CompatibilityKey \<Rightarrow> (bool \<times> string) list" where
  "key_components a b =
    [(ck_model a = ck_model b, ''model''),
     (ck_revision a = ck_revision b, ''revision''),
     (ck_adapter a = ck_adapter b, ''adapter''),
     (ck_backend a = ck_backend b, ''backend''),
     (ck_device a = ck_device b, ''device''),
     (ck_dtype a = ck_dtype b, ''dtype''),
     (ck_tensor_layout a = ck_tensor_layout b, ''tensor_layout''),
     (ck_kv_representation a = ck_kv_representation b, ''kv_representation''),
     (ck_sequence_requirements a = ck_sequence_requirements b, ''sequence_requirements''),
     (ck_operator_policy a = ck_operator_policy b, ''operator_policy'')]"

fun comma_join :: "string list \<Rightarrow> string" where
  "comma_join [] = []"
| "comma_join [s] = s"
| "comma_join (s # ss) = s @ '', '' @ comma_join ss"

definition evaluate_compatibility ::
  "CompatibilityKey \<Rightarrow> CompatibilityKey \<Rightarrow> CompatibilityDecision" where
  "evaluate_compatibility a b =
    (let matched = map snd (filter fst (key_components a b));
         mismatched = map snd (filter (\<lambda>p. \<not> fst p) (key_components a b))
     in \<lparr>cd_compatible = (mismatched = []), cd_key = a,
         cd_reason = (if mismatched = [] then ''identical compatibility key''
                      else ''differ in: '' @ comma_join mismatched),
         cd_matched = matched, cd_mismatched = mismatched\<rparr>)"

definition decision_to_string :: "CompatibilityDecision \<Rightarrow> string" where
  "decision_to_string d =
    (if cd_compatible d then ''compatible'' else ''incompatible'') @ '': '' @ cd_reason d"

text \<open>Values of an enumeration that are not enumerators print alike, so the canonical text separates
  keys only among those whose backend and dtype are enumerators.\<close>

definition key_wf :: "CompatibilityKey \<Rightarrow> bool" where
  "key_wf k \<longleftrightarrow> (\<forall>v. ck_backend k \<noteq> BK_raw v) \<and> (\<forall>v. ck_dtype k \<noteq> DT_raw v)"

lemma colon_split:
  assumes "CHR '':'' \<notin> set xs" and "CHR '':'' \<notin> set ys"
  shows "xs @ CHR '':'' # zs = ys @ CHR '':'' # ws \<longleftrightarrow> xs = ys \<and> zs = ws"
proof
  assume eq: "xs @ CHR '':'' # zs = ys @ CHR '':'' # ws"
  have tw: "takeWhile (\<lambda>c. c \<noteq> CHR '':'') (us @ CHR '':'' # vs) = us" if "CHR '':'' \<notin> set us" for us vs
    using that by (induction us) auto
  have "xs = ys" using tw [OF assms(1), of zs] tw [OF assms(2), of ws] eq by simp
  with eq show "xs = ys \<and> zs = ws" by simp
qed simp

lemma backend_text: "CHR '':'' \<notin> set (backend_to_string b)"
  by (cases b) auto

lemma dtype_text: "CHR '':'' \<notin> set (dtype_to_string d)"
  by (cases d) auto

lemma backend_text_inj:
  "(\<forall>v. a \<noteq> BK_raw v) \<Longrightarrow> (\<forall>v. b \<noteq> BK_raw v) \<Longrightarrow> backend_to_string a = backend_to_string b \<longleftrightarrow> a = b"
  by (cases a; cases b) auto

lemma dtype_text_inj:
  "(\<forall>v. a \<noteq> DT_raw v) \<Longrightarrow> (\<forall>v. b \<noteq> DT_raw v) \<Longrightarrow> dtype_to_string a = dtype_to_string b \<longleftrightarrow> a = b"
  by (cases a; cases b) auto

lemma u32_u64_inj: "(ucast (a :: u32) :: u64) = ucast b \<longleftrightarrow> a = b"
proof
  assume "(ucast a :: u64) = ucast b"
  then have "(ucast (ucast a :: u64) :: u32) = ucast (ucast b :: u64)" by simp
  then show "a = b" by (simp add: ucast_up_ucast_id is_up)
qed simp

lemma key_to_string_eq:
  "key_to_string k =
     ''model='' @ dec_u64 (ck_model k) @ '':rev='' @ dec_u64 (ck_revision k) @
     '':adapter='' @ dec_u64 (ck_adapter k) @ '':backend='' @ backend_to_string (ck_backend k) @
     '':device='' @ dec_u64 (ck_device k) @ '':dtype='' @ dtype_to_string (ck_dtype k) @
     '':layout='' @ dec_u64 (ucast (ck_tensor_layout k)) @
     '':kv='' @ dec_u64 (ucast (ck_kv_representation k)) @
     '':seq='' @ dec_u64 (ucast (ck_sequence_requirements k)) @
     '':op='' @ dec_u64 (ucast (ck_operator_policy k))"
  by (simp add: key_to_string_def append_u64_eq Let_def)

lemma key_to_string_inj:
  assumes "key_wf a" and "key_wf b"
  shows "key_to_string a = key_to_string b \<longleftrightarrow> a = b"
proof
  assume "key_to_string a = key_to_string b"
  then show "a = b"
    using assms backend_text_inj [of "ck_backend a" "ck_backend b"] dtype_text_inj [of "ck_dtype a" "ck_dtype b"]
    unfolding key_to_string_eq key_wf_def
    by (simp add: colon_split backend_text dtype_text dec_u64_inj u32_u64_inj CompatibilityKey.equality)
qed simp

lemma evaluate_compatibility_iff:
  "cd_compatible (evaluate_compatibility a b) \<longleftrightarrow> a = b"
  by (auto simp: evaluate_compatibility_def key_components_def Let_def CompatibilityKey.equality)

lemma mismatched_iff:
  "cd_mismatched (evaluate_compatibility a b) = [] \<longleftrightarrow> a = b"
  by (auto simp: evaluate_compatibility_def key_components_def Let_def CompatibilityKey.equality)

text \<open>C35: Compatibility is identity of the canonical text. Two keys of named backends and dtypes are compatible exactly when
  they print alike, exactly when they are equal; the decision names every one of the ten components once, as
  matched or as mismatched, and compatible keys hash alike.\<close>

theorem compatible_iff_same_text:
  assumes "key_wf a" and "key_wf b"
  shows "(cd_compatible (evaluate_compatibility a b) \<longleftrightarrow> key_to_string a = key_to_string b) \<and>
    (cd_compatible (evaluate_compatibility a b) \<longleftrightarrow> a = b) \<and>
    (cd_compatible (evaluate_compatibility a b) \<longrightarrow> key_hash a = key_hash b) \<and>
    (cd_compatible (evaluate_compatibility a b) \<longleftrightarrow> cd_mismatched (evaluate_compatibility a b) = []) \<and>
    length (cd_matched (evaluate_compatibility a b)) + length (cd_mismatched (evaluate_compatibility a b)) = 10"
proof -
  have "length (filter P xs) + length (filter (\<lambda>x. \<not> P x) xs) = length xs" for P and xs :: "(bool \<times> string) list"
    by (rule sum_length_filter_compl)
  from this [of fst "key_components a b"] show ?thesis
    using key_to_string_inj [OF assms] by (simp add: evaluate_compatibility_iff mismatched_iff)
      (simp add: evaluate_compatibility_def Let_def, simp add: key_components_def)
qed

theorem compatible_iff_same_text_witness:
  "\<not> cd_compatible (evaluate_compatibility default_CompatibilityKey (default_CompatibilityKey\<lparr>ck_device := 1\<rparr>)) \<and>
   key_to_string default_CompatibilityKey \<noteq> key_to_string (default_CompatibilityKey\<lparr>ck_device := 1\<rparr>)"
proof -
  have "key_wf default_CompatibilityKey" "key_wf (default_CompatibilityKey\<lparr>ck_device := 1\<rparr>)"
    by (simp_all add: key_wf_def default_CompatibilityKey_def)
  moreover have "default_CompatibilityKey \<noteq> default_CompatibilityKey\<lparr>ck_device := 1\<rparr>"
    by (simp add: default_CompatibilityKey_def)
  ultimately show ?thesis using compatible_iff_same_text by blast
qed

section \<open>Devices and printers\<close>

definition supports_dtype :: "DeviceDescriptor \<Rightarrow> DType \<Rightarrow> bool" where
  "supports_dtype d t \<longleftrightarrow> dd_supported_dtypes d AND push_bit (unat (DType_val t)) 1 \<noteq> 0"

definition device_to_string :: "DeviceDescriptor \<Rightarrow> string" where
  "device_to_string d =
     ''device[backend='' @ backend_to_string (dd_backend d) @ '',name='' @ dd_name d @
     '',cc='' @ dec_u64 (ucast (dd_compute_capability_major d)) @ ''.'' @
     dec_u64 (ucast (dd_compute_capability_minor d)) @ '',mem='' @ dec_u64 (dd_memory_bytes d) @
     '',id='' @ dec_u64 (dd_id d) @ '']''"

definition worker_to_string :: "WorkerDescriptor \<Rightarrow> string" where
  "worker_to_string w =
     ''worker[id='' @ dec_u64 (wd_id w) @ '',boot='' @ dec_u64 (wd_boot_id w) @
     '',health='' @ health_to_string (wd_health w) @ '',cap='' @ dec_u64 (wd_advertised_capacity w) @
     '',resv='' @ dec_u64 (wd_active_reservations w) @ '',dev='' @ dec_u64 (dd_id (wd_device w)) @ '']''"

definition group_to_string :: "DecodeGroup \<Rightarrow> string" where
  "group_to_string g =
     ''group[id='' @ dec_u64 (dg_id g) @ '',members='' @ dec_u64 (of_nat (length (dg_members g))) @
     '',key='' @ key_to_string (dg_key g) @ '',work='' @ dec_u64 (dg_estimated_work g) @
     '',kv='' @ dec_u64 (dg_estimated_kv_growth g) @ '']''"

end
