(* ===== verification/FabricState.thy ===== *)
theory FabricState
  imports Core
begin

text \<open>
  The state of \<^verbatim>\<open>DecodeFabric::Impl\<close> (\<^verbatim>\<open>src/fabric.cpp\<close>, \<^verbatim>\<open>include/decodefabric/fabric.hpp\<close>,
  \<^verbatim>\<open>observability.hpp\<close>) and the private helpers every operation is built from.

  Each public method runs under the fabric's exclusive lock from its first to its last statement, so
  an operation is a function from the state to its result and the new state. A reference \<^verbatim>\<open>Seq& s\<close> into
  \<^verbatim>\<open>seqs\<close> is its key: a write through it is \<open>upd_seq\<close>, a read is \<open>seq_at\<close> of the current state, so that
  writes made by the helpers in between are seen. The clock is the function \<open>fb_clock\<close> of the number
  of readings taken so far: any clock, monotonic or not, is one.
\<close>

section \<open>Configuration\<close>

record FabricLimits =
  fl_max_active_sequences :: u32
  fl_max_outstanding_tokens :: u64
  fl_tokens_per_cycle_budget :: u64
  fl_memory_headroom_bytes :: u64
  fl_max_ready_candidates :: u32

definition default_FabricLimits :: FabricLimits where
  "default_FabricLimits = \<lparr>fl_max_active_sequences = 0, fl_max_outstanding_tokens = 0,
     fl_tokens_per_cycle_budget = 0, fl_memory_headroom_bytes = 0, fl_max_ready_candidates = 0\<rparr>"

record RetryPolicy =
  rp_max_attempts :: u32
  rp_base_backoff_ns :: Nanoseconds
  rp_preserve_committed_tokens :: bool

definition default_RetryPolicy :: RetryPolicy where
  "default_RetryPolicy = \<lparr>rp_max_attempts = 3, rp_base_backoff_ns = 1000000,
     rp_preserve_committed_tokens = True\<rparr>"

record Config =
  cf_group_limits :: GroupLimits
  cf_limits :: FabricLimits
  cf_retry_policy :: RetryPolicy
  cf_event_capacity :: u32
  cf_require_known_model :: bool

definition default_Config :: Config where
  "default_Config = \<lparr>cf_group_limits = default_GroupLimits, cf_limits = default_FabricLimits,
     cf_retry_policy = default_RetryPolicy, cf_event_capacity = 16384,
     cf_require_known_model = True\<rparr>"

section \<open>Observability data\<close>

record Event =
  ev_id :: EventId
  ev_time :: TimePoint
  ev_kind :: EventKind
  ev_request :: RequestId
  ev_sequence :: SequenceId
  ev_detail :: string

record Stats =
  st_requests_admitted :: u64
  st_requests_rejected :: u64
  st_sequences_started :: u64
  st_sequences_completed :: u64
  st_sequences_cancelled :: u64
  st_sequences_expired :: u64
  st_sequences_failed :: u64
  st_decode_steps :: u64
  st_generated_tokens :: u64
  st_dispatch_issued :: u64
  st_total_active_ns :: Nanoseconds
  st_total_queue_ns :: Nanoseconds
  st_total_inter_token_ns :: Nanoseconds
  st_cancellations :: u64
  st_retries :: u64
  st_stale_rejections :: u64
  st_deadline_misses :: u64
  st_group_formed :: u64
  st_group_grew :: u64
  st_group_shrank :: u64
  st_backpressure_events :: u64
  st_stale_by_reason :: "u64 list"
  st_tokens_per_second :: double
  st_avg_inter_token_ns :: double
  st_avg_queue_delay_ns :: double
  st_max_active_sequences :: u32
  st_tokens_per_cycle_budget :: u64

definition default_Stats :: Stats where
  "default_Stats = \<lparr>st_requests_admitted = 0, st_requests_rejected = 0, st_sequences_started = 0,
     st_sequences_completed = 0, st_sequences_cancelled = 0, st_sequences_expired = 0,
     st_sequences_failed = 0, st_decode_steps = 0, st_generated_tokens = 0, st_dispatch_issued = 0,
     st_total_active_ns = 0, st_total_queue_ns = 0, st_total_inter_token_ns = 0,
     st_cancellations = 0, st_retries = 0, st_stale_rejections = 0, st_deadline_misses = 0,
     st_group_formed = 0, st_group_grew = 0, st_group_shrank = 0, st_backpressure_events = 0,
     st_stale_by_reason = [], st_tokens_per_second = 0, st_avg_inter_token_ns = 0,
     st_avg_queue_delay_ns = 0, st_max_active_sequences = 0, st_tokens_per_cycle_budget = 0\<rparr>"

section \<open>The fabric's state\<close>

record Seq =
  s_req :: DecodeRequest
  s_machine :: SequenceState
  s_current_attempt :: AttemptId
  s_budget :: TokenBudget
  s_current_length :: u64
  s_generated :: u64
  s_committed :: u64
  s_generation :: u64
  s_in_flight_dispatch :: DispatchId
  s_in_flight_worker :: WorkerId
  s_in_flight_worker_boot :: WorkerBootId
  s_in_flight_epoch :: CoordinatorEpoch
  s_in_flight_generation :: u64
  s_has_inflight :: bool
  s_committed_state_digest :: u64
  s_state_digest_established :: bool
  s_in_flight_grant :: GrantId
  s_has_inflight_grant :: bool
  s_in_flight_proposal :: ProposalId
  s_in_flight_position :: u64
  s_accepted :: AcceptedGeneration
  s_has_accepted :: bool
  s_reservation :: ReservationId
  s_state :: StateDescriptor
  s_attempt_count :: u32
  s_arrival :: TimePoint
  s_ready_at :: TimePoint
  s_last_token_at :: TimePoint
  s_last_grouped_at :: TimePoint
  s_last_dispatched_at :: TimePoint
  s_ever_ran :: bool

definition default_Seq :: Seq where
  "default_Seq = \<lparr>s_req = default_DecodeRequest, s_machine = ST_Admitted, s_current_attempt = 0,
     s_budget = new_budget 0, s_current_length = 0, s_generated = 0, s_committed = 0,
     s_generation = 1, s_in_flight_dispatch = 0, s_in_flight_worker = 0, s_in_flight_worker_boot = 0,
     s_in_flight_epoch = 0, s_in_flight_generation = 0, s_has_inflight = False,
     s_committed_state_digest = 0, s_state_digest_established = False, s_in_flight_grant = 0,
     s_has_inflight_grant = False, s_in_flight_proposal = 0, s_in_flight_position = 0,
     s_accepted = default_AcceptedGeneration, s_has_accepted = False, s_reservation = 0,
     s_state = default_StateDescriptor, s_attempt_count = 1, s_arrival = 0, s_ready_at = 0,
     s_last_token_at = 0, s_last_grouped_at = 0, s_last_dispatched_at = 0, s_ever_ran = False\<rparr>"

record DevMem =
  dm_capacity :: u64
  dm_reserved :: u64
  dm_headroom_floor :: u64

definition default_DevMem :: DevMem where
  "default_DevMem = \<lparr>dm_capacity = 0, dm_reserved = 0, dm_headroom_floor = 0\<rparr>"

definition default_MemberReceipt :: MemberReceipt where
  "default_MemberReceipt = \<lparr>mr_receipt_id = 0, mr_grant_id = 0, mr_proposal = 0, mr_epoch = 0,
     mr_worker = 0, mr_worker_boot = 0, mr_sequence = 0, mr_state = 0, mr_attempt = 0,
     mr_generation = 0, mr_dispatch = 0, mr_committed_position_before = 0,
     mr_committed_position_after = 0, mr_pre_state_digest = 0, mr_post_state_digest = 0,
     mr_delta_digest = 0, mr_outcome_kind = MK_StepSuccessContinue, mr_terminal = False,
     mr_token_identifier = 0, mr_active_ns = 0, mr_committed_at = 0\<rparr>"

text \<open>Grant status: 0 pending, 1 consumed, 2 aborted.\<close>

record GrantRecord =
  gr_grant :: CommitGrant
  gr_status :: int
  gr_receipt :: MemberReceipt
  gr_has_receipt :: bool

record Fabric =
  fb_cfg :: Config
  fb_clock :: "nat \<Rightarrow> TimePoint"
  fb_ticks :: nat
  fb_epoch :: CoordinatorEpoch
  fb_seqs :: "(SequenceId, Seq) umap"
  fb_req_to_seq :: "(RequestId, SequenceId) umap"
  fb_workers :: "(WorkerId, WorkerDescriptor) umap"
  fb_dev_mem :: "(DeviceId, DevMem) umap"
  fb_tenant_tokens :: "(TenantId, u64) umap"
  fb_tenant_active :: "(TenantId, u32) umap"
  fb_terminal_records :: "(SequenceId, SequenceState) umap"
  fb_reservations :: "(ReservationId, Reservation) umap"
  fb_events :: "Event list"
  fb_event_head :: nat
  fb_stats :: Stats
  fb_worker_current_boot :: "(WorkerId, WorkerBootId) umap"
  fb_next_seq :: u64
  fb_next_group :: u64
  fb_next_dispatch :: u64
  fb_next_reservation :: u64
  fb_next_grant :: u64
  fb_grant_ledger :: "(GrantId, GrantRecord) umap"
  fb_receipt_count :: u64

definition new_Fabric :: "Config \<Rightarrow> (nat \<Rightarrow> TimePoint) \<Rightarrow> Fabric" where
  "new_Fabric config clock =
     \<lparr>fb_cfg = config, fb_clock = clock, fb_ticks = 0, fb_epoch = 1, fb_seqs = [],
      fb_req_to_seq = [], fb_workers = [], fb_dev_mem = [], fb_tenant_tokens = [],
      fb_tenant_active = [], fb_terminal_records = [], fb_reservations = [], fb_events = [],
      fb_event_head = 0,
      fb_stats = default_Stats\<lparr>
        st_max_active_sequences := fl_max_active_sequences (cf_limits config),
        st_tokens_per_cycle_budget := fl_tokens_per_cycle_budget (cf_limits config)\<rparr>,
      fb_worker_current_boot = [], fb_next_seq = 1, fb_next_group = 1, fb_next_dispatch = 1,
      fb_next_reservation = 1, fb_next_grant = 1, fb_grant_ledger = [], fb_receipt_count = 0\<rparr>"

section \<open>Access through references\<close>

definition seq_at :: "Fabric \<Rightarrow> SequenceId \<Rightarrow> Seq" where
  "seq_at f k = umap_get default_Seq (fb_seqs f) k"

definition upd_seq :: "SequenceId \<Rightarrow> (Seq \<Rightarrow> Seq) \<Rightarrow> Fabric \<Rightarrow> Fabric" where
  "upd_seq k g f = f\<lparr>fb_seqs := umap_upd k g (fb_seqs f)\<rparr>"

definition go :: "SequenceId \<Rightarrow> SequenceState \<Rightarrow> Fabric \<Rightarrow> Fabric" where
  "go k st f = upd_seq k (\<lambda>s. s\<lparr>s_machine := sm_go st (s_machine s)\<rparr>) f"

definition bump :: "(Stats \<Rightarrow> Stats) \<Rightarrow> Fabric \<Rightarrow> Fabric" where
  "bump g f = f\<lparr>fb_stats := g (fb_stats f)\<rparr>"

definition set_terminal :: "SequenceId \<Rightarrow> SequenceState \<Rightarrow> Fabric \<Rightarrow> Fabric" where
  "set_terminal k st f = f\<lparr>fb_terminal_records := umap_set k st (fb_terminal_records f)\<rparr>"

text \<open>\<^verbatim>\<open>tenant_active[t] = std::max(0u, tenant_active[t] - 1u)\<close>, at 32-bit width.\<close>

definition drop_tenant :: "TenantId \<Rightarrow> Fabric \<Rightarrow> Fabric" where
  "drop_tenant t f = f\<lparr>fb_tenant_active :=
     umap_set t (max 0 (umap_get 0 (fb_tenant_active f) t - 1)) (fb_tenant_active f)\<rparr>"

section \<open>Helpers of the implementation\<close>

definition tick :: "Fabric \<Rightarrow> TimePoint \<times> Fabric" where
  "tick f = (fb_clock f (fb_ticks f), f\<lparr>fb_ticks := Suc (fb_ticks f)\<rparr>)"

text \<open>With capacity \<open>0\<close> the C++ indexes an empty vector and divides by zero; the theorems about the
  history assume a positive capacity.\<close>

definition record_event :: "EventKind \<Rightarrow> RequestId \<Rightarrow> SequenceId \<Rightarrow> string \<Rightarrow> Fabric \<Rightarrow> Fabric" where
  "record_event k r s detail f0 =
    (case tick f0 of (t, f) \<Rightarrow>
      let e = \<lparr>ev_id = of_nat (length (fb_events f) + 1), ev_time = t, ev_kind = k, ev_request = r,
               ev_sequence = s, ev_detail = detail\<rparr>;
          cap = unat (cf_event_capacity (fb_cfg f))
      in if length (fb_events f) < cap then f\<lparr>fb_events := fb_events f @ [e]\<rparr>
         else f\<lparr>fb_events := (fb_events f)[fb_event_head f := e],
                fb_event_head := (fb_event_head f + 1) mod cap\<rparr>)"

definition free_device :: "Reservation \<Rightarrow> Fabric \<Rightarrow> Fabric" where
  "free_device r f =
    (case umap_find (fb_dev_mem f) (rv_device r) of
       None \<Rightarrow> f
     | Some dm \<Rightarrow> f\<lparr>fb_dev_mem := umap_set (rv_device r)
         (dm\<lparr>dm_reserved := (if dm_reserved dm \<ge> rv_bytes r then dm_reserved dm - rv_bytes r else 0)\<rparr>)
         (fb_dev_mem f)\<rparr>)"

definition release_reservation :: "SequenceId \<Rightarrow> Fabric \<Rightarrow> bool \<times> Fabric" where
  "release_reservation seq f =
    (case umap_find (fb_seqs f) seq of
       None \<Rightarrow> (False, f)
     | Some s \<Rightarrow>
        if id_is_null (s_reservation s) then (False, f)
        else let f1 =
          (case umap_find (fb_reservations f) (s_reservation s) of
             None \<Rightarrow> f
           | Some r \<Rightarrow>
              if rv_released r then f
              else let f2 = free_device r f;
                       f3 = f2\<lparr>fb_reservations := umap_erase (s_reservation s) (fb_reservations f2)\<rparr>
                   in record_event EV_ReservationReleased (rq_id (s_req s)) seq ''released'' f3)
          in (True, upd_seq seq (\<lambda>s. s\<lparr>s_reservation := id_null\<rparr>) f1))"

definition releasing :: "SequenceId \<Rightarrow> Fabric \<Rightarrow> Fabric" where
  "releasing seq f = snd (release_reservation seq f)"

definition is_candidate_state :: "SequenceState \<Rightarrow> bool" where
  "is_candidate_state st \<longleftrightarrow>
     st = ST_Waiting \<or> st = ST_Ready \<or> st = ST_ReadyForNextToken \<or> st = ST_Yielded"

definition model_keys :: "DecodeRequest \<Rightarrow> WorkerDescriptor \<Rightarrow> CompatibilityKey list" where
  "model_keys req w =
    (if id_is_valid (rq_device_constraint req) \<and> dd_id (wd_device w) \<noteq> rq_device_constraint req then []
     else filter (\<lambda>mk. ck_model mk = rq_model req \<and> ck_revision mk = rq_revision req \<and>
                        ck_adapter mk = rq_adapter req) (wd_supported_models w))"

definition key_for_model :: "Fabric \<Rightarrow> DecodeRequest \<Rightarrow> CompatibilityKey" where
  "key_for_model f req =
    (case concat (map (model_keys req) (map snd (fb_workers f))) of
       [] \<Rightarrow> default_CompatibilityKey
     | mk # _ \<Rightarrow> mk)"

definition update_tenant_tokens :: "TenantId \<Rightarrow> u64 \<Rightarrow> Fabric \<Rightarrow> Fabric" where
  "update_tenant_tokens t by f =
    (case umap_find (fb_tenant_tokens f) t of
       None \<Rightarrow> f\<lparr>fb_tenant_tokens := umap_set t by (fb_tenant_tokens f)\<rparr>
     | Some v \<Rightarrow> f\<lparr>fb_tenant_tokens :=
         umap_set t (if v > - 1 - by then - 1 else v + by) (fb_tenant_tokens f)\<rparr>)"

definition refresh_derived_stats :: "Fabric \<Rightarrow> Fabric" where
  "refresh_derived_stats f = bump (\<lambda>st.
     let st1 = (if st_decode_steps st > 0 \<and> ns_less 0 (st_total_active_ns st)
                then st\<lparr>st_tokens_per_second :=
                  f64_div (f64_of_int (uint (st_generated_tokens st)))
                    (f64_div (f64_of_int (sint (st_total_active_ns st))) 0x41CDCD6500000000)\<rparr>
                else st)
     in if st_decode_steps st1 > 0
        then st1\<lparr>
          st_avg_queue_delay_ns := f64_div (f64_of_int (sint (st_total_queue_ns st1)))
            (f64_of_int (uint (st_decode_steps st1))),
          st_avg_inter_token_ns := f64_div (f64_of_int (sint (st_total_inter_token_ns st1)))
            (f64_of_int (uint (st_decode_steps st1)))\<rparr>
        else st1) f"

definition build_key :: "DecodeRequest \<Rightarrow> Fabric \<Rightarrow> DecodeRequest \<times> Fabric" where
  "build_key req f =
    (let (req1, f1) =
       (if rq_arrival req = 0 then (case tick f of (t, f') \<Rightarrow> (req\<lparr>rq_arrival := t\<rparr>, f')) else (req, f));
         k = key_for_model f1 req1
     in (req1\<lparr>rq_model := ck_model k, rq_revision := ck_revision k, rq_adapter := ck_adapter k\<rparr>, f1))"

text \<open>The sequence is made dispatchable again after a stale or conflicting prepared result.\<close>

definition stale_reconcile :: "SequenceId \<Rightarrow> Fabric \<Rightarrow> Fabric" where
  "stale_reconcile k f =
    (let f1 = upd_seq k (\<lambda>s. s\<lparr>s_has_inflight := False, s_in_flight_dispatch := id_null,
           s_has_inflight_grant := False, s_in_flight_grant := id_null,
           s_in_flight_proposal := id_null\<rparr>) f;
         f2 = releasing k f1;
         st = s_machine (seq_at f2 k)
     in if \<not> is_terminal st \<and> (st = ST_Dispatched \<or> st = ST_Running)
        then (case tick (go k ST_ReadyForNextToken (go k ST_StepCompleted f2)) of
                (t, f3) \<Rightarrow> upd_seq k (\<lambda>s. s\<lparr>s_ready_at := t\<rparr>) f3)
        else f2)"

text \<open>\<open>k\<close> is the sequence the caller holds the reference to; the outcome names its own sequence,
  which the code uses for reservations, terminal records and events.\<close>

definition apply_noncommit_outcome :: "SequenceId \<Rightarrow> MemberOutcome \<Rightarrow> Fabric \<Rightarrow> Fabric" where
  "apply_noncommit_outcome k mo f =
    (case mo_kind mo of
       MK_Yielded \<Rightarrow>
         record_event EV_Yielding (rq_id (s_req (seq_at f k))) (mo_sequence mo) ''yielded''
           (upd_seq k (\<lambda>s. s\<lparr>s_ready_at := mo_finished_at mo\<rparr>)
             (go k ST_Yielded (go k ST_StepCompleted f)))
     | MK_RetryableFailure \<Rightarrow>
         let f1 = releasing (mo_sequence mo) f;
             f2 = (if s_machine (seq_at f1 k) = ST_Dispatched then go k ST_RetryableFailure f1 else f1);
             rid = rq_id (s_req (seq_at f2 k));
             policy = cf_retry_policy (fb_cfg f2)
         in if s_attempt_count (seq_at f2 k) \<ge> rp_max_attempts policy
            then record_event EV_RetryFailed rid (mo_sequence mo) ''retry_budget_exhausted''
                   (bump (\<lambda>st. st\<lparr>st_sequences_failed := st_sequences_failed st + 1\<rparr>)
                     (set_terminal (mo_sequence mo) ST_NonRetryableFailure
                       (go k ST_NonRetryableFailure f2)))
            else let f3 = (if rp_preserve_committed_tokens policy then f2
                           else upd_seq k (\<lambda>s. s\<lparr>s_generated := s_committed s,
                                  s_budget := budget_replay (unat (s_committed s))
                                    (new_budget (rq_max_generation_length (s_req s)))\<rparr>) f2);
                     f4 = upd_seq k (\<lambda>s. s\<lparr>s_current_attempt := fb_next_dispatch f3 + 1000000,
                            s_attempt_count := s_attempt_count s + 1\<rparr>) f3
                 in (case tick (go k ST_Ready (go k ST_Retrying f4)) of (t, f5) \<Rightarrow>
                      record_event EV_RetryStarted rid (mo_sequence mo) ''new_attempt''
                        (bump (\<lambda>st. st\<lparr>st_retries := st_retries st + 1\<rparr>)
                          (upd_seq k (\<lambda>s. s\<lparr>s_ready_at := t\<rparr>) f5)))
     | MK_NonRetryableFailure \<Rightarrow>
         let f1 = (if s_machine (seq_at f k) = ST_Dispatched then go k ST_NonRetryableFailure f else f)
         in record_event EV_RequestRejected (rq_id (s_req (seq_at f1 k))) (mo_sequence mo) (mo_error_message mo)
              (set_terminal (mo_sequence mo) ST_NonRetryableFailure
                (bump (\<lambda>st. st\<lparr>st_sequences_failed := st_sequences_failed st + 1\<rparr>)
                  (drop_tenant (rq_tenant (s_req (seq_at f1 k))) f1)))
     | MK_Cancelled \<Rightarrow>
         if is_terminal (s_machine (seq_at f k)) then f
         else record_event EV_SequenceCancelled (rq_id (s_req (seq_at f k))) (mo_sequence mo) ''backend_cancel''
                (set_terminal (mo_sequence mo) ST_Cancelled
                  (bump (\<lambda>st. st\<lparr>st_cancellations := st_cancellations st + 1,
                                 st_sequences_cancelled := st_sequences_cancelled st + 1\<rparr>)
                    (drop_tenant (rq_tenant (s_req (seq_at f k))) (go k ST_Cancelled f))))
     | MK_Expired \<Rightarrow>
         if is_terminal (s_machine (seq_at f k)) then f
         else record_event EV_SequenceExpired (rq_id (s_req (seq_at f k))) (mo_sequence mo) ''backend_expired''
                (set_terminal (mo_sequence mo) ST_DeadlineExpired
                  (bump (\<lambda>st. st\<lparr>st_deadline_misses := st_deadline_misses st + 1,
                                 st_sequences_expired := st_sequences_expired st + 1\<rparr>)
                    (drop_tenant (rq_tenant (s_req (seq_at f k))) (go k ST_DeadlineExpired f))))
     | _ \<Rightarrow> f)"

end
