(* ===== verification/Operations.thy ===== *)
theory Operations
  imports FabricState
begin

text \<open>
  Admission, cancellation, retry, worker registry, epoch and boundary processing: the operations of
  \<^verbatim>\<open>src/fabric.cpp\<close> from \<open>submit\<close> to \<open>advance\<close>. A loop over \<^verbatim>\<open>seqs\<close> whose body mutates the fabric is a
  fold over the keys, in the iteration order of the map.
\<close>

section \<open>Admission\<close>

record AdmissionDecision =
  ad_admitted :: bool
  ad_request :: RequestId
  ad_sequence :: SequenceId
  ad_reason :: string
  ad_facts :: "string list"

definition rejected :: "RequestId \<Rightarrow> string \<Rightarrow> string \<Rightarrow> AdmissionDecision" where
  "rejected r reason note =
     \<lparr>ad_admitted = False, ad_request = r, ad_sequence = id_null, ad_reason = reason, ad_facts = [note]\<rparr>"

text \<open>\<^verbatim>\<open>active\<close> and \<^verbatim>\<open>outstanding\<close> of the backpressure check.\<close>

definition active_and_outstanding :: "Fabric \<Rightarrow> u32 \<times> u64" where
  "active_and_outstanding f =
     fold (\<lambda>(k, s) (active, outstanding).
       if is_terminal (s_machine s) then (active, outstanding)
       else (active + 1, outstanding + budget_remaining (s_budget s))) (fb_seqs f) (0, 0)"

definition backpressure_reason :: "DecodeRequest \<Rightarrow> Fabric \<Rightarrow> string option" where
  "backpressure_reason req f =
    (let max_active = fl_max_active_sequences (cf_limits (fb_cfg f));
         share = gl_max_tenant_share (cf_group_limits (fb_cfg f))
     in if max_active > 0 \<and> fst (active_and_outstanding f) \<ge> max_active
          then Some ''active_sequence_limit_reached''
        else if share > 0 \<and> (case umap_find (fb_tenant_active f) (rq_tenant req) of
                                None \<Rightarrow> False | Some n \<Rightarrow> n \<ge> share)
          then Some ''tenant_limit_exceeded''
        else None)"

definition admitted_seq :: "DecodeRequest \<Rightarrow> Seq" where
  "admitted_seq req =
    (let s0 = default_Seq\<lparr>s_req := req,
           s_current_attempt := (if id_is_valid (rq_initial_attempt req) then rq_initial_attempt req else rq_id req),
           s_budget := new_budget (rq_max_generation_length req)\<rparr>;
         s1 = (if rq_pregenerated req > 0
               then s0\<lparr>s_budget := budget_advanced (rq_pregenerated req) (s_budget s0),
                       s_generated := rq_pregenerated req, s_committed := rq_pregenerated req\<rparr>
               else s0)
     in s1\<lparr>s_current_length := rq_prompt_length req + s_committed s1, s_state := rq_state req,
           s_arrival := rq_arrival req, s_ready_at := rq_arrival req,
           s_machine := sm_go ST_Ready (sm_go ST_Waiting ST_Admitted)\<rparr>)"

definition admit :: "SequenceId \<Rightarrow> DecodeRequest \<Rightarrow> Fabric \<Rightarrow> AdmissionDecision \<times> Fabric" where
  "admit id' req f =
    (let f1 = f\<lparr>fb_seqs := (if umap_find (fb_seqs f) id' = None
                              then umap_set id' (admitted_seq req) (fb_seqs f) else fb_seqs f),
                 fb_req_to_seq := umap_set (rq_id req) id' (fb_req_to_seq f)\<rparr>;
         f2 = bump (\<lambda>st. st\<lparr>st_requests_admitted := st_requests_admitted st + 1,
                            st_sequences_started := st_sequences_started st + 1\<rparr>) f1;
         f3 = f2\<lparr>fb_tenant_active := umap_set (rq_tenant req)
                (umap_get 0 (fb_tenant_active f2) (rq_tenant req) + 1) (fb_tenant_active f2)\<rparr>
     in (\<lparr>ad_admitted = True, ad_request = rq_id req, ad_sequence = id', ad_reason = ''admitted'',
          ad_facts = [''state=ready'']\<rparr>,
         record_event EV_RequestAdmitted (rq_id req) id' ''waiting'' f3))"

definition submit :: "DecodeRequest \<Rightarrow> Fabric \<Rightarrow> AdmissionDecision \<times> Fabric" where
  "submit in' f =
    (case validate in' of
       Inl e \<Rightarrow> (rejected (rq_id in') (err_message e) ''request_validation_failed'',
                  record_event EV_RequestRejected (rq_id in') id_null (err_message e) f)
     | Inr _ \<Rightarrow>
       (case build_key in' f of (req, f1) \<Rightarrow>
          if \<not> id_is_valid (rq_model req)
            then (rejected (rq_id in') ''unknown_model'' ''model_not_supported_by_any_worker'',
                  record_event EV_RequestRejected (rq_id req) id_null ''unknown_model'' f1)
          else case backpressure_reason req f1 of
              Some why \<Rightarrow> (rejected (rq_id in') why ''backpressure_applied'',
                             record_event EV_BackpressureApplied (rq_id req) id_null why f1)
            | None \<Rightarrow>
                if id_is_valid (rq_sequence req)
                then if umap_find (fb_seqs f1) (rq_sequence req) \<noteq> None
                     then (rejected (rq_id in') ''duplicate_sequence_id'' ''duplicate_sequence'',
                           record_event EV_RequestRejected (rq_id req) (rq_sequence req)
                             ''duplicate_sequence_id'' f1)
                     else admit (rq_sequence req) req f1
                else admit (fb_next_seq f1) req (f1\<lparr>fb_next_seq := fb_next_seq f1 + 1\<rparr>)))"

section \<open>Cancellation\<close>

record CancelResult =
  cn_cancelled :: bool
  cn_state :: SequenceState
  cn_reason :: string

text \<open>Leaving the active set: release, transition, tenant count, counters, terminal record. The last
  step of the callers is the event.\<close>

definition cancel_now :: "SequenceId \<Rightarrow> Fabric \<Rightarrow> Fabric" where
  "cancel_now k f =
    (let f1 = go k ST_Cancelled (releasing k f)
     in set_terminal k ST_Cancelled
          (bump (\<lambda>st. st\<lparr>st_cancellations := st_cancellations st + 1,
                         st_sequences_cancelled := st_sequences_cancelled st + 1\<rparr>)
            (drop_tenant (rq_tenant (s_req (seq_at f1 k))) f1)))"

definition expire_now :: "SequenceId \<Rightarrow> Fabric \<Rightarrow> Fabric" where
  "expire_now k f =
    (let f1 = go k ST_DeadlineExpired (releasing k f)
     in set_terminal k ST_DeadlineExpired
          (bump (\<lambda>st. st\<lparr>st_deadline_misses := st_deadline_misses st + 1,
                         st_sequences_expired := st_sequences_expired st + 1\<rparr>)
            (drop_tenant (rq_tenant (s_req (seq_at f1 k))) f1)))"

definition cancel :: "SequenceId \<Rightarrow> Fabric \<Rightarrow> CancelResult \<times> Fabric" where
  "cancel seq f =
    (case umap_find (fb_seqs f) seq of
       None \<Rightarrow> (\<lparr>cn_cancelled = False, cn_state = ST_Admitted, cn_reason = ''unknown_sequence''\<rparr>, f)
     | Some s \<Rightarrow>
        if is_terminal (s_machine s)
          then (\<lparr>cn_cancelled = False, cn_state = s_machine s, cn_reason = ''already_terminal''\<rparr>, f)
        else if s_machine s = ST_CancelRequested
          then (\<lparr>cn_cancelled = False, cn_state = s_machine s, cn_reason = ''already_cancelling''\<rparr>, f)
        else let f1 =
          (if s_machine s = ST_Dispatched \<or> s_machine s = ST_Running \<or> s_machine s = ST_Reserved \<or>
              s_machine s = ST_Grouped
           then go seq ST_CancelRequested f
           else record_event EV_SequenceCancelled (rq_id (s_req s)) seq ''cancelled'' (cancel_now seq f))
          in (\<lparr>cn_cancelled = True, cn_state = s_machine (seq_at f1 seq), cn_reason = ''cancel_requested''\<rparr>, f1))"

definition cancel_request :: "RequestId \<Rightarrow> Fabric \<Rightarrow> CancelResult \<times> Fabric" where
  "cancel_request req f =
    (case umap_find (fb_req_to_seq f) req of
       None \<Rightarrow> (\<lparr>cn_cancelled = False, cn_state = ST_Admitted, cn_reason = ''unknown_request''\<rparr>, f)
     | Some seq \<Rightarrow> cancel seq f)"

section \<open>Retry\<close>

record RetryResult =
  rt_retried :: bool
  rt_new_attempt :: AttemptId
  rt_state :: SequenceState
  rt_reason :: string

definition not_retried :: "string \<Rightarrow> RetryResult" where
  "not_retried reason =
     \<lparr>rt_retried = False, rt_new_attempt = id_null, rt_state = ST_Admitted, rt_reason = reason\<rparr>"

definition retry :: "SequenceId \<Rightarrow> Fabric \<Rightarrow> RetryResult \<times> Fabric" where
  "retry seq f =
    (case umap_find (fb_seqs f) seq of
       None \<Rightarrow> (not_retried ''unknown_sequence'', f)
     | Some s \<Rightarrow>
        if s_machine s = ST_RetryableFailure \<or> s_machine s = ST_Running \<or> s_machine s = ST_Dispatched
        then let policy = cf_retry_policy (fb_cfg f);
                 f1 = (if rp_preserve_committed_tokens policy then f
                       else upd_seq seq (\<lambda>s. s\<lparr>s_generated := s_committed s\<rparr>) f)
          in if s_attempt_count s \<ge> rp_max_attempts policy
             then (not_retried ''retry_budget_exhausted'',
                   record_event EV_RetryFailed (rq_id (s_req s)) seq ''retry_budget_exhausted''
                     (bump (\<lambda>st. st\<lparr>st_sequences_failed := st_sequences_failed st + 1\<rparr>)
                       (set_terminal seq ST_NonRetryableFailure (go seq ST_NonRetryableFailure f1))))
             else let attempt = fb_next_dispatch f1 + 1000000;
                      f2 = upd_seq seq (\<lambda>s. s\<lparr>s_current_attempt := attempt,
                             s_attempt_count := s_attempt_count s + 1\<rparr>) f1
                  in (case tick (go seq ST_Ready (go seq ST_Retrying f2)) of (t, f3) \<Rightarrow>
                       (\<lparr>rt_retried = True, rt_new_attempt = attempt, rt_state = ST_Ready,
                         rt_reason = ''retried''\<rparr>,
                        record_event EV_RetryStarted (rq_id (s_req s)) seq ''new_attempt''
                          (bump (\<lambda>st. st\<lparr>st_retries := st_retries st + 1\<rparr>)
                            (upd_seq seq (\<lambda>s. s\<lparr>s_ready_at := t\<rparr>) f3))))
        else (not_retried ''not_retryable_now'', f))"

section \<open>Workers and epoch\<close>

definition register_worker :: "WorkerDescriptor \<Rightarrow> Fabric \<Rightarrow> unit result \<times> Fabric" where
  "register_worker wd f =
    (if \<not> wd_valid wd then (failed EC_UnknownWorker ''invalid worker descriptor'', f)
     else let dev = dd_id (wd_device wd);
              dm = umap_get default_DevMem (fb_dev_mem f) dev;
              f1 = f\<lparr>fb_workers := umap_set (wd_id wd) wd (fb_workers f),
                     fb_worker_current_boot := umap_set (wd_id wd) (wd_boot_id wd) (fb_worker_current_boot f),
                     fb_dev_mem := umap_set dev
                       (dm\<lparr>dm_capacity := max (dm_capacity dm) (dd_memory_bytes (wd_device wd)),
                           dm_headroom_floor := fl_memory_headroom_bytes (cf_limits (fb_cfg f))\<rparr>)
                       (fb_dev_mem f)\<rparr>
          in (Inr (), record_event EV_WorkerUp id_null id_null
                (''worker '' @ dec_u64 (wd_id wd) @ '' boot '' @ dec_u64 (wd_boot_id wd)) f1))"

definition requeue_dead :: "WorkerId \<Rightarrow> SequenceId \<Rightarrow> Fabric \<Rightarrow> Fabric" where
  "requeue_dead id' k f =
    (let s = seq_at f k in
     if s_has_inflight s \<and> s_in_flight_worker s = id'
     then let f1 = upd_seq k (\<lambda>s. s\<lparr>s_has_inflight := False\<rparr>) (releasing k f);
              st = s_machine (seq_at f1 k)
          in if is_terminal st then f1
             else let f2 = (if st = ST_Dispatched \<or> st = ST_Running
                            then go k ST_Waiting (go k ST_StepCompleted f1) else f1)
                  in (case tick f2 of (t, f3) \<Rightarrow> upd_seq k (\<lambda>s. s\<lparr>s_ready_at := t\<rparr>) f3)
     else f)"

definition mark_worker_dead :: "WorkerId \<Rightarrow> Fabric \<Rightarrow> unit result \<times> Fabric" where
  "mark_worker_dead id' f =
    (let f1 = f\<lparr>fb_workers := umap_upd id'
           (\<lambda>w. w\<lparr>wd_health := WH_Failed, wd_active_reservations := 0\<rparr>) (fb_workers f)\<rparr>;
         f2 = record_event EV_WorkerDown id_null id_null (''worker '' @ dec_u64 id') f1
     in (Inr (), fold (requeue_dead id') (map fst (fb_seqs f2)) f2))"

definition roll_epoch :: "Fabric \<Rightarrow> CoordinatorEpoch result \<times> Fabric" where
  "roll_epoch f =
    (let f1 = f\<lparr>fb_epoch := fb_epoch f + 1\<rparr>;
         f2 = record_event EV_EpochRolled id_null id_null (''epoch '' @ dec_u64 (fb_epoch f1)) f1
     in (Inr (fb_epoch f2), f2))"

section \<open>Boundary processing\<close>

definition deadline_passed :: "TimePoint \<Rightarrow> Seq \<Rightarrow> bool" where
  "deadline_passed tn s \<longleftrightarrow> rq_deadline (s_req s) \<noteq> 0 \<and> \<not> ns_less tn (rq_deadline (s_req s))"

definition advance_seq :: "TimePoint \<Rightarrow> SequenceId \<Rightarrow> Fabric \<Rightarrow> Fabric" where
  "advance_seq tn k f =
    (let s = seq_at f k in
     if is_terminal (s_machine s) then f
     else if deadline_passed tn s
       then record_event EV_SequenceExpired (rq_id (s_req s)) k ''deadline'' (expire_now k f)
     else if s_machine s = ST_CancelRequested
       then record_event EV_SequenceCancelled (rq_id (s_req s)) k ''cancelled'' (cancel_now k f)
     else f)"

definition advance :: "TimePoint \<Rightarrow> Fabric \<Rightarrow> unit result \<times> Fabric" where
  "advance tn f = (Inr (), fold (advance_seq tn) (map fst (fb_seqs f)) f)"

end
