(* ===== verification/Scheduler.thy ===== *)
theory Scheduler
  imports Operations
begin

text \<open>
  \<^verbatim>\<open>DecodeFabric::schedule\<close> (\<^verbatim>\<open>src/fabric.cpp\<close>, \<^verbatim>\<open>include/decodefabric/schedule.hpp\<close>): the deadline pass,
  candidate collection with the scoring components, the stable sort, group formation under the
  limits, and for each group worker placement, memory reservation and dispatch. Scores are IEEE
  doubles computed with the operations in the order the expressions give.
\<close>

section \<open>Data\<close>

record SchedulingComponents =
  sc_readiness :: double
  sc_latency_pressure :: double
  sc_fairness_deficit :: double
  sc_priority :: double
  sc_age :: double
  sc_deadline_pressure :: double
  sc_batch_opportunity :: double
  sc_budget_ratio :: double
  sc_backpressure :: double
  sc_score :: double

record Candidate =
  cand_seq :: SequenceId
  cand_key :: CompatibilityKey
  cand_score :: double
  cand_comp :: SchedulingComponents

record Formed =
  fm_key :: CompatibilityKey
  fm_members :: "SequenceId list"

record Dispatch =
  di_id :: DispatchId
  di_group :: DecodeGroupId
  di_epoch :: CoordinatorEpoch
  di_worker :: WorkerId
  di_worker_boot :: WorkerBootId
  di_reservation :: ReservationId
  di_key :: CompatibilityKey
  di_device :: DeviceDescriptor
  di_issued_at :: TimePoint
  di_members :: "DecodeMemberSpec list"

definition dispatch_to_string :: "Dispatch \<Rightarrow> string" where
  "dispatch_to_string d =
     ''dispatch[id='' @ dec_u64 (di_id d) @ '',group='' @ dec_u64 (di_group d) @
     '',epoch='' @ dec_u64 (di_epoch d) @ '',worker='' @ dec_u64 (di_worker d) @
     '',boot='' @ dec_u64 (di_worker_boot d) @ '',members='' @
     dec_u64 (of_nat (length (di_members d))) @ '']''"

section \<open>Deadline pass and candidates\<close>

definition schedule_pass :: "TimePoint \<Rightarrow> SequenceId \<Rightarrow> Fabric \<Rightarrow> Fabric" where
  "schedule_pass tn k f =
    (if is_terminal (s_machine (seq_at f k)) then f
     else let f1 = (if deadline_passed tn (seq_at f k) then expire_now k f else f)
          in if s_machine (seq_at f1 k) = ST_CancelRequested then cancel_now k f1 else f1)"

definition score_components :: "TimePoint \<Rightarrow> Seq \<Rightarrow> SchedulingComponents" where
  "score_components tn s =
    (let since0 = tn - (if s_last_token_at s \<noteq> 0 then s_last_token_at s else s_ready_at s);
         since = (if ns_less since0 0 then 0 else since0);
         req = s_req s;
         priority = f64_div (f64_of_int (uint (rq_priority req))) 0x408F400000000000;
         age = f64_min 0x3FF0000000000000 (f64_div (f64_of_int (sint since)) 0x41CDCD6500000000);
         latency = (if ns_less 0 (rq_per_token_target_ns req)
           then f64_min 0x3FF0000000000000
             (f64_div (f64_of_int (sint since)) (f64_of_int (sint (rq_per_token_target_ns req))))
           else 0);
         deadline = (if rq_deadline req \<noteq> 0 \<and> rq_arrival req \<noteq> 0
           then let elapsed = f64_of_int (sint (tn - rq_arrival req));
                    total = f64_of_int (sint (rq_deadline req - rq_arrival req))
                in if f64_less 0 total then f64_min 0x3FF0000000000000 (f64_div elapsed total)
                   else 0x3FF0000000000000
           else 0);
         ratio = f64_div (f64_of_int (uint (budget_remaining (s_budget s))))
           (f64_of_int (uint (if tb_max (s_budget s) \<noteq> 0 then tb_max (s_budget s) else 1)));
         score = f64_add (f64_add (f64_add
           (f64_mul 0x3FD999999999999A latency) (f64_mul 0x3FD0000000000000 age))
           (f64_mul 0x3FC3333333333333 priority)) (f64_mul 0x3FC999999999999A deadline)
     in \<lparr>sc_readiness = 0x3FF0000000000000, sc_latency_pressure = latency, sc_fairness_deficit = 0,
         sc_priority = priority, sc_age = age, sc_deadline_pressure = deadline,
         sc_batch_opportunity = 0, sc_budget_ratio = ratio, sc_backpressure = 0, sc_score = score\<rparr>)"

definition collect_candidate :: "TimePoint \<Rightarrow> SequenceId \<Rightarrow> Candidate list \<times> Fabric \<Rightarrow> Candidate list \<times> Fabric" where
  "collect_candidate tn k = (\<lambda>(cands, f).
    let s = seq_at f k in
    if \<not> is_candidate_state (s_machine s) then (cands, f)
    else if budget_exhausted (s_budget s)
      then (cands, record_event EV_SequenceCompleted (rq_id (s_req s)) k ''budget_exhausted''
             (bump (\<lambda>st. st\<lparr>st_sequences_completed := st_sequences_completed st + 1\<rparr>)
               (set_terminal k ST_Completed (go k ST_Completed (releasing k f)))))
    else let key = key_for_model f (s_req s) in
      if \<not> ck_valid key then (cands, f)
      else let comp = score_components tn s
           in (cands @ [\<lparr>cand_seq = k, cand_key = key, cand_score = sc_score comp, cand_comp = comp\<rparr>], f))"

section \<open>Ordering\<close>

definition candidate_before :: "Candidate \<Rightarrow> Candidate \<Rightarrow> bool" where
  "candidate_before a b \<longleftrightarrow>
     (if \<not> f64_eq (cand_score a) (cand_score b) then f64_less (cand_score b) (cand_score a)
      else cand_seq a < cand_seq b)"

text \<open>\<^verbatim>\<open>std::stable_sort\<close> with the comparator \<open>prec\<close>: elements neither of which is before the other keep
  their order.\<close>

fun stable_insert :: "('a \<Rightarrow> 'a \<Rightarrow> bool) \<Rightarrow> 'a \<Rightarrow> 'a list \<Rightarrow> 'a list" where
  "stable_insert prec x [] = [x]"
| "stable_insert prec x (y # ys) =
    (if prec y x then y # stable_insert prec x ys else x # y # ys)"

definition stable_sort :: "('a \<Rightarrow> 'a \<Rightarrow> bool) \<Rightarrow> 'a list \<Rightarrow> 'a list" where
  "stable_sort prec xs = foldr (stable_insert prec) xs []"

section \<open>Group formation\<close>

type_synonym forming = "(string, nat) umap \<times> Formed list \<times> Fabric"

definition group_slot :: "Candidate \<Rightarrow> (string, nat) umap \<times> Formed list \<Rightarrow> nat \<times> (string, nat) umap \<times> Formed list" where
  "group_slot c = (\<lambda>(group_index, formed).
    (case umap_find group_index (key_to_string (cand_key c)) of
       Some gi \<Rightarrow> (gi, group_index, formed)
     | None \<Rightarrow> (length formed, umap_set (key_to_string (cand_key c)) (length formed) group_index,
                 formed @ [\<lparr>fm_key = cand_key c, fm_members = []\<rparr>])))"

definition tenant_share :: "Fabric \<Rightarrow> TenantId \<Rightarrow> SequenceId list \<Rightarrow> u32" where
  "tenant_share f t ms =
     fold (\<lambda>m n. if rq_tenant (s_req (seq_at f m)) = t then n + 1 else n) ms 0"

text \<open>Latency classes compare by their underlying integers, as scoped enumerations do.\<close>

instantiation LatencyClass :: preorder
begin

definition less_eq_LatencyClass :: "LatencyClass \<Rightarrow> LatencyClass \<Rightarrow> bool" where
  "a \<le> b \<longleftrightarrow> LatencyClass_val a \<le> LatencyClass_val b"

definition less_LatencyClass :: "LatencyClass \<Rightarrow> LatencyClass \<Rightarrow> bool" where
  "a < b \<longleftrightarrow> LatencyClass_val a < LatencyClass_val b"

instance
  by standard (auto simp: less_eq_LatencyClass_def less_LatencyClass_def)

end

definition group_accepts :: "Fabric \<Rightarrow> SequenceId \<Rightarrow> SequenceId list \<Rightarrow> bool" where
  "group_accepts f k members \<longleftrightarrow>
    (let lim = cf_group_limits (fb_cfg f); req = s_req (seq_at f k) in
     \<not> (members \<noteq> [] \<and> length members \<ge> unat (gl_max_sequences lim)) \<and>
     \<not> (gl_max_tenant_share lim > 0 \<and> tenant_share f (rq_tenant req) members \<ge> gl_max_tenant_share lim) \<and>
     \<not> (gl_max_latency_class lim \<noteq> LC_Bulk \<and>
        rq_latency_class req > gl_max_latency_class lim))"

definition form_candidate :: "TimePoint \<Rightarrow> Candidate \<Rightarrow> forming \<Rightarrow> forming" where
  "form_candidate tn c = (\<lambda>(group_index, formed, f).
    (case group_slot c (group_index, formed) of (gi, group_index', formed') \<Rightarrow>
       let g = formed' ! gi in
       if \<not> group_accepts f (cand_seq c) (fm_members g) then (group_index', formed', f)
       else (group_index', formed'[gi := g\<lparr>fm_members := fm_members g @ [cand_seq c]\<rparr>],
             upd_seq (cand_seq c) (\<lambda>s. s\<lparr>s_last_grouped_at := tn, s_ready_at := tn\<rparr>)
               (go (cand_seq c) ST_Grouped f))))"

section \<open>Placement, reservation, dispatch\<close>

definition worker_eligible :: "CompatibilityKey \<Rightarrow> WorkerDescriptor \<Rightarrow> bool" where
  "worker_eligible key w \<longleftrightarrow> wd_health w = WH_Healthy \<and>
     list_ex (\<lambda>mk. ck_model mk = ck_model key \<and> ck_revision mk = ck_revision key \<and>
                    ck_device mk = ck_device key) (wd_supported_models w) \<and>
     \<not> (wd_advertised_capacity w > 0 \<and> wd_active_reservations w \<ge> wd_advertised_capacity w)"

definition choose_worker :: "CompatibilityKey \<Rightarrow> Fabric \<Rightarrow> (WorkerId \<times> WorkerDescriptor) option" where
  "choose_worker key f =
     fold (\<lambda>(wid, w) chosen.
       if \<not> worker_eligible key w then chosen
       else (case chosen of
               None \<Rightarrow> Some (wid, w)
             | Some (_, c) \<Rightarrow> if wd_active_reservations w < wd_active_reservations c then Some (wid, w) else chosen))
       (fb_workers f) None"

definition revert_members :: "SequenceId list \<Rightarrow> Fabric \<Rightarrow> Fabric" where
  "revert_members ms f = fold (\<lambda>m. go m ST_Ready) ms f"

definition group_growth :: "Fabric \<Rightarrow> SequenceId list \<Rightarrow> u64" where
  "group_growth f ms =
     fold (\<lambda>m g. let e = sd_estimated_growth (s_state (seq_at f m)) in g + (if e \<noteq> 0 then e else 64)) ms 0"

text \<open>The memory check: \<open>None\<close> when the group is refused.\<close>

definition memory_refused :: "DevMem \<Rightarrow> u64 \<Rightarrow> bool" where
  "memory_refused dm growth \<longleftrightarrow>
    dm_capacity dm > 0 \<and>
    (let headroom = (if dm_capacity dm > dm_reserved dm then dm_capacity dm - dm_reserved dm else 0)
     in growth > headroom \<or> (dm_headroom_floor dm > 0 \<and> headroom < dm_headroom_floor dm))"

definition member_spec :: "SequenceId \<Rightarrow> Seq \<Rightarrow> DecodeMemberSpec" where
  "member_spec m s = \<lparr>ms_sequence = m, ms_attempt = s_current_attempt s, ms_generation = s_generation s,
     ms_state = s_state s, ms_current_length = s_current_length s, ms_generated_tokens = s_generated s,
     ms_remaining_budget = budget_remaining (s_budget s),
     ms_payload = map (\<lambda>c. of_nat (of_char c)) (rq_sampling_metadata (s_req s))\<rparr>"

definition dispatch_seq :: "Dispatch \<Rightarrow> TimePoint \<Rightarrow> Seq \<Rightarrow> Seq" where
  "dispatch_seq d tn s = s\<lparr>s_in_flight_dispatch := di_id d, s_in_flight_worker := di_worker d,
     s_in_flight_worker_boot := di_worker_boot d, s_in_flight_epoch := di_epoch d,
     s_in_flight_generation := s_generation s, s_has_inflight := True,
     s_reservation := di_reservation d, s_last_dispatched_at := tn,
     s_machine := sm_go ST_Dispatched (sm_go ST_Reserved (s_machine s)), s_ever_ran := True\<rparr>"

definition dispatch_member :: "TimePoint \<Rightarrow> SequenceId \<Rightarrow> Dispatch \<times> Fabric \<Rightarrow> Dispatch \<times> Fabric" where
  "dispatch_member tn m = (\<lambda>(d, f).
    (d\<lparr>di_members := di_members d @ [member_spec m (seq_at f m)]\<rparr>,
     record_event EV_SequenceGrouped (rq_id (s_req (seq_at f m))) m ''grouped''
       (upd_seq m (dispatch_seq d tn) f)))"

definition reserve_group :: "TimePoint \<Rightarrow> WorkerDescriptor \<Rightarrow> u64 \<Rightarrow> Fabric \<Rightarrow> Reservation \<times> Fabric" where
  "reserve_group tn w growth f =
    (let rid = fb_next_reservation f;
         res = \<lparr>rv_id = rid, rv_kind = RK_GroupReservation, rv_sequence = id_null,
                rv_group = fb_next_group f, rv_device = dd_id (wd_device w), rv_bytes = growth,
                rv_released = False, rv_valid = True, rv_made_at = tn\<rparr>;
         dm = umap_get default_DevMem (fb_dev_mem f) (dd_id (wd_device w));
         f1 = f\<lparr>fb_next_reservation := fb_next_reservation f + 1, fb_next_group := fb_next_group f + 1,
                fb_reservations := (if umap_find (fb_reservations f) rid = None
                  then umap_set rid res (fb_reservations f) else fb_reservations f),
                fb_dev_mem := umap_set (dd_id (wd_device w))
                  (dm\<lparr>dm_reserved := dm_reserved dm + growth\<rparr>) (fb_dev_mem f)\<rparr>
     in (res, record_event EV_ReservationGranted id_null id_null ''group_reservation'' f1))"

definition issue_dispatch :: "TimePoint \<Rightarrow> Formed \<Rightarrow> WorkerId \<Rightarrow> WorkerDescriptor \<Rightarrow> Reservation \<Rightarrow> Fabric \<Rightarrow>
    Dispatch \<times> Fabric" where
  "issue_dispatch tn g wid w res f =
    (let d0 = \<lparr>di_id = fb_next_dispatch f, di_group = rv_group res, di_epoch = fb_epoch f,
               di_worker = wd_id w, di_worker_boot = umap_get 0 (fb_worker_current_boot f) (wd_id w),
               di_reservation = rv_id res, di_key = fm_key g, di_device = wd_device w,
               di_issued_at = tn, di_members = []\<rparr>;
         f1 = f\<lparr>fb_next_dispatch := fb_next_dispatch f + 1,
                fb_worker_current_boot := (if umap_find (fb_worker_current_boot f) (wd_id w) = None
                  then umap_set (wd_id w) 0 (fb_worker_current_boot f) else fb_worker_current_boot f)\<rparr>
     in (case fold (dispatch_member tn) (fm_members g) (d0, f1) of (d, f2) \<Rightarrow>
          (d, record_event EV_DispatchIssued id_null id_null (dispatch_to_string d)
                (bump (\<lambda>st. st\<lparr>st_dispatch_issued := st_dispatch_issued st + 1\<rparr>)
                  (f2\<lparr>fb_workers := umap_upd wid
                     (\<lambda>w. w\<lparr>wd_active_reservations := wd_active_reservations w + 1\<rparr>) (fb_workers f2)\<rparr>)))))"

text \<open>One formed group. \<^verbatim>\<open>dev_mem[...]\<close> creates a zero entry for a device it has not seen.\<close>

definition place_group :: "TimePoint \<Rightarrow> Formed \<Rightarrow> Dispatch list \<times> Fabric \<Rightarrow> Dispatch list \<times> Fabric" where
  "place_group tn g = (\<lambda>(out, f).
    if fm_members g = [] then (out, f)
    else (case choose_worker (fm_key g) f of
       None \<Rightarrow> (out, revert_members (fm_members g) f)
     | Some (wid, w) \<Rightarrow>
        let growth = group_growth f (fm_members g);
            dev = dd_id (wd_device w);
            dm = umap_get default_DevMem (fb_dev_mem f) dev;
            f1 = f\<lparr>fb_dev_mem := (if umap_find (fb_dev_mem f) dev = None
                                     then umap_set dev default_DevMem (fb_dev_mem f) else fb_dev_mem f)\<rparr>
        in if memory_refused dm growth
           then (out, record_event EV_BackpressureApplied id_null id_null ''memory_headroom''
                  (revert_members (fm_members g) f1))
           else (case reserve_group tn w growth f1 of (res, f2) \<Rightarrow>
                  (case issue_dispatch tn g wid w res f2 of (d, f3) \<Rightarrow> (out @ [d], f3)))))"

section \<open>The scheduling cycle\<close>

definition candidates :: "TimePoint \<Rightarrow> Fabric \<Rightarrow> Candidate list \<times> Fabric" where
  "candidates tn f =
    (let f1 = fold (schedule_pass tn) (map fst (fb_seqs f)) f
     in fold (collect_candidate tn) (map fst (fb_seqs f1)) ([], f1))"

definition form_groups :: "TimePoint \<Rightarrow> Candidate list \<Rightarrow> Fabric \<Rightarrow> Formed list \<times> Fabric" where
  "form_groups tn cands f =
    (case fold (form_candidate tn) (stable_sort candidate_before cands) ([], [], f) of
       (_, formed, f') \<Rightarrow> (formed, f'))"

definition schedule :: "TimePoint \<Rightarrow> Fabric \<Rightarrow> Dispatch list \<times> Fabric" where
  "schedule tn f =
    (case candidates tn f of (cands, f1) \<Rightarrow>
     (case form_groups tn cands f1 of (formed, f2) \<Rightarrow>
      (case fold (place_group tn) formed ([], f2) of (out, f3) \<Rightarrow>
        (out, refresh_derived_stats f3))))"

end
