(* ===== verification/Transaction.thy ===== *)
theory Transaction
  imports Operations
begin

text \<open>
  The transactional executor-state protocol of \<^verbatim>\<open>src/fabric.cpp\<close>: \<open>apply_completion\<close>,
  \<open>authorize_prepared\<close>, \<open>apply_commit_receipt\<close>, \<open>abort_prepared\<close> and the read-only accessors. A
  prepared member is checked against the current authority and answered with a one-use grant or an
  abort; a receipt is checked against its grant, and only then is one generation finalised.
\<close>

section \<open>Acceptance records and receipts\<close>

definition acceptance_key_fields :: "CoordinatorEpoch \<Rightarrow> WorkerId \<Rightarrow> WorkerBootId \<Rightarrow> SequenceId \<Rightarrow> StateId \<Rightarrow>
    AttemptId \<Rightarrow> DecodeGeneration \<Rightarrow> DispatchId \<Rightarrow> u64 \<Rightarrow> u64" where
  "acceptance_key_fields ep wk wb seq st at gen disp pos =
     fold (\<lambda>v h. (h XOR v) * 1099511628211) [ep, wk, wb, seq, st, at, gen, disp, pos]
       1469598103934665603"

definition acceptance_key :: "MemberReceipt \<Rightarrow> u64" where
  "acceptance_key r = acceptance_key_fields (mr_epoch r) (mr_worker r) (mr_worker_boot r)
     (mr_sequence r) (mr_state r) (mr_attempt r) (mr_generation r) (mr_dispatch r)
     (mr_committed_position_before r)"

definition acceptance_key_prepared :: "PreparedMember \<Rightarrow> u64" where
  "acceptance_key_prepared pm = acceptance_key_fields (pm_epoch pm) (pm_worker pm) (pm_worker_boot pm)
     (pm_sequence pm) (pm_state pm) (pm_attempt pm) (pm_generation pm) (pm_dispatch pm)
     (pm_committed_position_before pm)"

definition make_accepted :: "MemberReceipt \<Rightarrow> bool \<Rightarrow> AcceptedGeneration" where
  "make_accepted r promotion_observed =
     \<lparr>ag_idempotency_key = acceptance_key r, ag_epoch = mr_epoch r, ag_worker = mr_worker r,
      ag_worker_boot = mr_worker_boot r, ag_sequence = mr_sequence r, ag_state = mr_state r,
      ag_attempt = mr_attempt r, ag_generation = mr_generation r, ag_dispatch = mr_dispatch r,
      ag_committed_position_before = mr_committed_position_before r,
      ag_committed_position_after = mr_committed_position_after r,
      ag_pre_state_digest = mr_pre_state_digest r, ag_post_state_digest = mr_post_state_digest r,
      ag_delta_digest = mr_delta_digest r, ag_terminal = mr_terminal r,
      ag_promotion_observed = promotion_observed\<rparr>"

definition receipts_match :: "MemberReceipt \<Rightarrow> MemberReceipt \<Rightarrow> bool" where
  "receipts_match a b \<longleftrightarrow>
     mr_receipt_id a = mr_receipt_id b \<and> mr_grant_id a = mr_grant_id b \<and>
     mr_proposal a = mr_proposal b \<and> mr_sequence a = mr_sequence b \<and>
     mr_state a = mr_state b \<and> mr_attempt a = mr_attempt b \<and>
     mr_generation a = mr_generation b \<and> mr_worker a = mr_worker b \<and>
     mr_worker_boot a = mr_worker_boot b \<and> mr_epoch a = mr_epoch b \<and>
     mr_dispatch a = mr_dispatch b \<and>
     mr_committed_position_before a = mr_committed_position_before b \<and>
     mr_committed_position_after a = mr_committed_position_after b \<and>
     mr_pre_state_digest a = mr_pre_state_digest b \<and>
     mr_post_state_digest a = mr_post_state_digest b"

section \<open>Bare completions\<close>

definition stale_bump :: "Fabric \<Rightarrow> Fabric" where
  "stale_bump = bump (\<lambda>st. st\<lparr>st_stale_rejections := st_stale_rejections st + 1\<rparr>)"

definition stale_event :: "RequestId \<Rightarrow> SequenceId \<Rightarrow> string \<Rightarrow> Fabric \<Rightarrow> Fabric" where
  "stale_event r k detail f = record_event EV_StaleRejected r k detail (stale_bump f)"

definition drop_inflight :: "SequenceId \<Rightarrow> Fabric \<Rightarrow> Fabric" where
  "drop_inflight k = upd_seq k (\<lambda>s. s\<lparr>s_has_inflight := False\<rparr>)"

definition close_inflight :: "SequenceId \<Rightarrow> Fabric \<Rightarrow> Fabric" where
  "close_inflight k = upd_seq k (\<lambda>s. s\<lparr>s_has_inflight := False, s_in_flight_dispatch := id_null\<rparr>)"

text \<open>The boot check shared by completions and prepared results: a worker whose current boot is known
  must report under it.\<close>

definition stale_boot :: "Fabric \<Rightarrow> WorkerId \<Rightarrow> WorkerBootId \<Rightarrow> bool" where
  "stale_boot f w boot \<longleftrightarrow>
     (case umap_find (fb_worker_current_boot f) w of None \<Rightarrow> False | Some b \<Rightarrow> b \<noteq> boot)"

definition complete_member :: "DecodeExecutionResult \<Rightarrow> MemberOutcome \<Rightarrow> Fabric \<Rightarrow> Fabric" where
  "complete_member result mo f =
    (let k = mo_sequence mo in
     case umap_find (fb_seqs f) k of
       None \<Rightarrow> stale_event id_null k ''unknown_sequence'' f
     | Some s \<Rightarrow>
        let rid = rq_id (s_req s); st = s_machine s in
        if xr_epoch result \<noteq> fb_epoch f
          then stale_event rid k ''stale_epoch'' (releasing k (drop_inflight k f))
        else if stale_boot f (xr_worker result) (xr_worker_boot result)
          then stale_event rid k ''stale_worker_boot'' f
        else if mo_attempt mo \<noteq> s_current_attempt s then stale_event rid k ''stale_attempt'' f
        else if mo_generation mo \<noteq> s_in_flight_generation s then stale_event rid k ''stale_generation'' f
        else if xr_dispatch_id result \<noteq> s_in_flight_dispatch s then stale_event rid k ''stale_dispatch'' f
        else if is_terminal st then stale_event rid k ''completion_for_terminal'' f
        else if st = ST_CancelRequested \<or> st = ST_Cancelled
          then stale_event rid k ''completion_for_cancelled'' (drop_inflight k (releasing k f))
        else if st = ST_DeadlineExpired
          then stale_event rid k ''completion_for_expired'' (drop_inflight k (releasing k f))
        else if mo_kind mo = MK_StaleAuthorityRejected then stale_event rid k ''backend_rejected'' f
        else if mo_kind mo = MK_StepSuccessContinue \<or> mo_kind mo = MK_StepSuccessTerminal
          then stale_event rid k ''completion_without_receipt'' f
        else apply_noncommit_outcome k mo (releasing k (close_inflight k f)))"

definition apply_completion :: "DecodeExecutionResult \<Rightarrow> Fabric \<Rightarrow> unit result \<times> Fabric" where
  "apply_completion result f =
     (Inr (), refresh_derived_stats (fold (complete_member result) (xr_outcomes result) f))"

section \<open>Authorisation\<close>

record GrantOrAbort =
  ga_has_grant :: bool
  ga_grant :: CommitGrant
  ga_has_abort :: bool
  ga_abort_spec :: AbortPrepared
  ga_proposal :: ProposalId
  ga_aborted :: bool
  ga_rejected :: bool
  ga_error_code :: ErrorCode
  ga_reason :: string
  ga_outcome :: MemberOutcome

record AuthorizeResult =
  ar_dispatch_id :: DispatchId
  ar_epoch :: CoordinatorEpoch
  ar_worker :: WorkerId
  ar_worker_boot :: WorkerBootId
  ar_members :: "GrantOrAbort list"

definition default_CommitGrant :: CommitGrant where
  "default_CommitGrant = \<lparr>cg_grant_id = 0, cg_proposal = 0, cg_epoch = 0, cg_worker = 0,
     cg_worker_boot = 0, cg_sequence = 0, cg_state = 0, cg_attempt = 0, cg_generation = 0,
     cg_dispatch = 0, cg_committed_position = 0, cg_pre_state_digest = 0, cg_post_state_digest = 0,
     cg_delta_digest = 0, cg_outcome_kind = MK_StepSuccessContinue, cg_terminal = False,
     cg_token_identifier = 0, cg_active_ns = 0\<rparr>"

definition member_abort :: "PreparedMember \<Rightarrow> AbortPrepared" where
  "member_abort pm = \<lparr>ab_proposal = pm_proposal pm, ab_sequence = pm_sequence pm,
     ab_state = pm_state pm, ab_attempt = pm_attempt pm, ab_generation = pm_generation pm,
     ab_dispatch = pm_dispatch pm, ab_epoch = pm_epoch pm, ab_worker = pm_worker pm,
     ab_worker_boot = pm_worker_boot pm\<rparr>"

definition initial_ga :: "PreparedMember \<Rightarrow> GrantOrAbort" where
  "initial_ga pm = \<lparr>ga_has_grant = False, ga_grant = default_CommitGrant, ga_has_abort = True,
     ga_abort_spec = member_abort pm, ga_proposal = pm_proposal pm, ga_aborted = False,
     ga_rejected = False, ga_error_code = EC_Ok, ga_reason = [], ga_outcome = default_MemberOutcome\<rparr>"

definition rejected_ga :: "PreparedMember \<Rightarrow> ErrorCode \<Rightarrow> string \<Rightarrow> GrantOrAbort" where
  "rejected_ga pm code reason = (initial_ga pm)\<lparr>ga_rejected := True, ga_aborted := True,
     ga_error_code := code, ga_reason := reason\<rparr>"

text \<open>The authority checks in the order of the code: the error code, the event detail and the reason
  of the first one that fails.\<close>

definition authority_fault :: "PreparedMember \<Rightarrow> Seq \<Rightarrow> Fabric \<Rightarrow> (ErrorCode \<times> string \<times> string) option" where
  "authority_fault pm s f =
    (let st = s_machine s in
     if pm_epoch pm \<noteq> fb_epoch f then Some (EC_StaleCoordinatorEpoch, ''stale_epoch'', ''stale_epoch'')
     else if stale_boot f (pm_worker pm) (pm_worker_boot pm)
       then Some (EC_StaleWorkerBoot, ''stale_worker_boot'', ''stale_worker_boot'')
     else if pm_attempt pm \<noteq> s_current_attempt s
       then Some (EC_StaleAttempt, ''stale_attempt'', ''stale_attempt'')
     else if pm_generation pm \<noteq> s_in_flight_generation s
       then Some (EC_StaleDecodeGeneration, ''stale_generation'', ''stale_generation'')
     else if pm_dispatch pm \<noteq> s_in_flight_dispatch s
       then Some (EC_DuplicateCompletion, ''stale_dispatch'', ''stale_dispatch'')
     else if is_terminal st
       then Some (EC_CompletionForTerminal, ''completion_for_terminal'', ''terminal'')
     else if st = ST_CancelRequested \<or> st = ST_Cancelled
       then Some (EC_CompletionForCancelled, ''completion_for_cancelled'', ''cancelled'')
     else if st = ST_DeadlineExpired
       then Some (EC_CompletionForExpired, ''completion_for_expired'', ''expired'')
     else None)"

text \<open>The transaction binding: conflicting pending grant, committed position, pre-state digest.\<close>

definition binding_fault :: "PreparedMember \<Rightarrow> Seq \<Rightarrow> (ErrorCode \<times> string) option" where
  "binding_fault pm s =
    (if s_has_inflight_grant s
       then Some (EC_TransactionConflict, ''conflicting pending grant for sequence+generation'')
     else if pm_committed_position_before pm \<noteq> s_generated s
       then Some (EC_InvalidArgument, ''committed-position mismatch'')
     else if s_state_digest_established s \<and> pm_pre_state_digest pm \<noteq> s_committed_state_digest s
       then Some (EC_StateDigestMismatch, ''pre-state digest does not match committed executor state'')
     else None)"

definition member_grant :: "GrantId \<Rightarrow> PreparedDecode \<Rightarrow> PreparedMember \<Rightarrow> CommitGrant" where
  "member_grant gid prepared pm =
     \<lparr>cg_grant_id = gid, cg_proposal = pm_proposal pm, cg_epoch = pd_epoch prepared,
      cg_worker = pd_worker prepared, cg_worker_boot = pd_worker_boot prepared,
      cg_sequence = pm_sequence pm, cg_state = pm_state pm, cg_attempt = pm_attempt pm,
      cg_generation = pm_generation pm, cg_dispatch = pm_dispatch pm,
      cg_committed_position = pm_committed_position_before pm,
      cg_pre_state_digest = pm_pre_state_digest pm, cg_post_state_digest = pm_post_state_digest pm,
      cg_delta_digest = pm_delta_digest pm, cg_outcome_kind = mo_kind (pm_outcome pm),
      cg_terminal = mo_terminal (pm_outcome pm),
      cg_token_identifier = ucast (mo_token_identifier (pm_outcome pm)), cg_active_ns = pm_active_ns pm\<rparr>"

definition issue_grant :: "PreparedDecode \<Rightarrow> PreparedMember \<Rightarrow> Fabric \<Rightarrow> GrantOrAbort \<times> Fabric" where
  "issue_grant prepared pm f =
    (let gid = fb_next_grant f;
         g = member_grant gid prepared pm;
         gr = \<lparr>gr_grant = g, gr_status = 0, gr_receipt = default_MemberReceipt, gr_has_receipt = False\<rparr>;
         f1 = f\<lparr>fb_next_grant := fb_next_grant f + 1, fb_grant_ledger := umap_set gid gr (fb_grant_ledger f)\<rparr>;
         f2 = upd_seq (pm_sequence pm) (\<lambda>s. s\<lparr>s_in_flight_grant := gid, s_has_inflight_grant := True,
                s_in_flight_proposal := pm_proposal pm,
                s_in_flight_position := pm_committed_position_before pm\<rparr>) f1
     in ((initial_ga pm)\<lparr>ga_has_grant := True, ga_grant := g, ga_has_abort := False\<rparr>,
         record_event EV_ReservationGranted (rq_id (s_req (seq_at f2 (pm_sequence pm)))) (pm_sequence pm)
           ''commit_grant_issued'' f2))"

definition authorize_member :: "PreparedDecode \<Rightarrow> PreparedMember \<Rightarrow> Fabric \<Rightarrow> GrantOrAbort \<times> Fabric" where
  "authorize_member prepared pm f =
    (let k = pm_sequence pm in
     case umap_find (fb_seqs f) k of
       None \<Rightarrow> (rejected_ga pm EC_UnknownSequence ''unknown_sequence'',
                 stale_event id_null k ''unknown_sequence'' f)
     | Some s \<Rightarrow>
        (case authority_fault pm s f of
           Some (code, detail, reason) \<Rightarrow>
             (rejected_ga pm code reason, stale_event (rq_id (s_req s)) k detail (stale_reconcile k f))
         | None \<Rightarrow>
            if \<not> is_commit_eligible pm
              then ((initial_ga pm)\<lparr>ga_aborted := True, ga_outcome := pm_outcome pm\<rparr>,
                    apply_noncommit_outcome k (pm_outcome pm) (releasing k (close_inflight k f)))
            else if s_has_accepted s \<and> ag_idempotency_key (s_accepted s) = acceptance_key_prepared pm
              then (rejected_ga pm EC_DuplicateCompletion ''already-accepted generation reconciled idempotently'',
                    record_event EV_StaleRejected (rq_id (s_req s)) k ''already_accepted_replay''
                      (stale_reconcile k f))
            else (case binding_fault pm s of
                Some (code, reason) \<Rightarrow> (rejected_ga pm code reason, stale_bump (stale_reconcile k f))
              | None \<Rightarrow> issue_grant prepared pm f)))"

definition authorize_loop :: "PreparedDecode \<Rightarrow> PreparedMember list \<Rightarrow> GrantOrAbort list \<times> Fabric \<Rightarrow>
    GrantOrAbort list \<times> Fabric" where
  "authorize_loop prepared = fold (\<lambda>pm (out, f).
     case authorize_member prepared pm f of (ga, f') \<Rightarrow> (out @ [ga], f'))"

definition authorize_prepared :: "PreparedDecode \<Rightarrow> Fabric \<Rightarrow> AuthorizeResult result \<times> Fabric" where
  "authorize_prepared prepared f =
    (case authorize_loop prepared (pd_members prepared) ([], f) of (members, f') \<Rightarrow>
      (Inr \<lparr>ar_dispatch_id = pd_dispatch_id prepared, ar_epoch = pd_epoch prepared,
           ar_worker = pd_worker prepared, ar_worker_boot = pd_worker_boot prepared,
           ar_members = members\<rparr>, f'))"

section \<open>Receipts\<close>

definition receipt_binds :: "MemberReceipt \<Rightarrow> CommitGrant \<Rightarrow> bool" where
  "receipt_binds rec g \<longleftrightarrow>
     mr_grant_id rec = cg_grant_id g \<and> mr_proposal rec = cg_proposal g \<and>
     mr_sequence rec = cg_sequence g \<and> mr_state rec = cg_state g \<and>
     mr_attempt rec = cg_attempt g \<and> mr_generation rec = cg_generation g \<and>
     mr_worker_boot rec = cg_worker_boot g \<and> mr_epoch rec = cg_epoch g \<and>
     mr_dispatch rec = cg_dispatch g \<and>
     mr_committed_position_before rec = cg_committed_position g \<and>
     mr_pre_state_digest rec = cg_pre_state_digest g \<and>
     mr_post_state_digest rec = cg_post_state_digest g"

definition advance_tokens :: "Seq \<Rightarrow> Seq" where
  "advance_tokens s = s\<lparr>s_budget := budget_advanced 1 (s_budget s), s_generated := s_generated s + 1,
     s_committed := s_committed s + 1, s_current_length := s_current_length s + 1,
     s_generation := s_generation s + 1\<rparr>"

definition chain_receipt :: "MemberReceipt \<Rightarrow> Seq \<Rightarrow> Seq" where
  "chain_receipt rec s = s\<lparr>s_committed_state_digest := mr_post_state_digest rec,
     s_state_digest_established := True, s_accepted := make_accepted rec True, s_has_accepted := True\<rparr>"

text \<open>Up to the receipt chain: counters, budget, time of the token, statistics.\<close>

definition finalize_step :: "MemberReceipt \<Rightarrow> Fabric \<Rightarrow> TimePoint \<times> Fabric" where
  "finalize_step rec f =
    (let k = mr_sequence rec;
         prev_token = s_last_token_at (seq_at f k);
         f1 = upd_seq k advance_tokens f
     in case (if mr_committed_at rec \<noteq> 0 then (mr_committed_at rec, f1) else tick f1) of (fin, f2) \<Rightarrow>
        let f3 = bump (\<lambda>st. st\<lparr>st_decode_steps := st_decode_steps st + 1,
                   st_generated_tokens := st_generated_tokens st + 1,
                   st_total_active_ns := st_total_active_ns st + mr_active_ns rec,
                   st_total_inter_token_ns := st_total_inter_token_ns st +
                     (if prev_token \<noteq> 0 then fin - prev_token else 0)\<rparr>)
                 (upd_seq k (\<lambda>s. s\<lparr>s_last_token_at := fin\<rparr>) f2);
            s = seq_at f3 k;
            f4 = update_tenant_tokens (rq_tenant (s_req s)) 1 f3;
            f5 = record_event EV_StepCompleted (rq_id (s_req s)) k (''token '' @ dec_u64 (s_generated s)) f4
        in (fin, upd_seq k (chain_receipt rec) f5))"

definition finalize_state :: "MemberReceipt \<Rightarrow> TimePoint \<Rightarrow> Fabric \<Rightarrow> Fabric" where
  "finalize_state rec fin f =
    (let k = mr_sequence rec; s = seq_at f k in
     if mr_terminal rec \<or> budget_exhausted (s_budget s)
     then record_event EV_SequenceCompleted (rq_id (s_req s)) k ''terminal''
            (set_terminal k ST_Completed
              (bump (\<lambda>st. st\<lparr>st_sequences_completed := st_sequences_completed st + 1\<rparr>)
                (drop_tenant (rq_tenant (s_req s)) (go k ST_Completed (go k ST_StepCompleted f)))))
     else upd_seq k (\<lambda>s. s\<lparr>s_ready_at := fin\<rparr>) (go k ST_ReadyForNextToken (go k ST_StepCompleted f)))"

definition close_transaction :: "MemberReceipt \<Rightarrow> Fabric \<Rightarrow> Fabric" where
  "close_transaction rec f =
    (let k = mr_sequence rec;
         f1 = f\<lparr>fb_grant_ledger := umap_upd (mr_grant_id rec)
                (\<lambda>gr. gr\<lparr>gr_status := 1, gr_receipt := rec, gr_has_receipt := True\<rparr>) (fb_grant_ledger f)\<rparr>;
         f2 = releasing k (close_inflight k f1);
         f3 = upd_seq k (\<lambda>s. s\<lparr>s_has_inflight_grant := False, s_in_flight_grant := id_null,
                s_in_flight_proposal := id_null\<rparr>) f2
     in record_event EV_ReservationReleased (rq_id (s_req (seq_at f3 k))) k ''receipt_consumed''
          (f3\<lparr>fb_receipt_count := fb_receipt_count f3 + 1\<rparr>))"

definition finalize :: "MemberReceipt \<Rightarrow> Fabric \<Rightarrow> Fabric" where
  "finalize rec f =
    (case finalize_step rec f of (fin, f1) \<Rightarrow> close_transaction rec (finalize_state rec fin f1))"

definition apply_receipt :: "MemberReceipt \<Rightarrow> Fabric \<Rightarrow> Fabric" where
  "apply_receipt rec f =
    (let k = mr_sequence rec in
     case umap_find (fb_grant_ledger f) (mr_grant_id rec) of
       None \<Rightarrow> stale_event id_null k ''unknown_grant'' f
     | Some gr \<Rightarrow>
        if gr_status gr = 1 then
          if gr_has_receipt gr \<and> receipts_match (gr_receipt gr) rec then f
          else if (case umap_find (fb_seqs f) k of
                     None \<Rightarrow> False
                   | Some s \<Rightarrow> s_has_accepted s \<and> ag_idempotency_key (s_accepted s) = acceptance_key rec \<and>
                               ag_promotion_observed (s_accepted s)) then f
          else stale_event id_null k ''conflicting_duplicate_receipt'' f
        else if gr_status gr = 2 then stale_event id_null k ''aborted_grant'' f
        else if \<not> receipt_binds rec (gr_grant gr) then stale_event id_null k ''receipt_grant_mismatch'' f
        else (case umap_find (fb_seqs f) k of
            None \<Rightarrow> stale_event id_null k ''unknown_sequence'' f
          | Some s \<Rightarrow>
             if \<not> s_has_inflight_grant s \<or> s_in_flight_grant s \<noteq> mr_grant_id rec \<or>
                s_in_flight_proposal s \<noteq> mr_proposal rec
               then stale_event (rq_id (s_req s)) k ''grant_not_inflight'' f
             else if is_stopped (s_machine s)
               then stale_event (rq_id (s_req s)) k ''completion_for_terminal'' f
             else finalize rec f))"

definition apply_commit_receipt :: "ReceiptDecode \<Rightarrow> Fabric \<Rightarrow> unit result \<times> Fabric" where
  "apply_commit_receipt receipts f =
     (Inr (), refresh_derived_stats (fold apply_receipt (rd_receipts receipts) f))"

section \<open>Abort\<close>

definition abort_grant :: "GrantId \<Rightarrow> Fabric \<Rightarrow> Fabric" where
  "abort_grant i f = f\<lparr>fb_grant_ledger :=
     umap_upd i (\<lambda>gr. if gr_status gr = 0 then gr\<lparr>gr_status := 2\<rparr> else gr) (fb_grant_ledger f)\<rparr>"

definition abort_prepared :: "AbortPrepared \<Rightarrow> Fabric \<Rightarrow> unit result \<times> Fabric" where
  "abort_prepared ab f =
    (Inr (),
     let k = ab_sequence ab in
     case umap_find (fb_seqs f) k of
       None \<Rightarrow> f
     | Some s \<Rightarrow>
        if s_has_inflight_grant s \<and> s_in_flight_proposal s = ab_proposal ab
        then let f1 = upd_seq k (\<lambda>s. s\<lparr>s_has_inflight_grant := False, s_in_flight_grant := id_null,
                   s_in_flight_proposal := id_null, s_in_flight_position := 0, s_has_inflight := False\<rparr>)
                   (abort_grant (s_in_flight_grant s) f);
                 f2 = releasing k f1;
                 st = s_machine (seq_at f2 k);
                 f3 = (if \<not> is_terminal st \<and> (st = ST_Dispatched \<or> st = ST_Running)
                       then (case tick (go k ST_Waiting (go k ST_StepCompleted f2)) of
                               (t, f') \<Rightarrow> upd_seq k (\<lambda>s. s\<lparr>s_ready_at := t\<rparr>) f')
                       else f2)
             in record_event EV_StaleRejected (rq_id (s_req s)) k ''aborted_prepared'' f3
        else f)"

section \<open>Accessors\<close>

definition sequence_committed_digest :: "Fabric \<Rightarrow> SequenceId \<Rightarrow> u64" where
  "sequence_committed_digest f seq =
     (case umap_find (fb_seqs f) seq of None \<Rightarrow> 0 | Some s \<Rightarrow> s_committed_state_digest s)"

definition has_pending_grant :: "Fabric \<Rightarrow> SequenceId \<Rightarrow> bool" where
  "has_pending_grant f seq =
     (case umap_find (fb_seqs f) seq of None \<Rightarrow> False | Some s \<Rightarrow> s_has_inflight_grant s)"

definition pending_grant :: "Fabric \<Rightarrow> SequenceId \<Rightarrow> GrantId" where
  "pending_grant f seq =
     (case umap_find (fb_seqs f) seq of None \<Rightarrow> id_null | Some s \<Rightarrow> s_in_flight_grant s)"

definition grant_status :: "Fabric \<Rightarrow> GrantId \<Rightarrow> int" where
  "grant_status f grant =
     (case umap_find (fb_grant_ledger f) grant of None \<Rightarrow> - 1 | Some gr \<Rightarrow> gr_status gr)"

definition receipt_count :: "Fabric \<Rightarrow> u64" where
  "receipt_count f = fb_receipt_count f"

definition has_accepted_generation :: "Fabric \<Rightarrow> SequenceId \<Rightarrow> bool" where
  "has_accepted_generation f seq =
     (case umap_find (fb_seqs f) seq of None \<Rightarrow> False | Some s \<Rightarrow> s_has_accepted s)"

definition accepted_generation :: "Fabric \<Rightarrow> SequenceId \<Rightarrow> AcceptedGeneration" where
  "accepted_generation f seq =
     (case umap_find (fb_seqs f) seq of None \<Rightarrow> default_AcceptedGeneration | Some s \<Rightarrow> s_accepted s)"

end
