(* ===== verification/FabricSteps.thy ===== *)
theory FabricSteps
  imports Scheduler Transaction
begin

text \<open>
  The atomic steps the fabric is made of, and the proof that every public operation is a sequence of
  them. A step admits a sequence, moves its bookkeeping without touching its tokens, dispatches it,
  issues, consumes or aborts a grant, reserves or frees device memory, or changes only fields outside
  the accounting core (events, statistics, clock, tenants, workers' load). An invariant of the steps is
  therefore an invariant of every operation, on every branch, and of every interleaving of them.
\<close>

section \<open>The accounting core\<close>

text \<open>The event ring is within its capacity and the terminal records are keyed by sequence.\<close>

definition history_ok :: "Fabric \<Rightarrow> bool" where
  "history_ok f \<longleftrightarrow> length (fb_events f) \<le> unat (cf_event_capacity (fb_cfg f)) \<and> umap_ok (fb_terminal_records f)"

lemma history_frame [simp]:
  "history_ok (f\<lparr>fb_ticks := a1\<rparr>) = history_ok f" "history_ok (f\<lparr>fb_epoch := a2\<rparr>) = history_ok f"
  "history_ok (f\<lparr>fb_seqs := a3\<rparr>) = history_ok f" "history_ok (f\<lparr>fb_req_to_seq := a4\<rparr>) = history_ok f"
  "history_ok (f\<lparr>fb_workers := a5\<rparr>) = history_ok f" "history_ok (f\<lparr>fb_dev_mem := a6\<rparr>) = history_ok f"
  "history_ok (f\<lparr>fb_tenant_tokens := a7\<rparr>) = history_ok f" "history_ok (f\<lparr>fb_tenant_active := a8\<rparr>) = history_ok f"
  "history_ok (f\<lparr>fb_reservations := a9\<rparr>) = history_ok f" "history_ok (f\<lparr>fb_stats := b1\<rparr>) = history_ok f"
  "history_ok (f\<lparr>fb_worker_current_boot := b2\<rparr>) = history_ok f" "history_ok (f\<lparr>fb_next_seq := b3\<rparr>) = history_ok f"
  "history_ok (f\<lparr>fb_next_group := b4\<rparr>) = history_ok f" "history_ok (f\<lparr>fb_next_dispatch := b5\<rparr>) = history_ok f"
  "history_ok (f\<lparr>fb_next_reservation := b6\<rparr>) = history_ok f" "history_ok (f\<lparr>fb_next_grant := b7\<rparr>) = history_ok f"
  "history_ok (f\<lparr>fb_grant_ledger := b8\<rparr>) = history_ok f" "history_ok (f\<lparr>fb_receipt_count := b9\<rparr>) = history_ok f"
  "history_ok (upd_seq k g f) = history_ok f" "history_ok (bump h f) = history_ok f" "history_ok (free_device rv f) = history_ok f"
  "history_ok (go k st f) = history_ok f" "history_ok (drop_inflight k f) = history_ok f"
  "history_ok (close_inflight k f) = history_ok f" "history_ok (abort_grant i f) = history_ok f"
  by (simp_all add: history_ok_def upd_seq_def bump_def free_device_def go_def drop_inflight_def close_inflight_def
      abort_grant_def split: option.split)

lemma umap_ok_set_iff: "umap_ok (umap_set k v m) \<longleftrightarrow> umap_ok m"
  by (auto simp: umap_ok_def keys_set)

definition core where
  "core f = (fb_cfg f, fb_seqs f, fb_dev_mem f, fb_reservations f, map (wd_device \<circ> snd) (fb_workers f),
     fb_next_dispatch f, fb_next_reservation f, fb_next_grant f, fb_grant_ledger f, fb_receipt_count f,
     st_decode_steps (fb_stats f), st_generated_tokens (fb_stats f), history_ok f)"

lemma coreD:
  assumes "core f' = core f"
  shows "fb_cfg f' = fb_cfg f" "fb_seqs f' = fb_seqs f" "fb_dev_mem f' = fb_dev_mem f"
    "fb_reservations f' = fb_reservations f"
    "map (wd_device \<circ> snd) (fb_workers f') = map (wd_device \<circ> snd) (fb_workers f)"
    "fb_next_dispatch f' = fb_next_dispatch f" "fb_next_reservation f' = fb_next_reservation f"
    "fb_next_grant f' = fb_next_grant f" "fb_grant_ledger f' = fb_grant_ledger f"
    "fb_receipt_count f' = fb_receipt_count f"
    "st_decode_steps (fb_stats f') = st_decode_steps (fb_stats f)"
    "st_generated_tokens (fb_stats f') = st_generated_tokens (fb_stats f)" "history_ok f' = history_ok f"
  using assms by (simp_all add: core_def)

lemma core_tick [frame]: "core (snd (tick f)) = core f"
  by (simp add: core_def tick_def)

lemma core_record_event [frame]: "core (record_event k r s d f) = core f"
  by (auto simp: core_def record_event_def tick_def Let_def history_ok_def)

lemma core_set_terminal [frame]: "core (set_terminal k st f) = core f"
  by (simp add: core_def set_terminal_def history_ok_def umap_ok_set_iff)

lemma core_drop_tenant [frame]: "core (drop_tenant t f) = core f"
  by (simp add: core_def drop_tenant_def)

lemma core_update_tenant_tokens [frame]: "core (update_tenant_tokens t n f) = core f"
  by (simp add: core_def update_tenant_tokens_def split: option.split)

lemma core_bump [frame]:
  "(\<And>st. st_decode_steps (g st) = st_decode_steps st \<and> st_generated_tokens (g st) = st_generated_tokens st) \<Longrightarrow>
   core (bump g f) = core f"
  by (simp add: core_def bump_def)

lemma core_refresh [frame]: "core (refresh_derived_stats f) = core f"
  unfolding refresh_derived_stats_def by (rule core_bump) (simp add: Let_def)

lemma core_stale_bump [frame]: "core (stale_bump f) = core f"
  unfolding stale_bump_def by (rule core_bump) simp

lemma core_stale_event [frame]: "core (stale_event r k d f) = core f"
  by (simp add: stale_event_def core_record_event core_stale_bump)

lemmas noise_simps [simp] = coreD [OF core_tick] coreD [OF core_record_event] coreD [OF core_set_terminal]
  coreD [OF core_drop_tenant] coreD [OF core_update_tenant_tokens] coreD [OF core_stale_bump]
  coreD [OF core_stale_event] coreD [OF core_refresh]

lemma bump_simps [simp]:
  "fb_cfg (bump g f) = fb_cfg f" "fb_seqs (bump g f) = fb_seqs f" "fb_dev_mem (bump g f) = fb_dev_mem f"
  "fb_reservations (bump g f) = fb_reservations f" "fb_workers (bump g f) = fb_workers f"
  "fb_next_dispatch (bump g f) = fb_next_dispatch f" "fb_next_reservation (bump g f) = fb_next_reservation f"
  "fb_next_grant (bump g f) = fb_next_grant f" "fb_grant_ledger (bump g f) = fb_grant_ledger f"
  "fb_receipt_count (bump g f) = fb_receipt_count f" "fb_stats (bump g f) = g (fb_stats f)"
  by (simp_all add: bump_def)

section \<open>Reading through updates\<close>

lemma seq_at_upd:
  "seq_at (upd_seq k g f) j =
     (if j = k \<and> umap_find (fb_seqs f) k \<noteq> None then g (seq_at f k) else seq_at f j)"
  by (auto simp: seq_at_def upd_seq_def umap_get_def split: option.split)

lemma seq_at_core: "core f' = core f \<Longrightarrow> seq_at f' k = seq_at f k"
  unfolding seq_at_def by (drule coreD(2)) simp

lemma seq_at_find: "umap_find (fb_seqs f) k = Some s \<Longrightarrow> seq_at f k = s"
  by (simp add: seq_at_def umap_get_def)

lemma find_seq_core: "core f' = core f \<Longrightarrow> umap_find (fb_seqs f') k = umap_find (fb_seqs f) k"
  by (drule coreD(2)) simp

lemma find_upd_seq:
  "umap_find (fb_seqs (upd_seq k g f)) j =
     (if j = k then map_option g (umap_find (fb_seqs f) k) else umap_find (fb_seqs f) j)"
  by (simp add: upd_seq_def)

lemma upd_seq_simps [simp]:
  "fb_cfg (upd_seq k g f) = fb_cfg f" "fb_dev_mem (upd_seq k g f) = fb_dev_mem f"
  "fb_reservations (upd_seq k g f) = fb_reservations f" "fb_workers (upd_seq k g f) = fb_workers f"
  "fb_next_dispatch (upd_seq k g f) = fb_next_dispatch f"
  "fb_next_reservation (upd_seq k g f) = fb_next_reservation f"
  "fb_next_grant (upd_seq k g f) = fb_next_grant f" "fb_grant_ledger (upd_seq k g f) = fb_grant_ledger f"
  "fb_receipt_count (upd_seq k g f) = fb_receipt_count f" "fb_stats (upd_seq k g f) = fb_stats f"
  "fb_epoch (upd_seq k g f) = fb_epoch f" "fb_worker_current_boot (upd_seq k g f) = fb_worker_current_boot f"
  "fb_events (upd_seq k g f) = fb_events f" "fb_event_head (upd_seq k g f) = fb_event_head f"
  "fb_seqs (upd_seq k g f) = umap_upd k g (fb_seqs f)"
  "map fst (fb_seqs (upd_seq k g f)) = map fst (fb_seqs f)"
  by (simp_all add: upd_seq_def)

section \<open>Quiet changes of a sequence\<close>

text \<open>A change that keeps the tokens: the state moves along allowed transitions, an in-flight dispatch
  or grant is kept or dropped, never replaced.\<close>

definition tokens where
  "tokens s = (s_req s, s_budget s, s_current_length s, s_generated s, s_committed s, s_generation s,
     s_committed_state_digest s, s_state_digest_established s, s_accepted s, s_has_accepted s, s_state s)"

definition quiet :: "Seq \<Rightarrow> Seq \<Rightarrow> bool" where
  "quiet s s' \<longleftrightarrow> tokens s' = tokens s \<and> can_transition\<^sup>*\<^sup>* (s_machine s) (s_machine s') \<and>
     (s_in_flight_dispatch s' = 0 \<or> s_in_flight_dispatch s' = s_in_flight_dispatch s \<and>
        s_in_flight_generation s' = s_in_flight_generation s) \<and>
     (s_has_inflight_grant s' \<longrightarrow> s_has_inflight_grant s \<and> s_in_flight_grant s' = s_in_flight_grant s \<and>
        s_in_flight_proposal s' = s_in_flight_proposal s)"

lemma tokensD:
  assumes "tokens s' = tokens s"
  shows "s_req s' = s_req s" "s_budget s' = s_budget s" "s_current_length s' = s_current_length s"
    "s_generated s' = s_generated s" "s_committed s' = s_committed s" "s_generation s' = s_generation s"
    "s_committed_state_digest s' = s_committed_state_digest s"
    "s_state_digest_established s' = s_state_digest_established s"
    "s_accepted s' = s_accepted s" "s_has_accepted s' = s_has_accepted s" "s_state s' = s_state s"
  using assms by (simp_all add: tokens_def)

lemma quiet_refl [simp]: "quiet s s"
  by (simp add: quiet_def)

lemma can_transition_sm_go [simp]: "can_transition\<^sup>*\<^sup>* st (sm_go st' st)"
  by (simp add: sm_go_eq r_into_rtranclp)

section \<open>Steps\<close>

definition clear_grant :: "Seq \<Rightarrow> Seq" where
  "clear_grant s = s\<lparr>s_has_inflight_grant := False, s_in_flight_grant := id_null,
     s_in_flight_proposal := id_null\<rparr>"

text \<open>The sequence after its receipt: one token more, the receipt chained, the transaction closed.\<close>

definition consumed_seq :: "MemberReceipt \<Rightarrow> TimePoint \<Rightarrow> Seq \<Rightarrow> Seq" where
  "consumed_seq rec fin s =
    (let s1 = chain_receipt rec ((advance_tokens s)\<lparr>s_last_token_at := fin\<rparr>);
         s2 = (if mr_terminal rec \<or> budget_exhausted (s_budget s1)
               then s1\<lparr>s_machine := sm_go ST_Completed (sm_go ST_StepCompleted (s_machine s1))\<rparr>
               else s1\<lparr>s_machine := sm_go ST_ReadyForNextToken (sm_go ST_StepCompleted (s_machine s1)),
                       s_ready_at := fin\<rparr>)
     in clear_grant (s2\<lparr>s_has_inflight := False, s_in_flight_dispatch := id_null\<rparr>))"

definition consume_grant :: "MemberReceipt \<Rightarrow> TimePoint \<Rightarrow> Fabric \<Rightarrow> Fabric" where
  "consume_grant rec fin f = (upd_seq (mr_sequence rec) (consumed_seq rec fin) f)\<lparr>
     fb_grant_ledger := umap_upd (mr_grant_id rec)
       (\<lambda>gr. gr\<lparr>gr_status := 1, gr_receipt := rec, gr_has_receipt := True\<rparr>) (fb_grant_ledger f),
     fb_receipt_count := fb_receipt_count f + 1,
     fb_stats := (fb_stats f)\<lparr>st_decode_steps := st_decode_steps (fb_stats f) + 1,
       st_generated_tokens := st_generated_tokens (fb_stats f) + 1\<rparr>\<rparr>"

definition fresh_grant :: "CommitGrant \<Rightarrow> GrantRecord" where
  "fresh_grant g = \<lparr>gr_grant = g, gr_status = 0, gr_receipt = default_MemberReceipt, gr_has_receipt = False\<rparr>"

definition rebase :: "Seq \<Rightarrow> Seq" where
  "rebase s = s\<lparr>s_generated := s_committed s,
     s_budget := budget_replay (unat (s_committed s)) (new_budget (rq_max_generation_length (s_req s)))\<rparr>"

text \<open>A container may be rehashed at any moment: its entries are permuted.\<close>

definition rehashed :: "Fabric \<Rightarrow> Fabric \<Rightarrow> bool" where
  "rehashed f f' \<longleftrightarrow> (\<exists>ss ds rs gs ws.
     f' = f\<lparr>fb_seqs := ss, fb_dev_mem := ds, fb_reservations := rs, fb_grant_ledger := gs, fb_workers := ws\<rparr> \<and>
     mset ss = mset (fb_seqs f) \<and> mset ds = mset (fb_dev_mem f) \<and> mset rs = mset (fb_reservations f) \<and>
     mset gs = mset (fb_grant_ledger f) \<and> mset ws = mset (fb_workers f))"

text \<open>The parameter says whether receipts may be consumed on the way: the steps with \<open>rc = False\<close> are those an
  operation other than the application of receipts is made of.\<close>

inductive fstep :: "bool \<Rightarrow> Fabric \<Rightarrow> Fabric \<Rightarrow> bool" for rc where
  noise: "core f' = core f \<Longrightarrow> fstep rc f f'"
| rehash: "rehashed f f' \<Longrightarrow> fstep rc f f'"
| admit: "umap_find (fb_seqs f) k = None \<Longrightarrow> rq_pregenerated req \<le> rq_max_generation_length req \<Longrightarrow>
    fstep rc f (f\<lparr>fb_seqs := umap_set k (admitted_seq req) (fb_seqs f)\<rparr>)"
| seq: "(\<And>s. umap_find (fb_seqs f) k = Some s \<Longrightarrow> quiet s (g s)) \<Longrightarrow> fstep rc f (upd_seq k g f)"
| regenerate: "fstep rc f (upd_seq k (\<lambda>s. s\<lparr>s_generated := s_committed s\<rparr>) f)"
| rebase: "fstep rc f (upd_seq k rebase f)"
| mint: "unat (fb_next_dispatch f) + 1 < 2 ^ 64 \<Longrightarrow>
    fstep rc f (f\<lparr>fb_next_dispatch := fb_next_dispatch f + 1\<rparr>)"
| dispatch: "\<not> budget_exhausted (s_budget (seq_at f k)) \<Longrightarrow> di_id d < fb_next_dispatch f \<Longrightarrow>
    fstep rc f (upd_seq k (dispatch_seq d tn) f)"
| free: "umap_find (fb_reservations f) r = Some rv \<Longrightarrow>
    fstep rc f ((free_device rv f)\<lparr>fb_reservations := umap_erase r (fb_reservations f)\<rparr>)"
| device: "umap_find (fb_dev_mem f) dev = None \<Longrightarrow>
    fstep rc f (f\<lparr>fb_dev_mem := umap_set dev default_DevMem (fb_dev_mem f)\<rparr>)"
| reserve: "w \<in> set (map snd (fb_workers f)) \<Longrightarrow>
    \<not> memory_refused (umap_get default_DevMem (fb_dev_mem f) (dd_id (wd_device w))) growth \<Longrightarrow>
    unat (fb_next_reservation f) + 1 < 2 ^ 64 \<Longrightarrow> fstep rc f (snd (reserve_group tn w growth f))"
| register: "dd_memory_bytes (wd_device wd) > 0 \<Longrightarrow> fstep rc f (snd (register_worker wd f))"
| issue: "umap_find (fb_seqs f) k = Some s \<Longrightarrow> \<not> s_has_inflight_grant s \<Longrightarrow>
    s_in_flight_dispatch s \<noteq> 0 \<Longrightarrow> cg_grant_id g = fb_next_grant f \<Longrightarrow> cg_sequence g = k \<Longrightarrow>
    cg_committed_position g = s_generated s \<Longrightarrow>
    (s_state_digest_established s \<Longrightarrow> cg_pre_state_digest g = s_committed_state_digest s) \<Longrightarrow>
    unat (fb_next_grant f) + 1 < 2 ^ 64 \<Longrightarrow>
    fstep rc f (upd_seq k (\<lambda>s. s\<lparr>s_in_flight_grant := cg_grant_id g, s_has_inflight_grant := True,
        s_in_flight_proposal := cg_proposal g, s_in_flight_position := cg_committed_position g\<rparr>)
      (f\<lparr>fb_next_grant := fb_next_grant f + 1,
         fb_grant_ledger := umap_set (cg_grant_id g) (fresh_grant g) (fb_grant_ledger f)\<rparr>))"
| consume: "umap_find (fb_seqs f) (mr_sequence rec) = Some s \<Longrightarrow>
    umap_find (fb_grant_ledger f) (mr_grant_id rec) = Some gr \<Longrightarrow> gr_status gr \<noteq> 1 \<Longrightarrow> gr_status gr \<noteq> 2 \<Longrightarrow>
    receipt_binds rec (gr_grant gr) \<Longrightarrow> s_has_inflight_grant s \<Longrightarrow> s_in_flight_grant s = mr_grant_id rec \<Longrightarrow>
    s_in_flight_proposal s = mr_proposal rec \<Longrightarrow> \<not> is_stopped (s_machine s) \<Longrightarrow> rc \<Longrightarrow>
    fstep rc f (consume_grant rec fin f)"
| abort: "umap_find (fb_seqs f) k = Some s \<Longrightarrow> s_has_inflight_grant s \<Longrightarrow>
    fstep rc f (abort_grant (s_in_flight_grant s) (upd_seq k clear_grant f))"

abbreviation reach :: "bool \<Rightarrow> Fabric \<Rightarrow> Fabric \<Rightarrow> bool" where
  "reach rc \<equiv> (fstep rc)\<^sup>*\<^sup>*"

named_theorems reach_intros \<open>the primitives of the fabric are sequences of steps\<close>

lemma reach_step: "reach rc f g \<Longrightarrow> fstep rc g h \<Longrightarrow> reach rc f h"
  by (rule rtranclp.rtrancl_into_rtrancl)

lemma reach_core: "reach rc f g \<Longrightarrow> core h = core g \<Longrightarrow> reach rc f h"
  by (blast intro: reach_step fstep.noise)

lemma reach_refl [reach_intros]: "reach rc f f"
  by simp

lemma reach_noise [reach_intros]:
  "reach rc f g \<Longrightarrow> reach rc f (record_event a b c d g)"
  "reach rc f g \<Longrightarrow> reach rc f (snd (tick g))"
  "reach rc f g \<Longrightarrow> reach rc f (set_terminal k st g)"
  "reach rc f g \<Longrightarrow> reach rc f (drop_tenant t g)"
  "reach rc f g \<Longrightarrow> reach rc f (update_tenant_tokens t n g)"
  "reach rc f g \<Longrightarrow> reach rc f (refresh_derived_stats g)"
  "reach rc f g \<Longrightarrow> reach rc f (stale_bump g)"
  "reach rc f g \<Longrightarrow> reach rc f (stale_event r k d g)"
  by (auto intro: reach_core frame)

lemma reach_bump [reach_intros]:
  "reach rc f g \<Longrightarrow> (\<And>st. st_decode_steps (h st) = st_decode_steps st \<and>
     st_generated_tokens (h st) = st_generated_tokens st) \<Longrightarrow> reach rc f (bump h g)"
  by (erule reach_core) (rule core_bump)

lemma reach_upd [reach_intros]: "reach rc f g \<Longrightarrow> (\<And>s. quiet s (h s)) \<Longrightarrow> reach rc f (upd_seq k h g)"
  by (blast intro: reach_step fstep.seq)

lemma quiet_simps [simp]:
  "quiet s (s\<lparr>s_machine := sm_go st (s_machine s)\<rparr>)"
  "quiet s (s\<lparr>s_ready_at := t\<rparr>)"
  "quiet s (s\<lparr>s_has_inflight := False\<rparr>)"
  "quiet s (s\<lparr>s_has_inflight := False, s_in_flight_dispatch := id_null\<rparr>)"
  "quiet s (s\<lparr>s_reservation := r\<rparr>)"
  "quiet s (s\<lparr>s_current_attempt := a, s_attempt_count := n\<rparr>)"
  "quiet s (s\<lparr>s_last_grouped_at := t, s_ready_at := t'\<rparr>)"
  "quiet s (s\<lparr>s_has_inflight := False, s_in_flight_dispatch := id_null, s_has_inflight_grant := False,
     s_in_flight_grant := id_null, s_in_flight_proposal := id_null\<rparr>)"
  by (simp_all add: quiet_def tokens_def id_null_def)

lemma reach_go [reach_intros]: "reach rc f g \<Longrightarrow> reach rc f (go k st g)"
  unfolding go_def by (intro reach_intros quiet_simps)

lemma reach_inflight [reach_intros]:
  "reach rc f g \<Longrightarrow> reach rc f (drop_inflight k g)"
  "reach rc f g \<Longrightarrow> reach rc f (close_inflight k g)"
  unfolding drop_inflight_def close_inflight_def by (intro reach_intros quiet_simps; assumption)+

lemma free_device_simps [simp]: "fb_reservations (free_device rv f) = fb_reservations f"
  "fb_seqs (free_device rv f) = fb_seqs f"
  by (simp_all add: free_device_def split: option.split)

lemma reach_releasing [reach_intros]: "reach rc f g \<Longrightarrow> reach rc f (releasing k g)"
  unfolding releasing_def release_reservation_def
  by (auto simp: Let_def split: option.splits intro!: reach_intros reach_step [OF _ fstep.free])

lemma reach_fold: "reach rc f g \<Longrightarrow> (\<And>x g. x \<in> set xs \<Longrightarrow> reach rc f g \<Longrightarrow> reach rc f (h x g)) \<Longrightarrow> reach rc f (fold h xs g)"
  by (induction xs arbitrary: g) auto

lemma reach_rebase [reach_intros]:
  "reach rc f g \<Longrightarrow> reach rc f (upd_seq k (\<lambda>s. s\<lparr>s_generated := s_committed s\<rparr>) g)"
  "reach rc f g \<Longrightarrow> reach rc f (upd_seq k rebase g)"
  by (blast intro: reach_step fstep.regenerate fstep.rebase)+

section \<open>Operations are sequences of steps\<close>

lemma reach_stale_reconcile [reach_intros]: "reach rc f g \<Longrightarrow> reach rc f (stale_reconcile k g)"
  unfolding stale_reconcile_def
  by (auto simp: Let_def case_prod_beta intro!: reach_intros)

lemma reach_noncommit [reach_intros]: "reach rc f g \<Longrightarrow> reach rc f (apply_noncommit_outcome k mo g)"
  unfolding apply_noncommit_outcome_def rebase_def [symmetric, abs_def]
  by (cases "mo_kind mo") (auto simp: Let_def case_prod_beta intro!: reach_intros)

lemma reach_cancel_now [reach_intros]: "reach rc f g \<Longrightarrow> reach rc f (cancel_now k g)"
  unfolding cancel_now_def by (auto simp: Let_def intro!: reach_intros)

lemma reach_expire_now [reach_intros]: "reach rc f g \<Longrightarrow> reach rc f (expire_now k g)"
  unfolding expire_now_def by (auto simp: Let_def intro!: reach_intros)

lemma reach_cancel: "reach rc f (snd (cancel k f))"
  unfolding cancel_def by (auto simp: Let_def split: option.split intro!: reach_intros)

lemma reach_cancel_request: "reach rc f (snd (cancel_request r f))"
  unfolding cancel_request_def by (auto split: option.split intro!: reach_cancel)

lemma reach_retry: "reach rc f (snd (retry k f))"
  unfolding retry_def by (auto simp: Let_def case_prod_beta split: option.split intro!: reach_intros)

lemma reach_mark_worker_dead: "reach rc f (snd (mark_worker_dead w f))"
proof -
  have map_entry: "map (wd_device \<circ> snd) (umap_upd w (\<lambda>w. w\<lparr>wd_health := h, wd_active_reservations := n\<rparr>) ws) =
      map (wd_device \<circ> snd) ws" for h n ws
    unfolding umap_upd_def by (induction ws) auto
  show ?thesis
    unfolding mark_worker_dead_def Let_def snd_conv
    by (rule reach_fold)
      (auto simp: requeue_dead_def Let_def case_prod_beta core_def map_entry
        intro!: reach_intros intro: reach_core [OF reach_refl])
qed

lemma reach_roll_epoch: "reach rc f (snd (roll_epoch f))"
  unfolding roll_epoch_def by (auto simp: Let_def core_def intro!: reach_intros intro: reach_core [OF reach_refl])

lemma reach_advance: "reach rc f (snd (advance tn f))"
  unfolding advance_def snd_conv
  by (rule reach_fold) (auto simp: advance_seq_def Let_def intro!: reach_intros)

lemma reach_complete_member: "reach rc f g \<Longrightarrow> reach rc f (complete_member r mo g)"
  unfolding complete_member_def by (auto simp: Let_def split: option.split intro!: reach_intros)

lemma reach_apply_completion: "reach rc f (snd (apply_completion r f))"
  unfolding apply_completion_def snd_conv
  by (intro reach_intros reach_fold reach_complete_member) 


subsection \<open>Admission and registration\<close>

lemma reach_admit:
  assumes "reach rc f g" and "rq_pregenerated req \<le> rq_max_generation_length req"
  shows "reach rc f (snd (admit k req g))"
proof -
  let ?h = "if umap_find (fb_seqs g) k = None
     then g\<lparr>fb_seqs := umap_set k (admitted_seq req) (fb_seqs g)\<rparr> else g"
  have "reach rc f ?h"
    using assms by (auto intro: reach_step [OF _ fstep.admit])
  then show ?thesis
    by (rule reach_core) (auto simp: admit_def Let_def core_record_event, auto simp: core_def bump_def)
qed

lemma build_key_request [simp]:
  "rq_pregenerated (fst (build_key req f)) = rq_pregenerated req"
  "rq_max_generation_length (fst (build_key req f)) = rq_max_generation_length req"
  "core (snd (build_key req f)) = core f"
  by (auto simp: build_key_def Let_def case_prod_beta core_tick)

lemma validate_pregenerated: "validate req = Inr u \<Longrightarrow> rq_pregenerated req \<le> rq_max_generation_length req"
  by (auto simp: validate_def split: if_splits)

lemma reach_submit: "reach rc f (snd (submit req f))"
proof (cases "validate req")
  case (Inl e)
  then show ?thesis by (auto simp: submit_def intro!: reach_intros)
next
  case (Inr u)
  obtain r g where b: "build_key req f = (r, g)" by force
  have "reach rc f g"
    using build_key_request(3) [of req f] b by (intro reach_core [OF reach_refl]) simp
  moreover from this have "reach rc f (g\<lparr>fb_next_seq := n\<rparr>)" for n
    by (rule reach_core) (simp add: core_def)
  moreover have "rq_pregenerated r \<le> rq_max_generation_length r"
    using build_key_request(1,2) [of req f] b validate_pregenerated [OF Inr] by simp
  ultimately show ?thesis
    unfolding submit_def Inr b
    by (auto split: option.split intro!: reach_intros reach_admit)
qed

lemma reach_register: "dd_memory_bytes (wd_device wd) > 0 \<Longrightarrow> reach rc f (snd (register_worker wd f))"
  by (intro r_into_rtranclp fstep.register)

subsection \<open>Grants\<close>

lemma reach_issue_grant:
  assumes "umap_find (fb_seqs f) (pm_sequence pm) = Some s" and "binding_fault pm s = None"
    and "s_in_flight_dispatch s \<noteq> 0" and "unat (fb_next_grant f) + 1 < 2 ^ 64"
  shows "reach rc f (snd (issue_grant pd pm f))"
proof -
  let ?g = "member_grant (fb_next_grant f) pd pm"
  have "fstep rc f (upd_seq (pm_sequence pm) (\<lambda>s. s\<lparr>s_in_flight_grant := cg_grant_id ?g, s_has_inflight_grant := True,
        s_in_flight_proposal := cg_proposal ?g, s_in_flight_position := cg_committed_position ?g\<rparr>)
      (f\<lparr>fb_next_grant := fb_next_grant f + 1,
         fb_grant_ledger := umap_set (cg_grant_id ?g) (fresh_grant ?g) (fb_grant_ledger f)\<rparr>))"
    using assms
    by (intro fstep.issue [where s = s]) (auto simp: binding_fault_def member_grant_def split: if_splits)
  then show ?thesis
    unfolding issue_grant_def Let_def snd_conv fresh_grant_def
    by (intro reach_noise(1) r_into_rtranclp) (simp add: member_grant_def)
qed

lemma authority_fault_None:
  assumes "authority_fault pm s f = None"
  shows "s_in_flight_dispatch s = pm_dispatch pm" "s_in_flight_generation s = pm_generation pm"
    "s_current_attempt s = pm_attempt pm" "pm_epoch pm = fb_epoch f"
    "\<not> stale_boot f (pm_worker pm) (pm_worker_boot pm)" "\<not> is_stopped (s_machine s)"
  using assms by (auto simp: authority_fault_def Let_def is_stopped_def split: if_splits)

lemma reach_authorize_member:
  assumes "pm_dispatch pm \<noteq> 0" and "unat (fb_next_grant f) + 1 < 2 ^ 64"
  shows "reach rc f (snd (authorize_member pd pm f))"
proof (cases "umap_find (fb_seqs f) (pm_sequence pm)")
  case None
  then show ?thesis by (auto simp: authorize_member_def intro!: reach_intros)
next
  case (Some s)
  show ?thesis
  proof (cases "authority_fault pm s f")
    case None
    then have "s_in_flight_dispatch s \<noteq> 0" using assms(1) authority_fault_None(1) by simp
    then show ?thesis
      using None Some assms(2)
      by (auto simp: authorize_member_def Let_def split: option.split intro!: reach_intros intro: reach_issue_grant)
  next
    case (Some fault)
    then show ?thesis
      using \<open>umap_find (fb_seqs f) (pm_sequence pm) = _\<close>
      by (cases fault) (auto simp: authorize_member_def Let_def intro!: reach_intros)
  qed
qed


lemma authorize_loop_Cons:
  "authorize_loop pd (pm # pms) (out, f) =
     authorize_loop pd pms (out @ [fst (authorize_member pd pm f)], snd (authorize_member pd pm f))"
  by (simp add: authorize_loop_def case_prod_beta)

lemma authorize_loop_Nil [simp]: "authorize_loop pd [] p = p"
  by (simp add: authorize_loop_def)

lemma stale_reconcile_next_grant [simp]: "fb_next_grant (stale_reconcile k f) = fb_next_grant f"
  by (simp add: stale_reconcile_def Let_def case_prod_beta go_def releasing_def release_reservation_def
      free_device_def split: option.split)

lemma noncommit_next_grant [simp]: "fb_next_grant (apply_noncommit_outcome k mo f) = fb_next_grant f"
  by (cases "mo_kind mo")
    (simp_all add: apply_noncommit_outcome_def Let_def case_prod_beta go_def releasing_def
      release_reservation_def free_device_def split: option.split)

lemma authorize_member_next_grant:
  "fb_next_grant (snd (authorize_member pd pm f)) \<in> {fb_next_grant f, fb_next_grant f + 1}"
  by (simp add: authorize_member_def Let_def issue_grant_def close_inflight_def releasing_def
      release_reservation_def free_device_def case_prod_beta split: option.split)

lemma reach_authorize_loop:
  assumes "\<And>pm. pm \<in> set pms \<Longrightarrow> pm_dispatch pm \<noteq> 0"
    and "unat (fb_next_grant f) + length pms < 2 ^ 64"
  shows "reach rc f (snd (authorize_loop pd pms (out, f)))"
  using assms
proof (induction pms arbitrary: out f)
  case (Cons pm pms)
  let ?g = "snd (authorize_member pd pm f)"
  have "reach rc f ?g"
    using Cons.prems by (intro reach_authorize_member) auto
  moreover have "unat (fb_next_grant ?g) \<le> unat (fb_next_grant f) + 1"
    using authorize_member_next_grant [of pd pm f] unat_add_one_le [of "fb_next_grant f"] by auto
  then have "reach rc ?g (snd (authorize_loop pd pms (out @ [fst (authorize_member pd pm f)], ?g)))"
    using Cons.prems by (intro Cons.IH) auto
  ultimately show ?case
    unfolding authorize_loop_Cons by (rule rtranclp_trans)
qed simp

lemma reach_authorize_prepared:
  assumes "\<And>pm. pm \<in> set (pd_members pd) \<Longrightarrow> pm_dispatch pm \<noteq> 0"
    and "unat (fb_next_grant f) + length (pd_members pd) < 2 ^ 64"
  shows "reach rc f (snd (authorize_prepared pd f))"
  using reach_authorize_loop [OF assms, where out = "[]" and pd = pd]
  by (simp add: authorize_prepared_def case_prod_beta)

subsection \<open>Receipts\<close>

lemma default_Seq_reservation [simp]: "s_reservation default_Seq = 0"
  by (simp add: default_Seq_def)

lemma releasing_seqs [simp]:
  "fb_seqs (releasing k f) = umap_upd k (\<lambda>s. s\<lparr>s_reservation := id_null\<rparr>) (fb_seqs f)"
proof (cases "umap_find (fb_seqs f) k")
  case None
  then have "umap_upd k (\<lambda>s. s\<lparr>s_reservation := id_null\<rparr>) (fb_seqs f) = fb_seqs f"
    by (intro umap_upd_id) simp
  with None show ?thesis by (simp add: releasing_def release_reservation_def)
next
  case (Some s)
  have "umap_upd k (\<lambda>s. s\<lparr>s_reservation := id_null\<rparr>) (fb_seqs f) = fb_seqs f" if "s_reservation s = 0"
    using that Some by (intro umap_upd_id) (auto simp: id_null_def)
  then show ?thesis using Some
    by (simp add: releasing_def release_reservation_def id_is_null_def Let_def split: option.split)
qed

lemma releasing_simps [simp]:
  "fb_cfg (releasing k f) = fb_cfg f" "fb_workers (releasing k f) = fb_workers f"
  "fb_next_dispatch (releasing k f) = fb_next_dispatch f"
  "fb_next_reservation (releasing k f) = fb_next_reservation f"
  "fb_next_grant (releasing k f) = fb_next_grant f" "fb_grant_ledger (releasing k f) = fb_grant_ledger f"
  "fb_receipt_count (releasing k f) = fb_receipt_count f"
  "st_decode_steps (fb_stats (releasing k f)) = st_decode_steps (fb_stats f)"
  "st_generated_tokens (fb_stats (releasing k f)) = st_generated_tokens (fb_stats f)"
  by (simp_all add: releasing_def release_reservation_def free_device_def Let_def record_event_def tick_def
      split: option.split)

lemma releasing_history [simp]: "history_ok (releasing k f) = history_ok f"
  by (simp add: releasing_def release_reservation_def Let_def split: option.split)

lemma releasing_mem:
  assumes "fb_dev_mem g = fb_dev_mem f" and "fb_reservations g = fb_reservations f"
    and "s_reservation (seq_at g k) = s_reservation (seq_at f k)"
  shows "fb_dev_mem (releasing k g) = fb_dev_mem (releasing k f)"
    and "fb_reservations (releasing k g) = fb_reservations (releasing k f)"
  using assms
  by (auto simp: releasing_def release_reservation_def free_device_def Let_def seq_at_def umap_get_def
      id_is_null_def split: option.splits)


lemma go_seqs [simp]: "fb_seqs (go k st f) = umap_upd k (\<lambda>s. s\<lparr>s_machine := sm_go st (s_machine s)\<rparr>) (fb_seqs f)"
  by (simp add: go_def)

lemma go_simps [simp]:
  "fb_cfg (go k st f) = fb_cfg f" "fb_dev_mem (go k st f) = fb_dev_mem f"
  "fb_reservations (go k st f) = fb_reservations f" "fb_workers (go k st f) = fb_workers f"
  "fb_next_dispatch (go k st f) = fb_next_dispatch f" "fb_next_reservation (go k st f) = fb_next_reservation f"
  "fb_next_grant (go k st f) = fb_next_grant f" "fb_grant_ledger (go k st f) = fb_grant_ledger f"
  "fb_receipt_count (go k st f) = fb_receipt_count f" "fb_stats (go k st f) = fb_stats f"
  by (simp_all add: go_def)

lemma finalize_step_core:
  assumes "finalize_step rec f = (fin, g)"
  shows "core g = core ((upd_seq (mr_sequence rec)
      (\<lambda>s. chain_receipt rec ((advance_tokens s)\<lparr>s_last_token_at := fin\<rparr>)) f)\<lparr>
      fb_stats := (fb_stats f)\<lparr>st_decode_steps := st_decode_steps (fb_stats f) + 1,
      st_generated_tokens := st_generated_tokens (fb_stats f) + 1\<rparr>\<rparr>)"
  using assms
  by (auto simp: finalize_step_def Let_def case_prod_beta umap_upd_upd core_def split: if_splits)

lemma finalize_state_core:
  assumes "umap_find (fb_seqs f) (mr_sequence rec) = Some s"
  shows "core (finalize_state rec fin f) = core (upd_seq (mr_sequence rec) (\<lambda>s.
     if mr_terminal rec \<or> budget_exhausted (s_budget s)
     then s\<lparr>s_machine := sm_go ST_Completed (sm_go ST_StepCompleted (s_machine s))\<rparr>
     else s\<lparr>s_machine := sm_go ST_ReadyForNextToken (sm_go ST_StepCompleted (s_machine s)), s_ready_at := fin\<rparr>) f)"
  using assms
  by (auto simp: finalize_state_def Let_def core_def umap_upd_upd seq_at_find intro!: umap_upd_cong)

lemma close_transaction_core:
  "core (close_transaction rec f) =
     core (releasing (mr_sequence rec) ((upd_seq (mr_sequence rec)
       (\<lambda>s. clear_grant (s\<lparr>s_has_inflight := False, s_in_flight_dispatch := id_null\<rparr>)) f)\<lparr>
       fb_grant_ledger := umap_upd (mr_grant_id rec)
         (\<lambda>gr. gr\<lparr>gr_status := 1, gr_receipt := rec, gr_has_receipt := True\<rparr>) (fb_grant_ledger f),
       fb_receipt_count := fb_receipt_count f + 1\<rparr>))"
  (is "_ = core (releasing ?k ?g)")
proof -
  let ?h = "close_inflight ?k (f\<lparr>fb_grant_ledger := umap_upd (mr_grant_id rec)
         (\<lambda>gr. gr\<lparr>gr_status := 1, gr_receipt := rec, gr_has_receipt := True\<rparr>) (fb_grant_ledger f)\<rparr>)"
  have "s_reservation (seq_at ?h ?k) = s_reservation (seq_at ?g ?k)"
    by (simp add: seq_at_def umap_get_def close_inflight_def clear_grant_def split: option.split)
  then have mem: "fb_dev_mem (releasing ?k ?h) = fb_dev_mem (releasing ?k ?g)"
    "fb_reservations (releasing ?k ?h) = fb_reservations (releasing ?k ?g)"
    by (auto intro!: releasing_mem simp: close_inflight_def)
  show ?thesis
    unfolding close_transaction_def Let_def core_record_event
    by (simp add: core_def mem umap_upd_upd)
      (auto simp: close_inflight_def umap_upd_upd clear_grant_def intro!: umap_upd_cong)
qed

lemma releasing_core_cong: "core f = core g \<Longrightarrow> core (releasing k f) = core (releasing k g)"
proof -
  assume c: "core f = core g"
  note d = coreD [OF c]
  have "fb_dev_mem (releasing k f) = fb_dev_mem (releasing k g)"
    "fb_reservations (releasing k f) = fb_reservations (releasing k g)"
    using d seq_at_core [OF c] by (auto intro!: releasing_mem)
  then show ?thesis using d by (simp add: core_def)
qed

lemma finalize_core:
  assumes "umap_find (fb_seqs f) (mr_sequence rec) = Some s"
  shows "core (finalize rec f) =
     core (releasing (mr_sequence rec) (consume_grant rec (fst (finalize_step rec f)) f))"
proof -
  let ?k = "mr_sequence rec"
  obtain fin g where step: "finalize_step rec f = (fin, g)" by force
  note g = coreD [OF finalize_step_core [OF step]]
  have "umap_find (fb_seqs g) ?k \<noteq> None" using assms by (simp add: g)
  then obtain s1 where "umap_find (fb_seqs g) ?k = Some s1" by blast
  note h = coreD [OF finalize_state_core [OF this, of fin]]
  show ?thesis
    unfolding finalize_def step prod.case fst_conv close_transaction_core
  proof (rule releasing_core_cong)
    show "core ((upd_seq ?k (\<lambda>s. clear_grant (s\<lparr>s_has_inflight := False, s_in_flight_dispatch := id_null\<rparr>))
        (finalize_state rec fin g))\<lparr>fb_grant_ledger := umap_upd (mr_grant_id rec)
          (\<lambda>gr. gr\<lparr>gr_status := 1, gr_receipt := rec, gr_has_receipt := True\<rparr>)
          (fb_grant_ledger (finalize_state rec fin g)),
        fb_receipt_count := fb_receipt_count (finalize_state rec fin g) + 1\<rparr>) =
      core (consume_grant rec fin f)"
      by (simp add: core_def consume_grant_def h g umap_upd_upd)
        (auto intro!: umap_upd_cong simp: consumed_seq_def Let_def)
  qed
qed

lemma reach_apply_receipt: "reach True f (apply_receipt rec f)"
proof (cases "umap_find (fb_grant_ledger f) (mr_grant_id rec)")
  case None
  then show ?thesis by (auto simp: apply_receipt_def intro!: reach_intros)
next
  case (Some gr)
  have "reach True f (finalize rec f)" if "umap_find (fb_seqs f) (mr_sequence rec) = Some s"
    "gr_status gr \<noteq> 1" "gr_status gr \<noteq> 2" "receipt_binds rec (gr_grant gr)" "s_has_inflight_grant s"
    "s_in_flight_grant s = mr_grant_id rec" "s_in_flight_proposal s = mr_proposal rec"
    "\<not> is_stopped (s_machine s)" for s
  proof (rule reach_core [OF reach_releasing finalize_core [OF that(1)]])
    show "reach True f (consume_grant rec (fst (finalize_step rec f)) f)"
      using that Some by (intro r_into_rtranclp fstep.consume TrueI)
  qed
  with Some show ?thesis
    by (auto simp: apply_receipt_def Let_def split: option.split intro!: reach_intros)
qed

lemma reach_apply_receipts: "reach True f (fold apply_receipt rs f)"
  by (rule reach_fold [OF reach_refl]) (blast intro: rtranclp_trans reach_apply_receipt)

lemma reach_apply_commit_receipt: "reach True f (snd (apply_commit_receipt rd f))"
  unfolding apply_commit_receipt_def snd_conv by (intro reach_intros reach_apply_receipts)

subsection \<open>Abort\<close>

lemma reach_abort_prepared: "reach rc f (snd (abort_prepared ab f))"
proof (cases "umap_find (fb_seqs f) (ab_sequence ab)")
  case None
  then show ?thesis by (simp add: abort_prepared_def)
next
  case (Some s)
  let ?k = "ab_sequence ab"
  let ?g = "\<lambda>s. s\<lparr>s_in_flight_position := 0, s_has_inflight := False\<rparr>"
  have "reach rc f (upd_seq ?k (\<lambda>s. s\<lparr>s_has_inflight_grant := False, s_in_flight_grant := id_null,
      s_in_flight_proposal := id_null, s_in_flight_position := 0, s_has_inflight := False\<rparr>)
      (abort_grant (s_in_flight_grant s) f))" if "s_has_inflight_grant s"
  proof -
    have "reach rc f (upd_seq ?k ?g (abort_grant (s_in_flight_grant s) (upd_seq ?k clear_grant f)))"
      using that Some
      by (intro reach_upd r_into_rtranclp fstep.abort) (auto simp: quiet_def tokens_def)
    then show ?thesis
      by (simp add: upd_seq_def abort_grant_def umap_upd_upd clear_grant_def)
  qed
  moreover have "reach rc f (record_event a b c d (let g = releasing ?k g; st = s_machine (seq_at g ?k) in
      if \<not> is_terminal st \<and> (st = ST_Dispatched \<or> st = ST_Running)
      then (case tick (go ?k ST_Waiting (go ?k ST_StepCompleted g)) of
              (t, f') \<Rightarrow> upd_seq ?k (\<lambda>s. s\<lparr>s_ready_at := t\<rparr>) f') else g))" if "reach rc f g" for a b c d g
    using that by (auto simp: Let_def case_prod_beta intro!: reach_intros)
  ultimately show ?thesis
    using Some by (simp add: abort_prepared_def Let_def)
qed


subsection \<open>Scheduling\<close>

lemmas seq_at_noise [simp] = seq_at_core [OF core_tick] seq_at_core [OF core_record_event]
  seq_at_core [OF core_set_terminal] seq_at_core [OF core_drop_tenant]
  seq_at_core [OF core_stale_bump] seq_at_core [OF core_refresh] seq_at_core [OF core_update_tenant_tokens]

lemma seq_at_bump [simp]: "seq_at (bump g f) k = seq_at f k"
  by (simp add: seq_at_def)

lemma budget_upd: "(\<And>s. s_budget (g s) = s_budget s) \<Longrightarrow> s_budget (seq_at (upd_seq k g f) j) = s_budget (seq_at f j)"
  by (simp add: seq_at_upd)

lemma budget_go [simp]: "s_budget (seq_at (go k st f) j) = s_budget (seq_at f j)"
  unfolding go_def by (rule budget_upd) simp

lemma budget_releasing [simp]: "s_budget (seq_at (releasing k f) j) = s_budget (seq_at f j)"
  by (simp add: seq_at_def umap_get_def split: option.split)

text \<open>What a scheduling phase leaves alone: budgets, keys and the counters of dispatches, reservations and grants.\<close>

definition calm :: "Fabric \<Rightarrow> Fabric \<Rightarrow> bool" where
  "calm f g \<longleftrightarrow> (\<forall>j. s_budget (seq_at g j) = s_budget (seq_at f j)) \<and>
     map fst (fb_seqs g) = map fst (fb_seqs f) \<and> fb_cfg g = fb_cfg f \<and>
     fb_next_dispatch g = fb_next_dispatch f \<and> fb_next_reservation g = fb_next_reservation f \<and>
     fb_next_grant g = fb_next_grant f"

lemma calm_refl [simp]: "calm f f"
  by (simp add: calm_def)

lemma calm_trans: "calm f g \<Longrightarrow> calm g h \<Longrightarrow> calm f h"
  by (simp add: calm_def)

lemma calm_budget: "calm f g \<Longrightarrow> s_budget (seq_at g j) = s_budget (seq_at f j)"
  by (simp add: calm_def)

lemma calm_fold: "(\<And>x g. calm g (h x g)) \<Longrightarrow> calm f (fold h xs f)"
  by (induction xs arbitrary: f) (auto intro: calm_trans)

lemma calm_schedule_pass: "calm f (schedule_pass tn k f)"
  by (simp add: calm_def schedule_pass_def expire_now_def cancel_now_def Let_def)

lemma reach_schedule_pass: "reach rc f g \<Longrightarrow> reach rc f (schedule_pass tn k g)"
  by (auto simp: schedule_pass_def Let_def intro!: reach_intros)

lemma calm_collect: "calm f (snd (collect_candidate tn k (cs, f)))"
  by (simp add: calm_def collect_candidate_def Let_def)

lemma reach_collect: "reach rc f g \<Longrightarrow> reach rc f (snd (collect_candidate tn k (cs, g)))"
  by (auto simp: collect_candidate_def Let_def intro!: reach_intros)

lemma collect_fold:
  assumes "fold (collect_candidate tn) ks (cs, f) = (cs', g)"
    and "\<forall>c \<in> set cs. \<not> budget_exhausted (s_budget (seq_at f (cand_seq c)))"
  shows "reach rc f g \<and> calm f g \<and> length cs' \<le> length cs + length ks \<and>
     (\<forall>c \<in> set cs'. \<not> budget_exhausted (s_budget (seq_at g (cand_seq c))))"
  using assms
proof (induction ks arbitrary: cs f)
  case (Cons k ks)
  obtain cs1 f1 where one: "collect_candidate tn k (cs, f) = (cs1, f1)" by force
  have c: "reach rc f f1" "calm f f1"
    using reach_collect [OF reach_refl, of rc f tn k cs] calm_collect [of f tn k cs] one by simp_all
  have cs1: "cs1 = cs \<or> (\<exists>c. cs1 = cs @ [c] \<and> \<not> budget_exhausted (s_budget (seq_at f (cand_seq c))))"
    using one by (auto simp: collect_candidate_def Let_def split: if_splits)
  then have "\<forall>c \<in> set cs1. \<not> budget_exhausted (s_budget (seq_at f1 (cand_seq c)))"
    unfolding calm_budget [OF c(2)] using Cons.prems(2) by auto
  then have "reach rc f1 g \<and> calm f1 g \<and> length cs' \<le> length cs1 + length ks \<and>
     (\<forall>c \<in> set cs'. \<not> budget_exhausted (s_budget (seq_at g (cand_seq c))))"
    using Cons.prems(1) one by (intro Cons.IH) simp_all
  moreover have "length cs1 \<le> length cs + 1" using cs1 by auto
  ultimately show ?case
    using c by (auto intro: calm_trans rtranclp_trans)
qed auto

lemma candidates_reach:
  assumes "candidates tn f = (cs, g)"
  shows "reach rc f g" "calm f g" "length cs \<le> length (fb_seqs f)"
    "\<And>c. c \<in> set cs \<Longrightarrow> \<not> budget_exhausted (s_budget (seq_at g (cand_seq c)))"
proof -
  let ?f1 = "fold (schedule_pass tn) (map fst (fb_seqs f)) f"
  have c1: "calm f ?f1" by (rule calm_fold) (rule calm_schedule_pass)
  have r1: "reach rc f ?f1" by (rule reach_fold [OF reach_refl]) (rule reach_schedule_pass)
  have "length (fb_seqs ?f1) = length (fb_seqs f)"
    using c1 unfolding calm_def by (metis length_map)
  moreover have "fold (collect_candidate tn) (map fst (fb_seqs ?f1)) ([], ?f1) = (cs, g)"
    using assms by (simp add: candidates_def Let_def)
  note collect_fold [OF this]
  ultimately show "reach rc f g" "calm f g" "length cs \<le> length (fb_seqs f)"
    "\<And>c. c \<in> set cs \<Longrightarrow> \<not> budget_exhausted (s_budget (seq_at g (cand_seq c)))"
    using c1 r1 by (auto intro: calm_trans rtranclp_trans)
qed

lemma calm_form: "calm f (snd (snd (form_candidate tn c (gi, fs, f))))"
  by (auto simp: calm_def form_candidate_def case_prod_beta Let_def budget_upd)

lemma reach_form: "reach rc f g \<Longrightarrow> reach rc f (snd (snd (form_candidate tn c (gi, fs, g))))"
  by (auto simp: form_candidate_def case_prod_beta Let_def intro!: reach_intros)

definition members_of :: "Formed list \<Rightarrow> SequenceId set" where
  "members_of fs = (\<Union>g \<in> set fs. set (fm_members g))"

lemma group_slot_members:
  "members_of (snd (snd (group_slot c (gi, fs)))) = members_of fs"
  "length (snd (snd (group_slot c (gi, fs)))) \<le> length fs + 1"
  by (auto simp: group_slot_def members_of_def split: option.split)

lemma members_of_update:
  "members_of (fs[i := (fs ! i)\<lparr>fm_members := fm_members (fs ! i) @ [k]\<rparr>]) \<subseteq> insert k (members_of fs)"
proof (cases "i < length fs")
  case True
  then have "fs ! i \<in> set fs" by simp
  then show ?thesis
    using set_update_subset_insert [of fs i "(fs ! i)\<lparr>fm_members := fm_members (fs ! i) @ [k]\<rparr>"]
    by (auto simp: members_of_def)
qed (auto simp: list_update_beyond)

lemma form_members:
  "members_of (fst (snd (form_candidate tn c (gi, fs, f)))) \<subseteq> insert (cand_seq c) (members_of fs)"
  "length (fst (snd (form_candidate tn c (gi, fs, f)))) \<le> length fs + 1"
proof -
  obtain i gi' fs' where slot: "group_slot c (gi, fs) = (i, gi', fs')" using prod_cases3 by blast
  have "members_of fs' = members_of fs" "length fs' \<le> length fs + 1"
    using group_slot_members [of c gi fs] by (simp_all add: slot)
  then show "members_of (fst (snd (form_candidate tn c (gi, fs, f)))) \<subseteq> insert (cand_seq c) (members_of fs)"
    "length (fst (snd (form_candidate tn c (gi, fs, f)))) \<le> length fs + 1"
    using members_of_update [of fs' i "cand_seq c"] by (auto simp: form_candidate_def slot Let_def)
qed

lemma form_fold:
  assumes "fold (form_candidate tn) cs (gi, fs, f) = (gi', fs', g)"
  shows "reach rc f g \<and> calm f g \<and> length fs' \<le> length fs + length cs \<and>
     members_of fs' \<subseteq> cand_seq ` set cs \<union> members_of fs"
  using assms
proof (induction cs arbitrary: gi fs f)
  case (Cons c cs)
  obtain gi1 fs1 f1 where one: "form_candidate tn c (gi, fs, f) = (gi1, fs1, f1)"
    using prod_cases3 by blast
  have "reach rc f f1" "calm f f1" "length fs1 \<le> length fs + 1" "members_of fs1 \<subseteq> insert (cand_seq c) (members_of fs)"
    using reach_form [OF reach_refl, of rc f tn c gi fs] calm_form [of f tn c gi fs]
      form_members [of tn c gi fs f] one by simp_all
  moreover have "reach rc f1 g \<and> calm f1 g \<and> length fs' \<le> length fs1 + length cs \<and>
     members_of fs' \<subseteq> cand_seq ` set cs \<union> members_of fs1"
    using Cons.prems one by (intro Cons.IH) simp
  ultimately show ?case by (auto intro: calm_trans rtranclp_trans)
qed auto

lemma set_stable_insert [simp]: "set (stable_insert prec x xs) = insert x (set xs)"
  by (induction xs) auto

lemma length_stable_insert [simp]: "length (stable_insert prec x xs) = Suc (length xs)"
  by (induction xs) auto

lemma stable_sort_simps [simp]:
  "set (stable_sort prec xs) = set xs" "length (stable_sort prec xs) = length xs"
  by (induction xs) (auto simp: stable_sort_def)

lemma form_groups_reach:
  assumes "form_groups tn cs f = (fs, g)"
  shows "reach rc f g" "calm f g" "length fs \<le> length cs" "members_of fs \<subseteq> cand_seq ` set cs"
proof -
  obtain gi fs' g' where r: "fold (form_candidate tn) (stable_sort candidate_before cs) ([], [], f) = (gi, fs', g')"
    using prod_cases3 by blast
  with assms have "fs' = fs" "g' = g" by (simp_all add: form_groups_def)
  with form_fold [OF r] show "reach rc f g" "calm f g" "length fs \<le> length cs" "members_of fs \<subseteq> cand_seq ` set cs"
    by (auto simp: members_of_def)
qed

lemma choose_worker_mem: "choose_worker key f = Some (wid, w) \<Longrightarrow> (wid, w) \<in> set (fb_workers f) \<and> worker_eligible key w"
proof -
  have "\<forall>p. fold (\<lambda>(wid, w) chosen. if \<not> worker_eligible key w then chosen
      else (case chosen of None \<Rightarrow> Some (wid, w)
            | Some (_, c) \<Rightarrow> if wd_active_reservations w < wd_active_reservations c then Some (wid, w) else chosen))
      ws start = Some p \<longrightarrow> (\<forall>q. start = Some q \<longrightarrow> q \<in> S \<and> worker_eligible key (snd q)) \<longrightarrow> set ws \<subseteq> S \<longrightarrow>
      p \<in> S \<and> worker_eligible key (snd p)" for ws start S
    by (induction ws arbitrary: start) (auto split: option.splits if_splits)
  from this [of "fb_workers f" None "set (fb_workers f)"]
  show "choose_worker key f = Some (wid, w) \<Longrightarrow> (wid, w) \<in> set (fb_workers f) \<and> worker_eligible key w"
    unfolding choose_worker_def by auto
qed

lemma revert_calm: "calm f (revert_members ms f)"
  unfolding revert_members_def by (rule calm_fold) (simp add: calm_def)

lemma reach_revert: "reach rc f g \<Longrightarrow> reach rc f (revert_members ms g)"
  unfolding revert_members_def by (rule reach_fold) (auto intro: reach_intros)


lemma dispatch_fold:
  assumes "fold (dispatch_member tn) ms (d, f) = (d', g)"
    and "\<And>m. m \<in> set ms \<Longrightarrow> \<not> budget_exhausted (s_budget (seq_at f m))" and "di_id d < fb_next_dispatch f"
  shows "reach rc f g \<and> calm f g"
  using assms
proof (induction ms arbitrary: d f)
  case (Cons m ms)
  let ?d = "d\<lparr>di_members := di_members d @ [member_spec m (seq_at f m)]\<rparr>"
  let ?f = "record_event EV_SequenceGrouped (rq_id (s_req (seq_at f m))) m ''grouped''
       (upd_seq m (dispatch_seq d tn) f)"
  have c: "calm f ?f"
    by (simp add: calm_def budget_upd dispatch_seq_def)
  have "reach rc f ?f"
    using Cons.prems by (intro reach_noise(1) r_into_rtranclp fstep.dispatch) auto
  moreover have "reach rc ?f g \<and> calm ?f g"
  proof (rule Cons.IH)
    have "dispatch_member tn m (d, f) = (?d, ?f)" by (simp add: dispatch_member_def)
    then show "fold (dispatch_member tn) ms (?d, ?f) = (d', g)"
      using Cons.prems(1) by simp
    show "\<not> budget_exhausted (s_budget (seq_at ?f m'))" if "m' \<in> set ms" for m'
      unfolding calm_budget [OF c] using Cons.prems(2) that by simp
    show "di_id ?d < fb_next_dispatch ?f"
      using Cons.prems(3) by simp
  qed
  ultimately show ?case using c by (auto intro: calm_trans rtranclp_trans)
qed auto

lemma worker_load_devices:
  "map (wd_device \<circ> snd) (umap_upd wid (\<lambda>w. w\<lparr>wd_active_reservations := h w\<rparr>) ws) = map (wd_device \<circ> snd) ws"
  unfolding umap_upd_def by (induction ws) auto

lemma less_succ: "unat (n :: u64) + 1 < 2 ^ 64 \<Longrightarrow> n < n + 1"
  by (simp add: word_less_nat_alt unat_word_ariths)

lemma issue_dispatch_reach:
  assumes "issue_dispatch tn g wid w res f = (d, h)"
    and "\<And>m. m \<in> set (fm_members g) \<Longrightarrow> \<not> budget_exhausted (s_budget (seq_at f m))"
    and "unat (fb_next_dispatch f) + 1 < 2 ^ 64"
  shows "reach rc f h \<and> calm (f\<lparr>fb_next_dispatch := fb_next_dispatch f + 1\<rparr>) h"
proof -
  let ?d0 = "\<lparr>di_id = fb_next_dispatch f, di_group = rv_group res, di_epoch = fb_epoch f,
               di_worker = wd_id w, di_worker_boot = umap_get 0 (fb_worker_current_boot f) (wd_id w),
               di_reservation = rv_id res, di_key = fm_key g, di_device = wd_device w,
               di_issued_at = tn, di_members = []\<rparr>"
  let ?f0 = "f\<lparr>fb_next_dispatch := fb_next_dispatch f + 1\<rparr>"
  let ?f1 = "?f0\<lparr>fb_worker_current_boot := (if umap_find (fb_worker_current_boot f) (wd_id w) = None
                  then umap_set (wd_id w) 0 (fb_worker_current_boot f) else fb_worker_current_boot f)\<rparr>"
  obtain d' f2 where fold: "fold (dispatch_member tn) (fm_members g) (?d0, ?f1) = (d', f2)" by force
  have at: "seq_at ?f1 m = seq_at f m" for m by (simp add: seq_at_def)
  have "reach rc ?f1 f2 \<and> calm ?f1 f2"
    by (rule dispatch_fold [OF fold]) (auto simp: at assms(2) less_succ [OF assms(3)])
  moreover have "reach rc f ?f1"
  proof (rule reach_core)
    show "reach rc f ?f0" using assms(3) by (intro r_into_rtranclp fstep.mint)
  qed (simp add: core_def)
  moreover have "h = record_event EV_DispatchIssued id_null id_null (dispatch_to_string d')
      (bump (\<lambda>st. st\<lparr>st_dispatch_issued := st_dispatch_issued st + 1\<rparr>)
        (f2\<lparr>fb_workers := umap_upd wid
           (\<lambda>w. w\<lparr>wd_active_reservations := wd_active_reservations w + 1\<rparr>) (fb_workers f2)\<rparr>))"
    using assms(1) fold by (auto simp: issue_dispatch_def Let_def)
  moreover from this have "core h = core f2"
    by (simp add: core_record_event) (simp add: core_def worker_load_devices)
  moreover have "calm ?f0 ?f1" by (simp add: calm_def seq_at_def)
  moreover have "calm f2 h" using \<open>core h = core f2\<close> coreD [OF \<open>core h = core f2\<close>] seq_at_core [OF \<open>core h = core f2\<close>]
    by (simp add: calm_def)
  ultimately show ?thesis
    by (meson calm_trans reach_core rtranclp_trans)
qed

lemma reserve_group_calm:
  "reserve_group tn w growth f = (res, g) \<Longrightarrow>
     calm (f\<lparr>fb_next_reservation := fb_next_reservation f + 1\<rparr>) g"
  by (auto simp: reserve_group_def Let_def calm_def seq_at_def)

lemma calm_counters: "calm (f\<lparr>fb_next_dispatch := n, fb_next_reservation := r\<rparr>) g \<Longrightarrow>
   fb_next_dispatch g = n \<and> fb_next_reservation g = r \<and> (\<forall>j. s_budget (seq_at g j) = s_budget (seq_at f j))"
  by (simp add: calm_def seq_at_def)

text \<open>Placing a group mints at most one dispatch and one reservation.\<close>

definition minted :: "nat \<Rightarrow> Fabric \<Rightarrow> Fabric \<Rightarrow> bool" where
  "minted n f h \<longleftrightarrow> map fst (fb_seqs h) = map fst (fb_seqs f) \<and> fb_next_grant h = fb_next_grant f \<and>
     unat (fb_next_dispatch f) \<le> unat (fb_next_dispatch h) \<and> unat (fb_next_dispatch h) \<le> unat (fb_next_dispatch f) + n \<and>
     unat (fb_next_reservation h) \<le> unat (fb_next_reservation f) + n"

lemma minted_trans: "minted m f g \<Longrightarrow> minted n g h \<Longrightarrow> minted (m + n) f h"
  by (auto simp: minted_def)

lemma minted_calm: "calm f g \<Longrightarrow> minted 0 f g"
  by (simp add: minted_def calm_def)

lemma minted_mono: "minted m f g \<Longrightarrow> m \<le> n \<Longrightarrow> minted n f g"
  by (auto simp: minted_def)

lemma place_group_reach:
  assumes "place_group tn g (out, f) = (out', h)"
    and "\<And>m. m \<in> set (fm_members g) \<Longrightarrow> \<not> budget_exhausted (s_budget (seq_at f m))"
    and "unat (fb_next_dispatch f) + 1 < 2 ^ 64" and "unat (fb_next_reservation f) + 1 < 2 ^ 64"
  shows "reach rc f h \<and> (\<forall>j. s_budget (seq_at h j) = s_budget (seq_at f j)) \<and>
     minted 1 f h"
proof (cases "fm_members g = [] \<or> choose_worker (fm_key g) f = None")
  case True
  then have "h = f \<or> h = revert_members (fm_members g) f"
    using assms(1) by (auto simp: place_group_def split: if_splits)
  then show ?thesis
    using revert_calm [of f "fm_members g"] reach_revert [OF reach_refl, of rc f "fm_members g"]
    by (auto simp: calm_def minted_def)
next
  case False
  then obtain wid w where w: "choose_worker (fm_key g) f = Some (wid, w)" and ne: "fm_members g \<noteq> []" by auto
  let ?dev = "dd_id (wd_device w)"
  let ?growth = "group_growth f (fm_members g)"
  let ?f1 = "f\<lparr>fb_dev_mem := (if umap_find (fb_dev_mem f) ?dev = None
     then umap_set ?dev default_DevMem (fb_dev_mem f) else fb_dev_mem f)\<rparr>"
  have r1: "reach rc f ?f1"
    by (cases "umap_find (fb_dev_mem f) ?dev = None") (auto intro: fstep.device)
  have c1: "calm f ?f1" by (simp add: calm_def seq_at_def)
  have dm: "umap_get default_DevMem (fb_dev_mem ?f1) ?dev = umap_get default_DevMem (fb_dev_mem f) ?dev"
    by (simp add: umap_get_def)
  show ?thesis
  proof (cases "memory_refused (umap_get default_DevMem (fb_dev_mem f) ?dev) ?growth")
    case True
    then have "h = record_event EV_BackpressureApplied id_null id_null ''memory_headroom''
        (revert_members (fm_members g) ?f1)"
      using assms(1) w ne by (simp add: place_group_def Let_def)
    then show ?thesis
      using calm_trans [OF c1 revert_calm [of ?f1 "fm_members g"]] reach_revert [OF r1, of "fm_members g"]
      by (auto simp: calm_def minted_def intro!: reach_intros)
  next
    case ok: False
    obtain res f2 where res: "reserve_group tn w ?growth ?f1 = (res, f2)" by force
    obtain d f3 where iss: "issue_dispatch tn g wid w res f2 = (d, f3)" by force
    have h: "h = f3" using assms(1) w ne ok res iss by (simp add: place_group_def Let_def)
    have "w \<in> set (map snd (fb_workers ?f1))" using choose_worker_mem [OF w] by force
    then have "reach rc ?f1 f2"
      using ok assms(4) fstep.reserve [of w ?f1 ?growth rc tn] dm res by simp
    moreover have c2: "calm (?f1\<lparr>fb_next_reservation := fb_next_reservation f + 1\<rparr>) f2"
      using reserve_group_calm [OF res] by simp
    have n2: "fb_next_dispatch f2 = fb_next_dispatch f" "fb_next_reservation f2 = fb_next_reservation f + 1"
      "\<And>j. s_budget (seq_at f2 j) = s_budget (seq_at f j)"
      using c2 by (simp_all add: calm_def seq_at_def)
    have "reach rc f2 f3 \<and> calm (f2\<lparr>fb_next_dispatch := fb_next_dispatch f2 + 1\<rparr>) f3"
      using assms(2,3) by (intro issue_dispatch_reach [OF iss]) (simp_all add: n2)
    moreover have "seq_at (f2\<lparr>fb_next_dispatch := n\<rparr>) j = seq_at f2 j" for n j by (simp add: seq_at_def)
    moreover have "unat (fb_next_dispatch f + 1) = unat (fb_next_dispatch f) + 1"
      using assms(3) by (simp add: unat_word_ariths)
    ultimately show ?thesis
      using r1 n2 c2 unat_add_one_le [of "fb_next_reservation f"]
      unfolding h calm_def minted_def by (auto intro: rtranclp_trans)
  qed
qed

lemma place_fold_reach:
  assumes "fold (place_group tn) gs (out, f) = (out', h)"
    and "\<And>m. m \<in> members_of gs \<Longrightarrow> \<not> budget_exhausted (s_budget (seq_at f m))"
    and "unat (fb_next_dispatch f) + length gs < 2 ^ 64" and "unat (fb_next_reservation f) + length gs < 2 ^ 64"
  shows "reach rc f h \<and> minted (length gs) f h"
  using assms
proof (induction gs arbitrary: out f)
  case (Cons g gs)
  obtain out1 f1 where one: "place_group tn g (out, f) = (out1, f1)" by force
  have "reach rc f f1 \<and> (\<forall>j. s_budget (seq_at f1 j) = s_budget (seq_at f j)) \<and> minted 1 f f1"
    using Cons.prems(2-4) by (intro place_group_reach [OF one]) (auto simp: members_of_def)
  moreover from this have "reach rc f1 h \<and> minted (length gs) f1 h"
    using Cons.prems one by (intro Cons.IH [of out1 f1]) (auto simp: members_of_def minted_def)
  ultimately show ?case using minted_trans [of 1 f f1 "length gs" h] by (auto intro: rtranclp_trans)
qed (simp add: minted_def)

lemma schedule_steps:
  assumes "unat (fb_next_dispatch f) + length (fb_seqs f) < 2 ^ 64"
    and "unat (fb_next_reservation f) + length (fb_seqs f) < 2 ^ 64"
  shows "reach rc f (snd (schedule tn f)) \<and> minted (length (fb_seqs f)) f (snd (schedule tn f))"
proof -
  obtain cs f1 where c: "candidates tn f = (cs, f1)" by force
  obtain fs f2 where g: "form_groups tn cs f1 = (fs, f2)" by force
  obtain out f3 where p: "fold (place_group tn) fs ([], f2) = (out, f3)" by force
  note cr = candidates_reach [OF c] and gr = form_groups_reach [OF g]
  have calm: "calm f f2" using cr(2) gr(2) by (rule calm_trans)
  have p3: "reach rc f2 f3 \<and> minted (length fs) f2 f3"
  proof (rule place_fold_reach [OF p])
    show "\<not> budget_exhausted (s_budget (seq_at f2 m))" if "m \<in> members_of fs" for m
      unfolding calm_budget [OF gr(2)] using that gr(4) cr(4) by auto
    show "unat (fb_next_dispatch f2) + length fs < 2 ^ 64"
      and "unat (fb_next_reservation f2) + length fs < 2 ^ 64"
      using assms calm gr(3) cr(3) by (auto simp: calm_def)
  qed
  then have "reach rc f f3" using cr(1) gr(1) by (meson rtranclp_trans)
  moreover have "minted (length (fb_seqs f)) f f3"
    using minted_trans [OF minted_calm [OF calm] conjunct2 [OF p3]] gr(3) cr(3) by (auto intro: minted_mono)
  ultimately show ?thesis by (simp add: schedule_def c g p reach_noise(6) minted_def)
qed

lemma reach_schedule:
  assumes "unat (fb_next_dispatch f) + length (fb_seqs f) < 2 ^ 64"
    and "unat (fb_next_reservation f) + length (fb_seqs f) < 2 ^ 64"
  shows "reach rc f (snd (schedule tn f))"
  using schedule_steps [OF assms] ..

end
