(* ===== verification/TokenLedger.thy ===== *)
theory TokenLedger
  imports FabricSteps
begin

text \<open>
  The accounting every fabric keeps, as invariants of the atomic steps.

  \<open>token_ok\<close> is the account of one sequence: its budget, its counters, its generation and its length
  are four views of one number, which never exceeds the budget; nothing is in flight once the budget
  is used up. \<open>ledger_ok\<close> ties the accounts to the grant ledger: every committed position of a sequence
  is backed by exactly one consumed grant, consecutive grants chain by their state digests, and the
  grant in flight is the next link.
\<close>

section \<open>The account of a sequence\<close>

definition token_ok :: "Seq \<Rightarrow> bool" where
  "token_ok s \<longleftrightarrow> budget_ok (s_budget s) \<and> tb_max (s_budget s) = rq_max_generation_length (s_req s) \<and>
     tb_generated (s_budget s) = s_generated s \<and> s_committed s = s_generated s \<and>
     rq_pregenerated (s_req s) \<le> s_committed s \<and>
     s_generation s = s_committed s - rq_pregenerated (s_req s) + 1 \<and>
     s_current_length s = rq_prompt_length (s_req s) + s_committed s \<and>
     (budget_exhausted (s_budget s) \<longrightarrow> s_in_flight_dispatch s = 0 \<and> \<not> s_has_inflight_grant s) \<and>
     (s_in_flight_dispatch s \<noteq> 0 \<longrightarrow> s_in_flight_generation s = s_generation s)"

lemma token_ok_quiet:
  assumes "token_ok s" and "quiet s s'"
  shows "token_ok s'"
proof -
  have t: "tokens s' = tokens s" and d: "s_in_flight_dispatch s' = 0 \<or>
      s_in_flight_dispatch s' = s_in_flight_dispatch s \<and> s_in_flight_generation s' = s_in_flight_generation s"
    and g: "s_has_inflight_grant s' \<longrightarrow> s_has_inflight_grant s"
    using assms(2) by (simp_all add: quiet_def)
  show ?thesis
    using assms(1) unfolding token_ok_def tokensD [OF t] by (elim conjE, intro conjI) (use d g in metis)+
qed

lemma token_ok_admitted:
  assumes "rq_pregenerated req \<le> rq_max_generation_length req"
  shows "token_ok (admitted_seq req)"
proof -
  have "budget_advanced p (new_budget m) = \<lparr>tb_max = m, tb_generated = p\<rparr>" if "p \<le> m" for p m :: u64
  proof -
    have "unat p \<le> unat m" "unat p < 2 ^ 64" using that unsigned_less [of p] by (simp_all add: word_le_nat_alt)
    then show ?thesis by (simp add: budget_advanced_def budget_advance_spec new_budget_def)
  qed
  from this [OF assms] show ?thesis
    using assms
    by (auto simp: token_ok_def admitted_seq_def Let_def default_Seq_def budget_ok_def new_budget_def word_gt_0)
qed

lemma rebase_ok:
  assumes "token_ok s"
  shows "rebase s = s" and "s\<lparr>s_generated := s_committed s\<rparr> = s"
proof -
  have c: "s_committed s = s_generated s" "tb_generated (s_budget s) = s_generated s"
    "tb_max (s_budget s) = rq_max_generation_length (s_req s)" "s_generated s \<le> tb_max (s_budget s)"
    using assms by (auto simp: token_ok_def budget_ok_def)
  let ?b = "budget_replay (unat (s_committed s)) (new_budget (rq_max_generation_length (s_req s)))"
  have "tb_max ?b = tb_max (s_budget s)" "unat (tb_generated ?b) = unat (tb_generated (s_budget s))"
    using c by (simp_all add: budget_replay_generated word_le_nat_alt)
  then have "?b = s_budget s" by (intro TokenBudget.equality) (simp_all add: word_unat_eq_iff)
  with c show "rebase s = s" "s\<lparr>s_generated := s_committed s\<rparr> = s" by (simp_all add: rebase_def)
qed

lemma token_ok_dispatch: "token_ok s \<Longrightarrow> \<not> budget_exhausted (s_budget s) \<Longrightarrow> token_ok (dispatch_seq d tn s)"
  by (auto simp: token_ok_def dispatch_seq_def)

lemma consumed_seq_simps [simp]:
  "s_req (consumed_seq rec fin s) = s_req s"
  "s_budget (consumed_seq rec fin s) = budget_advanced 1 (s_budget s)"
  "s_generated (consumed_seq rec fin s) = s_generated s + 1"
  "s_committed (consumed_seq rec fin s) = s_committed s + 1"
  "s_current_length (consumed_seq rec fin s) = s_current_length s + 1"
  "s_generation (consumed_seq rec fin s) = s_generation s + 1"
  "s_in_flight_dispatch (consumed_seq rec fin s) = 0"
  "\<not> s_has_inflight_grant (consumed_seq rec fin s)"
  "s_committed_state_digest (consumed_seq rec fin s) = mr_post_state_digest rec"
  "s_state_digest_established (consumed_seq rec fin s)"
  "s_accepted (consumed_seq rec fin s) = make_accepted rec True"
  "s_has_accepted (consumed_seq rec fin s)"
  "s_state (consumed_seq rec fin s) = s_state s"
  "s_reservation (consumed_seq rec fin s) = s_reservation s"
  by (simp_all add: consumed_seq_def Let_def chain_receipt_def advance_tokens_def clear_grant_def id_null_def)

lemma token_ok_live:
  assumes "token_ok s" and "\<not> budget_exhausted (s_budget s)"
  shows "s_generated s < rq_max_generation_length (s_req s)"
  using assms by (auto simp: token_ok_def budget_exhausted_def)

lemma token_ok_consumed:
  assumes "token_ok s" and "s_has_inflight_grant s"
  shows "token_ok (consumed_seq rec fin s)"
proof -
  have live: "\<not> budget_exhausted (s_budget s)" using assms by (auto simp: token_ok_def)
  have lt: "s_generated s < rq_max_generation_length (s_req s)"
    using assms(1) live by (rule token_ok_live)
  then have "s_generated s \<le> s_generated s + 1"
    using unat_add_one [OF lt] by (simp add: word_le_nat_alt)
  moreover have "budget_ok (budget_advanced 1 (s_budget s))"
    using assms(1) by (simp add: token_ok_def)
  ultimately show ?thesis
    using assms(1) budget_advanced_one(1) [OF live] by (auto simp: token_ok_def algebra_simps)
qed

lemma succ_less: "(p :: u64) < m \<Longrightarrow> x < p + 1 \<longleftrightarrow> x \<le> p"
  using unat_add_one [of p m] by (auto simp: word_less_nat_alt word_le_nat_alt)

section \<open>The grant ledger\<close>

definition consumed :: "(GrantId \<Rightarrow> GrantRecord option) \<Rightarrow> GrantId \<Rightarrow> CommitGrant \<Rightarrow> bool" where
  "consumed lg i g \<longleftrightarrow> (\<exists>gr. lg i = Some gr \<and> gr_status gr = 1 \<and> gr_grant gr = g)"

definition grants_wf :: "(GrantId \<Rightarrow> GrantRecord option) \<Rightarrow> u64 \<Rightarrow> bool" where
  "grants_wf lg n \<longleftrightarrow> (\<forall>i gr. lg i = Some gr \<longrightarrow> cg_grant_id (gr_grant gr) = i \<and> i < n \<and>
     gr_status gr \<in> {0, 1, 2} \<and> (gr_has_receipt gr \<longleftrightarrow> gr_status gr = 1) \<and>
     (gr_status gr = 1 \<longrightarrow> receipt_binds (gr_receipt gr) (gr_grant gr)))"

definition pends :: "(GrantId \<Rightarrow> GrantRecord option) \<Rightarrow> SequenceId \<Rightarrow> Seq \<Rightarrow> bool" where
  "pends lg k s \<longleftrightarrow> (\<exists>gr. lg (s_in_flight_grant s) = Some gr \<and> gr_status gr = 0 \<and>
     cg_sequence (gr_grant gr) = k \<and> cg_proposal (gr_grant gr) = s_in_flight_proposal s \<and>
     cg_committed_position (gr_grant gr) = s_generated s \<and>
     (s_state_digest_established s \<longrightarrow> cg_pre_state_digest (gr_grant gr) = s_committed_state_digest s))"

definition pending_ok :: "(SequenceId \<Rightarrow> Seq option) \<Rightarrow> (GrantId \<Rightarrow> GrantRecord option) \<Rightarrow> bool" where
  "pending_ok sq lg \<longleftrightarrow> (\<forall>k s. sq k = Some s \<longrightarrow> s_has_inflight_grant s \<longrightarrow> pends lg k s)"

definition consumed_in :: "(SequenceId \<Rightarrow> Seq option) \<Rightarrow> (GrantId \<Rightarrow> GrantRecord option) \<Rightarrow> bool" where
  "consumed_in sq lg \<longleftrightarrow> (\<forall>i g. consumed lg i g \<longrightarrow> (\<exists>s. sq (cg_sequence g) = Some s \<and>
     rq_pregenerated (s_req s) \<le> cg_committed_position g \<and> cg_committed_position g < s_committed s))"

definition consumed_inj :: "(GrantId \<Rightarrow> GrantRecord option) \<Rightarrow> bool" where
  "consumed_inj lg \<longleftrightarrow> (\<forall>i j g h. consumed lg i g \<longrightarrow> consumed lg j h \<longrightarrow>
     cg_sequence g = cg_sequence h \<longrightarrow> cg_committed_position g = cg_committed_position h \<longrightarrow> i = j)"

definition consumed_cover :: "(SequenceId \<Rightarrow> Seq option) \<Rightarrow> (GrantId \<Rightarrow> GrantRecord option) \<Rightarrow> bool" where
  "consumed_cover sq lg \<longleftrightarrow> (\<forall>k s p. sq k = Some s \<longrightarrow> rq_pregenerated (s_req s) \<le> p \<longrightarrow> p < s_committed s \<longrightarrow>
     (\<exists>i g. consumed lg i g \<and> cg_sequence g = k \<and> cg_committed_position g = p))"

definition chained :: "(GrantId \<Rightarrow> GrantRecord option) \<Rightarrow> bool" where
  "chained lg \<longleftrightarrow> (\<forall>i j g h. consumed lg i g \<longrightarrow> consumed lg j h \<longrightarrow> cg_sequence g = cg_sequence h \<longrightarrow>
     cg_committed_position h = cg_committed_position g + 1 \<longrightarrow>
     cg_pre_state_digest h = cg_post_state_digest g)"

definition tip_ok :: "(SequenceId \<Rightarrow> Seq option) \<Rightarrow> (GrantId \<Rightarrow> GrantRecord option) \<Rightarrow> bool" where
  "tip_ok sq lg \<longleftrightarrow> (\<forall>k s i g. sq k = Some s \<longrightarrow> consumed lg i g \<longrightarrow> cg_sequence g = k \<longrightarrow>
     cg_committed_position g + 1 = s_committed s \<longrightarrow>
     s_state_digest_established s \<and> s_committed_state_digest s = cg_post_state_digest g)"

definition ledger_ok where
  "ledger_ok sq lg n \<longleftrightarrow> grants_wf lg n \<and> pending_ok sq lg \<and> consumed_in sq lg \<and> consumed_inj lg \<and>
     consumed_cover sq lg \<and> chained lg \<and> tip_ok sq lg"

lemma ledger_okD:
  assumes "ledger_ok sq lg n"
  shows "grants_wf lg n" "pending_ok sq lg" "consumed_in sq lg" "consumed_inj lg" "consumed_cover sq lg"
    "chained lg" "tip_ok sq lg"
  using assms by (simp_all add: ledger_ok_def)

lemma consumed_inD:
  assumes "consumed_in sq lg" and "consumed lg i g"
  obtains s where "sq (cg_sequence g) = Some s" "rq_pregenerated (s_req s) \<le> cg_committed_position g"
    "cg_committed_position g < s_committed s"
  using assms unfolding consumed_in_def by blast

lemma consumed_coverD:
  assumes "consumed_cover sq lg" and "sq k = Some s" and "rq_pregenerated (s_req s) \<le> p" and "p < s_committed s"
  obtains i g where "consumed lg i g" "cg_sequence g = k" "cg_committed_position g = p"
  using assms unfolding consumed_cover_def by blast

lemma tip_okD:
  assumes "tip_ok sq lg" and "sq (cg_sequence g) = Some s" and "consumed lg i g"
    and "cg_committed_position g + 1 = s_committed s"
  shows "s_state_digest_established s" "s_committed_state_digest s = cg_post_state_digest g"
  using assms unfolding tip_ok_def by blast+

text \<open>Rewriting one account without moving its tokens, and dropping its grant or not.\<close>

lemma account_history:
  assumes l: "ledger_ok sq lg n" and k: "sq k = Some s" and t: "tokens s' = tokens s"
  shows "consumed_in (sq(k \<mapsto> s')) lg" "consumed_cover (sq(k \<mapsto> s')) lg" "tip_ok (sq(k \<mapsto> s')) lg"
proof -
  note L = ledger_okD [OF l] and T = tokensD [OF t]
  show "consumed_in (sq(k \<mapsto> s')) lg"
    unfolding consumed_in_def
  proof (intro allI impI)
    fix i g assume "consumed lg i g"
    then obtain r where "sq (cg_sequence g) = Some r" "rq_pregenerated (s_req r) \<le> cg_committed_position g"
      "cg_committed_position g < s_committed r"
      by (rule consumed_inD [OF L(3)])
    then show "\<exists>r. (sq(k \<mapsto> s')) (cg_sequence g) = Some r \<and> rq_pregenerated (s_req r) \<le> cg_committed_position g \<and>
        cg_committed_position g < s_committed r"
      using k T(1,5) by (cases "cg_sequence g = k") auto
  qed
  show "consumed_cover (sq(k \<mapsto> s')) lg"
    using L(5) k unfolding consumed_cover_def by (metis T(1,5) fun_upd_apply option.inject)
  show "tip_ok (sq(k \<mapsto> s')) lg"
    using L(7) k unfolding tip_ok_def by (metis T(5,7,8) fun_upd_apply option.inject)
qed

lemma ledger_ok_account:
  assumes l: "ledger_ok sq lg n" and k: "sq k = Some s" and t: "tokens s' = tokens s"
    and g: "s_has_inflight_grant s' \<longrightarrow> s_has_inflight_grant s \<and> s_in_flight_grant s' = s_in_flight_grant s \<and>
      s_in_flight_proposal s' = s_in_flight_proposal s"
  shows "ledger_ok (sq(k \<mapsto> s')) lg n"
proof -
  note L = ledger_okD [OF l]
  have "pends lg k s \<Longrightarrow> s_has_inflight_grant s' \<Longrightarrow> pends lg k s'"
    using g tokensD [OF t] by (simp add: pends_def)
  then have "pending_ok (sq(k \<mapsto> s')) lg"
    using L(2) g k by (simp add: pending_ok_def)
  then show ?thesis using L account_history [OF l k t] by (simp add: ledger_ok_def)
qed

lemma ledger_ok_admit:
  assumes l: "ledger_ok sq lg n" and k: "sq k = None"
    and s: "s_committed s = rq_pregenerated (s_req s)" "\<not> s_has_inflight_grant s"
  shows "ledger_ok (sq(k \<mapsto> s)) lg n"
proof -
  note L = ledger_okD [OF l]
  have none: "cg_sequence g \<noteq> k" if "consumed lg i g" for i g
    using consumed_inD [OF L(3) that] k by (metis option.distinct(1))
  have "pending_ok (sq(k \<mapsto> s)) lg" using L(2) s(2) by (simp add: pending_ok_def)
  moreover have "consumed_in (sq(k \<mapsto> s)) lg"
    using L(3) none unfolding consumed_in_def by (metis fun_upd_other)
  moreover have "consumed_cover (sq(k \<mapsto> s)) lg"
    using L(5) s(1) unfolding consumed_cover_def by (metis fun_upd_apply leD option.inject)
  moreover have "tip_ok (sq(k \<mapsto> s)) lg"
    using L(7) none unfolding tip_ok_def by (metis fun_upd_other)
  ultimately show ?thesis using L by (simp add: ledger_ok_def)
qed

text \<open>A pending record does not count as consumed: adding or aborting one changes no history.\<close>

lemma consumed_upd:
  "gr_status gr \<noteq> 1 \<Longrightarrow> (\<And>r. lg i = Some r \<Longrightarrow> gr_status r \<noteq> 1) \<Longrightarrow> consumed (lg(i \<mapsto> gr)) j g \<longleftrightarrow> consumed lg j g"
  by (auto simp: consumed_def)


lemma ledger_ok_consumed_cong:
  assumes "\<And>j h. consumed lg' j h \<longleftrightarrow> consumed lg j h"
  shows "consumed_in sq lg' = consumed_in sq lg" "consumed_inj lg' = consumed_inj lg"
    "consumed_cover sq lg' = consumed_cover sq lg" "chained lg' = chained lg" "tip_ok sq lg' = tip_ok sq lg"
  unfolding consumed_in_def consumed_inj_def consumed_cover_def chained_def tip_ok_def assms by simp_all

lemma pending_okD: "pending_ok sq lg \<Longrightarrow> sq k = Some s \<Longrightarrow> s_has_inflight_grant s \<Longrightarrow> pends lg k s"
  by (simp add: pending_ok_def)

lemma pends_other:
  assumes "pends lg k s" and "lg i = Some gr" and "cg_sequence (gr_grant gr) \<noteq> k"
  shows "pends (lg(i := r)) k s"
  using assms by (auto simp: pends_def)

lemma pends_fresh: "pends lg k s \<Longrightarrow> lg i = None \<Longrightarrow> pends (lg(i := r)) k s"
  by (auto simp: pends_def)

lemma ledger_ok_issue:
  assumes l: "ledger_ok sq lg n" and k: "sq k = Some s" and g: "cg_grant_id g = n" "cg_sequence g = k"
    "cg_committed_position g = s_generated s"
    and d: "s_state_digest_established s \<Longrightarrow> cg_pre_state_digest g = s_committed_state_digest s"
    and n: "unat n + 1 < 2 ^ 64" and s': "tokens s' = tokens s" "s_in_flight_grant s' = n"
    "s_in_flight_proposal s' = cg_proposal g"
  shows "ledger_ok (sq(k \<mapsto> s')) (lg(n \<mapsto> fresh_grant g)) (n + 1)"
proof -
  note L = ledger_okD [OF l] and T = tokensD [OF s'(1)]
  have lt: "n < n + 1" using n by (rule less_succ)
  have below: "i < n" if "lg i = Some gr" for i gr using L(1) that by (simp add: grants_wf_def)
  then have fresh: "lg n = None" by (cases "lg n") auto
  have hist: "consumed (lg(n \<mapsto> fresh_grant g)) j h \<longleftrightarrow> consumed lg j h" for j h
    by (rule consumed_upd) (simp_all add: fresh_grant_def fresh)
  have "grants_wf (lg(n \<mapsto> fresh_grant g)) (n + 1)"
    using L(1) lt g(1) below less_trans [OF below lt] by (auto simp: grants_wf_def fresh_grant_def)
  moreover have "pends (lg(n \<mapsto> fresh_grant g)) k s'"
    using g d T s' by (simp add: pends_def fresh_grant_def)
  then have "pending_ok (sq(k \<mapsto> s')) (lg(n \<mapsto> fresh_grant g))"
    unfolding pending_ok_def by (auto intro: pends_fresh [OF pending_okD [OF L(2)] fresh])
  ultimately show ?thesis
    using L account_history [OF l k s'(1)] by (simp add: ledger_ok_def ledger_ok_consumed_cong [OF hist])
qed

lemma ledger_ok_abort:
  assumes l: "ledger_ok sq lg n" and k: "sq k = Some s" and h: "s_has_inflight_grant s"
    and gr: "lg (s_in_flight_grant s) = Some gr"
    and s': "tokens s' = tokens s" "\<not> s_has_inflight_grant s'"
  shows "ledger_ok (sq(k \<mapsto> s')) (lg(s_in_flight_grant s \<mapsto> gr\<lparr>gr_status := 2\<rparr>)) n"
proof -
  let ?lg = "lg(s_in_flight_grant s \<mapsto> gr\<lparr>gr_status := 2\<rparr>)"
  note L = ledger_okD [OF l]
  have p: "gr_status gr = 0" "cg_sequence (gr_grant gr) = k"
    using pending_okD [OF L(2) k h] gr by (auto simp: pends_def)
  have hist: "consumed ?lg j h \<longleftrightarrow> consumed lg j h" for j h
    by (rule consumed_upd) (simp_all add: gr p)
  have l': "ledger_ok (sq(k \<mapsto> s')) lg n"
    using l k s' by (intro ledger_ok_account) simp_all
  note L' = ledger_okD [OF l']
  have "grants_wf ?lg n"
    using L(1) gr p(1) by (auto simp: grants_wf_def)
  moreover have "pending_ok (sq(k \<mapsto> s')) ?lg"
    unfolding pending_ok_def
  proof (intro allI impI)
    fix k' t assume t: "(sq(k \<mapsto> s')) k' = Some t" "s_has_inflight_grant t"
    then have "k' \<noteq> k" using s'(2) by auto
    then show "pends ?lg k' t"
      using pending_okD [OF L'(2) t] p(2) gr by (intro pends_other) auto
  qed
  ultimately show ?thesis
    using L' by (simp add: ledger_ok_def ledger_ok_consumed_cong [OF hist])
qed


text \<open>The step that matters: the in-flight grant is consumed, the account moves one position on, and
  the new link joins the tip of the chain. \<open>extends_by\<close> says that one grant joins the history.\<close>

definition extends_by where
  "extends_by lg lg' i g \<longleftrightarrow> (\<forall>j x. consumed lg' j x \<longleftrightarrow> consumed lg j x \<or> (j = i \<and> x = g))"

lemma extends_byD: "extends_by lg lg' i g \<Longrightarrow> consumed lg' j x \<Longrightarrow> consumed lg j x \<or> (j = i \<and> x = g)"
  by (simp add: extends_by_def)

lemma consumed_below:
  assumes "consumed_in sq lg" and "sq k = Some s" and "consumed lg j x" and "cg_sequence x = k"
  shows "cg_committed_position x < s_committed s" "rq_pregenerated (s_req s) \<le> cg_committed_position x"
  using assms unfolding consumed_in_def by fastforce+

lemma extend_in:
  assumes l: "consumed_in sq lg" and k: "sq k = Some s" and e: "extends_by lg lg' i g"
    and g: "cg_sequence g = k" "cg_committed_position g = s_committed s"
    and live: "s_committed s < m" "rq_pregenerated (s_req s) \<le> s_committed s"
    and s': "s_committed s' = s_committed s + 1" "s_req s' = s_req s"
  shows "consumed_in (sq(k \<mapsto> s')) lg'"
  unfolding consumed_in_def
proof (intro allI impI)
  fix j x assume "consumed lg' j x"
  then consider "consumed lg j x" | "x = g" using extends_byD [OF e] by blast
  then show "\<exists>r. (sq(k \<mapsto> s')) (cg_sequence x) = Some r \<and>
      rq_pregenerated (s_req r) \<le> cg_committed_position x \<and> cg_committed_position x < s_committed r"
  proof cases
    case 1
    obtain r where "sq (cg_sequence x) = Some r" "rq_pregenerated (s_req r) \<le> cg_committed_position x"
      "cg_committed_position x < s_committed r" by (rule consumed_inD [OF l 1])
    then show ?thesis
      using k s' succ_less [OF live(1), of "cg_committed_position x"]
      by (cases "cg_sequence x = k") (auto simp: le_less)
  qed (use g s' live succ_less [OF live(1)] in simp)
qed

lemma extend_inj:
  assumes l: "consumed_in sq lg" "consumed_inj lg" and k: "sq k = Some s" and e: "extends_by lg lg' i g"
    and g: "cg_sequence g = k" "cg_committed_position g = s_committed s"
  shows "consumed_inj lg'"
  unfolding consumed_inj_def
proof (intro allI impI)
  fix j j' x y
  assume c: "consumed lg' j x" "consumed lg' j' y" and
    xy: "cg_sequence x = cg_sequence y" "cg_committed_position x = cg_committed_position y"
  consider "consumed lg j x" "consumed lg j' y" | "consumed lg j x" "y = g" | "x = g" "consumed lg j' y" | "j = i" "j' = i"
    using extends_byD [OF e c(1)] extends_byD [OF e c(2)] by blast
  then show "j = j'"
    using l(2) xy g consumed_below(1) [OF l(1) k, of j x] consumed_below(1) [OF l(1) k, of j' y]
    by cases (auto simp: consumed_inj_def)
qed

lemma extend_cover:
  assumes l: "consumed_cover sq lg" and k: "sq k = Some s" and e: "extends_by lg lg' i g"
    and g: "cg_sequence g = k" "cg_committed_position g = s_committed s" and live: "s_committed s < m"
    and s': "s_committed s' = s_committed s + 1" "s_req s' = s_req s"
  shows "consumed_cover (sq(k \<mapsto> s')) lg'"
  unfolding consumed_cover_def
proof (intro allI impI)
  fix k' r q
  assume r: "(sq(k \<mapsto> s')) k' = Some r" "rq_pregenerated (s_req r) \<le> q" "q < s_committed r"
  show "\<exists>j x. consumed lg' j x \<and> cg_sequence x = k' \<and> cg_committed_position x = q"
  proof (cases "k' = k \<and> q = s_committed s")
    case True
    then show ?thesis using e g by (auto simp: extends_by_def)
  next
    case False
    then obtain r' where "sq k' = Some r'" "rq_pregenerated (s_req r') \<le> q" "q < s_committed r'"
      using r k s' succ_less [OF live, of q] by (cases "k' = k") (auto simp: le_less)
    then show ?thesis using consumed_coverD [OF l] e unfolding extends_by_def by metis
  qed
qed

lemma extend_chained:
  assumes l: "consumed_in sq lg" "chained lg" "tip_ok sq lg" and k: "sq k = Some s" and e: "extends_by lg lg' i g"
    and g: "cg_sequence g = k" "cg_committed_position g = s_committed s" and live: "s_committed s < m"
    and d: "s_state_digest_established s \<longrightarrow> cg_pre_state_digest g = s_committed_state_digest s"
  shows "chained lg'"
  unfolding chained_def
proof (intro allI impI)
  fix j j' x y
  assume c: "consumed lg' j x" "consumed lg' j' y" and
    xy: "cg_sequence x = cg_sequence y" "cg_committed_position y = cg_committed_position x + 1"
  have no: "\<not> s_committed s + 1 < s_committed s" "s_committed s + 1 \<noteq> s_committed s"
    using succ_less [OF live, of "s_committed s"] by auto
  consider "consumed lg j x" "consumed lg j' y" | "consumed lg j x" "y = g" | "x = g" "consumed lg j' y" | "x = g" "y = g"
    using extends_byD [OF e c(1)] extends_byD [OF e c(2)] by blast
  then show "cg_pre_state_digest y = cg_post_state_digest x"
  proof cases
    case 2
    then show ?thesis using tip_okD [OF l(3), of x s j] xy g k d by simp
  qed (use l(2) xy g no consumed_below(1) [OF l(1) k, of j' y] in \<open>auto simp: chained_def\<close>)
qed

lemma extend_tip:
  assumes l: "consumed_in sq lg" "tip_ok sq lg" and k: "sq k = Some s" and e: "extends_by lg lg' i g"
    and g: "cg_sequence g = k"
    and s': "s_committed s' = s_committed s + 1" "s_state_digest_established s'"
      "s_committed_state_digest s' = cg_post_state_digest g"
  shows "tip_ok (sq(k \<mapsto> s')) lg'"
  unfolding tip_ok_def
proof (intro allI impI)
  fix k' r j x
  assume r: "(sq(k \<mapsto> s')) k' = Some r" and x: "consumed lg' j x" "cg_sequence x = k'"
    "cg_committed_position x + 1 = s_committed r"
  show "s_state_digest_established r \<and> s_committed_state_digest r = cg_post_state_digest x"
  proof (cases "k' = k")
    case True
    then have "\<not> consumed lg j x"
      using consumed_below(1) [OF l(1) k, of j x] x r s'(1) by auto
    with True r extends_byD [OF e x(1)] s' show ?thesis by auto
  next
    case False
    then show ?thesis using r x extends_byD [OF e x(1)] l(2) g by (auto simp: tip_ok_def)
  qed
qed

lemma ledger_ok_consume:
  assumes l: "ledger_ok sq lg n" and k: "sq k = Some s" and t: "token_ok s" and h: "s_has_inflight_grant s"
    and gr: "lg (s_in_flight_grant s) = Some gr" and rec: "receipt_binds rec (gr_grant gr)"
  shows "ledger_ok (sq(k \<mapsto> consumed_seq rec fin s))
    (lg(s_in_flight_grant s \<mapsto> gr\<lparr>gr_status := 1, gr_receipt := rec, gr_has_receipt := True\<rparr>)) n"
    (is "ledger_ok ?sq ?lg n")
proof -
  note L = ledger_okD [OF l]
  have p: "gr_status gr = 0" "cg_sequence (gr_grant gr) = k" "cg_committed_position (gr_grant gr) = s_committed s"
    "s_state_digest_established s \<longrightarrow> cg_pre_state_digest (gr_grant gr) = s_committed_state_digest s"
    using pending_okD [OF L(2) k h] gr t by (auto simp: pends_def token_ok_def)
  have live: "s_committed s < rq_max_generation_length (s_req s)" "rq_pregenerated (s_req s) \<le> s_committed s"
    using t h token_ok_live [OF t] by (auto simp: token_ok_def)
  have e: "extends_by lg ?lg (s_in_flight_grant s) (gr_grant gr)"
    using gr p(1) by (auto simp: extends_by_def consumed_def)
  have post: "s_committed_state_digest (consumed_seq rec fin s) = cg_post_state_digest (gr_grant gr)"
    using rec by (simp add: receipt_binds_def)
  have "grants_wf ?lg n" using L(1) gr rec by (auto simp: grants_wf_def)
  moreover have "pending_ok ?sq ?lg"
    unfolding pending_ok_def
  proof (intro allI impI)
    fix k' u assume u: "?sq k' = Some u" "s_has_inflight_grant u"
    then have "k' \<noteq> k" by auto
    then show "pends ?lg k' u"
      using pending_okD [OF L(2), of k' u] u p(2) gr by (intro pends_other) auto
  qed
  ultimately show ?thesis
    unfolding ledger_ok_def
    using extend_in [OF L(3) k e p(2,3) live] extend_inj [OF L(3,4) k e p(2,3)]
      extend_cover [OF L(5) k e p(2,3) live(1)] extend_chained [OF L(3,6,7) k e p(2,3) live(1) p(4)]
      extend_tip [OF L(3,7) k e p(2) _ _ post] by simp
qed

end
