(* ===== verification/FabricRun.thy ===== *)
theory FabricRun
  imports TokenLedger
begin

text \<open>
  Runs of the fabric: any sequence of its public operations, with arbitrary arguments and clock, and
  with its containers rehashed at any point between two operations. The invariants of the atomic steps hold throughout
  every run.
\<close>

section \<open>Operations and runs\<close>

datatype fab_op =
    Submit DecodeRequest | Cancel SequenceId | CancelRequest RequestId | Retry SequenceId
  | RegisterWorker WorkerDescriptor | MarkWorkerDead WorkerId | RollEpoch | Advance TimePoint
  | Schedule TimePoint | ApplyCompletion DecodeExecutionResult | AuthorizePrepared PreparedDecode
  | ApplyCommitReceipt ReceiptDecode | AbortPrep AbortPrepared | Now

primrec perform :: "fab_op \<Rightarrow> Fabric \<Rightarrow> Fabric" where
  "perform (Submit req) f = snd (submit req f)"
| "perform (Cancel k) f = snd (cancel k f)"
| "perform (CancelRequest r) f = snd (cancel_request r f)"
| "perform (Retry k) f = snd (retry k f)"
| "perform (RegisterWorker wd) f = snd (register_worker wd f)"
| "perform (MarkWorkerDead w) f = snd (mark_worker_dead w f)"
| "perform RollEpoch f = snd (roll_epoch f)"
| "perform (Advance tn) f = snd (advance tn f)"
| "perform (Schedule tn) f = snd (schedule tn f)"
| "perform (ApplyCompletion r) f = snd (apply_completion r f)"
| "perform (AuthorizePrepared pd) f = snd (authorize_prepared pd f)"
| "perform (ApplyCommitReceipt rd) f = snd (apply_commit_receipt rd f)"
| "perform (AbortPrep ab) f = snd (abort_prepared ab f)"
| "perform Now f = snd (tick f)"

text \<open>What the environment must respect: the 64-bit id counters have room for the ids an operation can
  mint, a registered device has memory, and a prepared member names a dispatch (id \<open>0\<close> is the null id,
  which is also what an idle sequence holds).\<close>

fun permitted :: "fab_op \<Rightarrow> Fabric \<Rightarrow> bool" where
  "permitted (RegisterWorker wd) f \<longleftrightarrow> dd_memory_bytes (wd_device wd) > 0"
| "permitted (Schedule tn) f \<longleftrightarrow> unat (fb_next_dispatch f) + length (fb_seqs f) < 2 ^ 64 \<and>
     unat (fb_next_reservation f) + length (fb_seqs f) < 2 ^ 64"
| "permitted (AuthorizePrepared pd) f \<longleftrightarrow> list_all (\<lambda>pm. pm_dispatch pm \<noteq> 0) (pd_members pd) \<and>
     unat (fb_next_grant f) + length (pd_members pd) < 2 ^ 64"
| "permitted _ f \<longleftrightarrow> True"

inductive fab_run :: "Config \<Rightarrow> (nat \<Rightarrow> TimePoint) \<Rightarrow> Fabric \<Rightarrow> bool" for cfg clock where
  start: "fab_run cfg clock (new_Fabric cfg clock)"
| op: "fab_run cfg clock f \<Longrightarrow> permitted x f \<Longrightarrow> fab_run cfg clock (perform x f)"
| moved: "fab_run cfg clock f \<Longrightarrow> rehashed f f' \<Longrightarrow> fab_run cfg clock f'"

fun commits :: "fab_op \<Rightarrow> bool" where
  "commits (ApplyCommitReceipt rd) = True"
| "commits _ = False"

lemma perform_steps: "permitted x f \<Longrightarrow> commits x \<longrightarrow> rc \<Longrightarrow> reach rc f (perform x f)"
  by (cases x)
    (simp_all add: reach_submit reach_cancel reach_cancel_request reach_retry reach_register
      reach_mark_worker_dead reach_roll_epoch reach_advance reach_schedule reach_apply_completion
      reach_authorize_prepared reach_apply_commit_receipt reach_abort_prepared reach_noise list_all_iff)

lemma perform_reach: "permitted x f \<Longrightarrow> reach True f (perform x f)"
  by (simp add: perform_steps)

lemma perform_quiet: "permitted x f \<Longrightarrow> \<not> commits x \<Longrightarrow> reach False f (perform x f)"
  by (simp add: perform_steps)

text \<open>A list of operations performed one after the other, each permitted when its turn comes.\<close>

fun performs :: "fab_op list \<Rightarrow> Fabric \<Rightarrow> Fabric option" where
  "performs [] f = Some f"
| "performs (x # xs) f = (if permitted x f then performs xs (perform x f) else None)"

lemma performs_run: "fab_run cfg clock f \<Longrightarrow> performs xs f = Some g \<Longrightarrow> fab_run cfg clock g"
  by (induction xs arbitrary: f) (auto intro: fab_run.op split: if_splits)

locale fabric_invariant =
  fixes I :: "Fabric \<Rightarrow> bool"
  assumes initial: "I (new_Fabric cfg clock)"
    and preserved: "I f \<Longrightarrow> fstep rc f g \<Longrightarrow> I g"
begin

lemma reach_invariant: "reach rc f g \<Longrightarrow> I f \<Longrightarrow> I g"
  by (induction rule: rtranclp_induct) (auto intro: preserved)

lemma perform_invariant: "I f \<Longrightarrow> permitted x f \<Longrightarrow> I (perform x f)"
  using reach_invariant [OF perform_reach] .

lemma run_invariant: "fab_run cfg clock f \<Longrightarrow> I f"
  by (induction rule: fab_run.induct) (auto intro: initial perform_invariant preserved fstep.rehash)

end

section \<open>The books are kept\<close>

definition books_ok :: "Fabric \<Rightarrow> bool" where
  "books_ok f \<longleftrightarrow> umap_ok (fb_seqs f) \<and> umap_ok (fb_grant_ledger f) \<and>
     (\<forall>k s. umap_find (fb_seqs f) k = Some s \<longrightarrow> token_ok s) \<and>
     ledger_ok (umap_find (fb_seqs f)) (umap_find (fb_grant_ledger f)) (fb_next_grant f)"

lemma books_okD:
  assumes "books_ok f"
  shows "umap_ok (fb_seqs f)" "umap_ok (fb_grant_ledger f)"
    "umap_find (fb_seqs f) k = Some s \<Longrightarrow> token_ok s"
    "ledger_ok (umap_find (fb_seqs f)) (umap_find (fb_grant_ledger f)) (fb_next_grant f)"
  using assms by (simp_all add: books_ok_def)

lemma find_upd_fun:
  "umap_find (umap_upd k g m) = (umap_find m)(k := map_option g (umap_find m k))"
  "umap_find (umap_set k v m) = (umap_find m)(k \<mapsto> v)"
  by (auto simp: fun_eq_iff)

text \<open>Any rewriting of one sequence, given what it does to its account and to the ledger.\<close>

lemma books_ok_upd:
  assumes "books_ok f"
    and "\<And>s. umap_find (fb_seqs f) k = Some s \<Longrightarrow> token_ok s \<Longrightarrow> token_ok (g s) \<and>
      ledger_ok ((umap_find (fb_seqs f))(k \<mapsto> g s)) (umap_find lg) n"
    and "umap_ok lg" and "umap_find (fb_seqs f) k = None \<Longrightarrow> lg = fb_grant_ledger f \<and> n = fb_next_grant f"
    and "fb_seqs f' = umap_upd k g (fb_seqs f)" "fb_grant_ledger f' = lg" "fb_next_grant f' = n"
  shows "books_ok f'"
proof (cases "umap_find (fb_seqs f) k")
  case None
  then have "umap_upd k g (fb_seqs f) = fb_seqs f" by (intro umap_upd_id) simp
  with None assms show ?thesis by (simp add: books_ok_def)
next
  case (Some s)
  then show ?thesis
    using assms books_okD [OF assms(1)] by (auto simp: books_ok_def find_upd_fun)
qed

lemma books_ok_same:
  "books_ok f \<Longrightarrow> fb_seqs f' = fb_seqs f \<Longrightarrow> fb_grant_ledger f' = fb_grant_ledger f \<Longrightarrow>
   fb_next_grant f' = fb_next_grant f \<Longrightarrow> books_ok f'"
  by (simp add: books_ok_def)

lemma books_ok_tokens:
  assumes "books_ok f" and "\<And>s. umap_find (fb_seqs f) k = Some s \<Longrightarrow> token_ok s \<Longrightarrow>
      token_ok (g s) \<and> tokens (g s) = tokens s \<and> (s_has_inflight_grant (g s) \<longrightarrow> s_has_inflight_grant s \<and>
      s_in_flight_grant (g s) = s_in_flight_grant s \<and> s_in_flight_proposal (g s) = s_in_flight_proposal s)"
  shows "books_ok (upd_seq k g f)"
  by (rule books_ok_upd [OF assms(1), of k g])
    (use assms(2) books_okD [OF assms(1)] in \<open>auto intro!: ledger_ok_account\<close>)

lemma rehashed_books:
  assumes "books_ok f" and "rehashed f f'"
  shows "books_ok f'"
proof -
  obtain ss ds rs gs ws where f': "f' = f\<lparr>fb_seqs := ss, fb_dev_mem := ds, fb_reservations := rs,
      fb_grant_ledger := gs, fb_workers := ws\<rparr>"
    and m: "mset ss = mset (fb_seqs f)" "mset gs = mset (fb_grant_ledger f)"
    using assms(2) by (auto simp: rehashed_def)
  note B = books_okD [OF assms(1)]
  have "umap_find ss = umap_find (fb_seqs f)" "umap_find gs = umap_find (fb_grant_ledger f)"
    using umap_find_perm(2) [OF B(1) m(1)] umap_find_perm(2) [OF B(2) m(2)] by (simp_all add: fun_eq_iff)
  then show ?thesis
    using umap_find_perm(1) [OF B(1) m(1)] umap_find_perm(1) [OF B(2) m(2)] B unfolding f' books_ok_def by simp
qed


lemma admitted_seq_simps [simp]:
  "s_req (admitted_seq req) = req" "s_committed (admitted_seq req) = rq_pregenerated req"
  "\<not> s_has_inflight_grant (admitted_seq req)" "s_in_flight_dispatch (admitted_seq req) = 0"
  "s_machine (admitted_seq req) = ST_Ready"
  by (auto simp: admitted_seq_def default_Seq_def Let_def word_gt_0)

lemma books_ok_admit:
  assumes "books_ok f" and "umap_find (fb_seqs f) k = None" and "rq_pregenerated req \<le> rq_max_generation_length req"
  shows "books_ok (f\<lparr>fb_seqs := umap_set k (admitted_seq req) (fb_seqs f)\<rparr>)"
  using books_okD [OF assms(1)] token_ok_admitted [OF assms(3)] assms(2)
  by (auto simp: books_ok_def find_upd_fun intro!: ledger_ok_admit)

lemma books_ok_issue:
  assumes "books_ok f" and "umap_find (fb_seqs f) k = Some s" and "s_in_flight_dispatch s \<noteq> 0"
    and "cg_grant_id g = fb_next_grant f" "cg_sequence g = k" "cg_committed_position g = s_generated s"
    and "s_state_digest_established s \<Longrightarrow> cg_pre_state_digest g = s_committed_state_digest s"
    and "unat (fb_next_grant f) + 1 < 2 ^ 64"
  shows "books_ok (upd_seq k (\<lambda>s. s\<lparr>s_in_flight_grant := cg_grant_id g, s_has_inflight_grant := True,
        s_in_flight_proposal := cg_proposal g, s_in_flight_position := cg_committed_position g\<rparr>)
      (f\<lparr>fb_next_grant := fb_next_grant f + 1,
         fb_grant_ledger := umap_set (cg_grant_id g) (fresh_grant g) (fb_grant_ledger f)\<rparr>))"
proof (rule books_ok_upd [OF assms(1), of k])
  let ?g = "\<lambda>s. s\<lparr>s_in_flight_grant := cg_grant_id g, s_has_inflight_grant := True,
        s_in_flight_proposal := cg_proposal g, s_in_flight_position := cg_committed_position g\<rparr>"
  show "umap_ok (umap_set (cg_grant_id g) (fresh_grant g) (fb_grant_ledger f))"
    using books_okD(2) [OF assms(1)] by simp
  fix t assume "umap_find (fb_seqs f) k = Some t" "token_ok t"
  then have t: "t = s" "token_ok s" using assms(2) by auto
  then have "token_ok (?g s)" using assms(3) by (auto simp: token_ok_def)
  moreover have "ledger_ok ((umap_find (fb_seqs f))(k \<mapsto> ?g s))
     ((umap_find (fb_grant_ledger f))(fb_next_grant f \<mapsto> fresh_grant g)) (fb_next_grant f + 1)"
    using assms books_okD(4) [OF assms(1)] by (intro ledger_ok_issue) (simp_all add: tokens_def)
  ultimately show "token_ok (?g t) \<and> ledger_ok ((umap_find (fb_seqs f))(k \<mapsto> ?g t))
     (umap_find (umap_set (cg_grant_id g) (fresh_grant g) (fb_grant_ledger f))) (fb_next_grant f + 1)"
    by (simp add: t(1) find_upd_fun assms(4))
qed (use assms(2) in simp_all)

lemma books_ok_consume:
  assumes "books_ok f" and "umap_find (fb_seqs f) (mr_sequence rec) = Some s"
    and "umap_find (fb_grant_ledger f) (mr_grant_id rec) = Some gr" and "receipt_binds rec (gr_grant gr)"
    and "s_has_inflight_grant s" "s_in_flight_grant s = mr_grant_id rec"
  shows "books_ok (consume_grant rec fin f)"
proof (rule books_ok_upd [OF assms(1), of "mr_sequence rec"])
  let ?lg = "umap_upd (mr_grant_id rec)
       (\<lambda>gr. gr\<lparr>gr_status := 1, gr_receipt := rec, gr_has_receipt := True\<rparr>) (fb_grant_ledger f)"
  show "fb_grant_ledger (consume_grant rec fin f) = ?lg" by (simp add: consume_grant_def)
  show "umap_ok ?lg" using books_okD(2) [OF assms(1)] by simp
  fix t assume "umap_find (fb_seqs f) (mr_sequence rec) = Some t" "token_ok t"
  then have t: "t = s" "token_ok s" using assms(2) by auto
  then show "token_ok (consumed_seq rec fin t) \<and>
      ledger_ok ((umap_find (fb_seqs f))(mr_sequence rec \<mapsto> consumed_seq rec fin t)) (umap_find ?lg) (fb_next_grant f)"
    using ledger_ok_consume [OF books_okD(4) [OF assms(1)] assms(2) t(2) assms(5), of gr rec fin]
      token_ok_consumed [OF t(2) assms(5)] assms(3,4,6) by (simp add: find_upd_fun)
qed (use assms(2) in \<open>simp_all add: consume_grant_def\<close>)

lemma books_ok_abort:
  assumes "books_ok f" and "umap_find (fb_seqs f) k = Some s" and "s_has_inflight_grant s"
  shows "books_ok (abort_grant (s_in_flight_grant s) (upd_seq k clear_grant f))"
proof (rule books_ok_upd [OF assms(1), of k clear_grant])
  let ?lg = "umap_upd (s_in_flight_grant s)
       (\<lambda>gr. if gr_status gr = 0 then gr\<lparr>gr_status := 2\<rparr> else gr) (fb_grant_ledger f)"
  show "fb_grant_ledger (abort_grant (s_in_flight_grant s) (upd_seq k clear_grant f)) = ?lg"
    by (simp add: abort_grant_def)
  show "umap_ok ?lg" using books_okD(2) [OF assms(1)] by simp
  note L = books_okD(4) [OF assms(1)]
  obtain gr where gr: "umap_find (fb_grant_ledger f) (s_in_flight_grant s) = Some gr" "gr_status gr = 0"
    using pending_okD [OF ledger_okD(2) [OF L] assms(2,3)] by (auto simp: pends_def)
  fix t assume "umap_find (fb_seqs f) k = Some t" "token_ok t"
  then have t: "t = s" "token_ok s" using assms(2) by auto
  have "token_ok (clear_grant s)" using t(2) by (rule token_ok_quiet) (simp add: quiet_def clear_grant_def tokens_def)
  moreover have "ledger_ok ((umap_find (fb_seqs f))(k \<mapsto> clear_grant s))
      ((umap_find (fb_grant_ledger f))(s_in_flight_grant s \<mapsto> gr\<lparr>gr_status := 2\<rparr>)) (fb_next_grant f)"
    using ledger_ok_abort [OF L assms(2,3) gr(1), of "clear_grant s"] by (simp add: clear_grant_def tokens_def)
  ultimately show "token_ok (clear_grant t) \<and>
      ledger_ok ((umap_find (fb_seqs f))(k \<mapsto> clear_grant t)) (umap_find ?lg) (fb_next_grant f)"
    by (simp add: t(1) find_upd_fun gr)
qed (use assms(2) in \<open>simp_all add: abort_grant_def\<close>)

lemma quiet_grant: "quiet s s' \<Longrightarrow> tokens s' = tokens s \<and> (s_has_inflight_grant s' \<longrightarrow> s_has_inflight_grant s \<and>
    s_in_flight_grant s' = s_in_flight_grant s \<and> s_in_flight_proposal s' = s_in_flight_proposal s)"
  by (simp add: quiet_def)

lemma seq_at_None: "umap_find (fb_seqs f) k = None \<Longrightarrow> seq_at f k = default_Seq"
  by (simp add: seq_at_def umap_get_def)

lemma dispatch_seq_tokens [simp]:
  "tokens (dispatch_seq d tn s) = tokens s" "s_has_inflight_grant (dispatch_seq d tn s) = s_has_inflight_grant s"
  "s_in_flight_grant (dispatch_seq d tn s) = s_in_flight_grant s"
  "s_in_flight_proposal (dispatch_seq d tn s) = s_in_flight_proposal s"
  by (simp_all add: dispatch_seq_def tokens_def)

lemma free_device_ledger [simp]: "fb_grant_ledger (free_device rv f) = fb_grant_ledger f"
  "fb_next_grant (free_device rv f) = fb_next_grant f" "fb_workers (free_device rv f) = fb_workers f"
  "fb_next_reservation (free_device rv f) = fb_next_reservation f"
  by (simp_all add: free_device_def split: option.split)

lemma reserve_group_simps [simp]:
  "fb_seqs (snd (reserve_group tn w n f)) = fb_seqs f"
  "fb_grant_ledger (snd (reserve_group tn w n f)) = fb_grant_ledger f"
  "fb_next_grant (snd (reserve_group tn w n f)) = fb_next_grant f"
  by (simp_all add: reserve_group_def Let_def)

lemma register_worker_simps [simp]:
  "fb_seqs (snd (register_worker wd f)) = fb_seqs f"
  "fb_grant_ledger (snd (register_worker wd f)) = fb_grant_ledger f"
  "fb_next_grant (snd (register_worker wd f)) = fb_next_grant f"
  by (simp_all add: register_worker_def Let_def)

lemma fstep_books:
  assumes "fstep rc f g" and "books_ok f"
  shows "books_ok g"
  using assms
proof (induction rule: fstep.induct)
  case (noise f' f)
  show ?case by (rule books_ok_same [OF noise(2) coreD(2,9,8) [OF noise(1)]])
next
  case (rehash f f')
  show ?case by (rule rehashed_books [OF rehash(2,1)])
next
  case (admit f k req)
  then show ?case by (intro books_ok_admit)
next
  case (seq f k g)
  show ?case
    by (rule books_ok_tokens [OF seq(2)]) (use seq(1) quiet_grant token_ok_quiet in blast)
next
  case (regenerate f k)
  then show ?case by (intro books_ok_tokens) (simp_all add: rebase_ok)
next
  case (rebase f k)
  then show ?case by (intro books_ok_tokens) (simp_all add: rebase_ok)
next
  case (dispatch f k d tn)
  then show ?case by (intro books_ok_tokens) (auto simp: seq_at_find intro: token_ok_dispatch)
next
  case (issue f k s g)
  then show ?case by (intro books_ok_issue)
next
  case (consume f rec s gr fin)
  then show ?case by (intro books_ok_consume)
next
  case (abort f k s)
  then show ?case by (intro books_ok_abort)
next
  case (mint f)
  then show ?case by (auto intro: books_ok_same)
next
  case (free f r rv)
  then show ?case by (auto intro: books_ok_same)
next
  case (device f dev)
  then show ?case by (auto intro: books_ok_same)
next
  case (reserve w f growth tn)
  show ?case by (rule books_ok_same [OF reserve(4)]) simp_all
next
  case (register wd f)
  show ?case by (rule books_ok_same [OF register(2)]) simp_all
qed

lemma books_ok_new: "books_ok (new_Fabric cfg clock)"
  by (simp add: books_ok_def new_Fabric_def ledger_ok_def grants_wf_def pending_ok_def consumed_in_def
      consumed_inj_def consumed_cover_def chained_def tip_ok_def consumed_def)

interpretation books: fabric_invariant books_ok
  by unfold_locales (auto intro: books_ok_new fstep_books)

section \<open>How a sequence evolves\<close>

text \<open>Along any run a sequence stays, keeps its request, moves along allowed transitions, and its
  committed count never decreases; once terminal, its account is final.\<close>

definition becomes :: "Seq \<Rightarrow> Seq \<Rightarrow> bool" where
  "becomes s s' \<longleftrightarrow> s_req s' = s_req s \<and> can_transition\<^sup>*\<^sup>* (s_machine s) (s_machine s') \<and>
     s_committed s \<le> s_committed s' \<and> (is_terminal (s_machine s) \<longrightarrow> tokens s' = tokens s)"

definition evolves :: "Fabric \<Rightarrow> Fabric \<Rightarrow> bool" where
  "evolves f g \<longleftrightarrow> (\<forall>k s. umap_find (fb_seqs f) k = Some s \<longrightarrow>
     (\<exists>s'. umap_find (fb_seqs g) k = Some s' \<and> becomes s s'))"

lemma becomes_refl [simp]: "becomes s s"
  by (simp add: becomes_def)

lemma becomes_trans:
  assumes "becomes s t" and "becomes t u"
  shows "becomes s u"
proof -
  have "s_machine t = s_machine s" if "is_terminal (s_machine s)"
    using assms(1) that terminal_rtranclp unfolding becomes_def by blast
  then show ?thesis
    using assms unfolding becomes_def by (metis order_trans rtranclp_trans)
qed

lemma evolves_same: "fb_seqs g = fb_seqs f \<Longrightarrow> evolves f g"
  by (simp add: evolves_def)

lemma evolves_trans: "evolves f g \<Longrightarrow> evolves g h \<Longrightarrow> evolves f h"
  unfolding evolves_def by (meson becomes_trans)

lemma evolves_upd:
  assumes "\<And>s. umap_find (fb_seqs f) k = Some s \<Longrightarrow> becomes s (g s)" and "fb_seqs f' = umap_upd k g (fb_seqs f)"
  shows "evolves f f'"
  using assms by (auto simp: evolves_def)

lemma can_transition_two: "can_transition\<^sup>*\<^sup>* st (sm_go b (sm_go a st))"
  by (rule rtranclp_trans [OF can_transition_sm_go can_transition_sm_go])

lemma becomes_quiet: "quiet s s' \<Longrightarrow> becomes s s'"
  by (auto simp: becomes_def quiet_def dest: tokensD)

lemma becomes_dispatch: "becomes s (dispatch_seq d tn s)"
  by (simp add: becomes_def) (simp add: dispatch_seq_def can_transition_two)

lemma becomes_consumed:
  assumes "token_ok s" and "s_has_inflight_grant s" and "\<not> is_terminal (s_machine s)"
  shows "becomes s (consumed_seq rec fin s)"
proof -
  have "\<not> budget_exhausted (s_budget s)" using assms by (auto simp: token_ok_def)
  from token_ok_live [OF assms(1) this] have "s_committed s < rq_max_generation_length (s_req s)"
    using assms(1) by (simp add: token_ok_def)
  then have "s_committed s \<le> s_committed s + 1"
    using less_imp_le succ_less by blast
  then show ?thesis
    using assms(3)
    by (simp add: becomes_def)
      (simp add: consumed_seq_def Let_def clear_grant_def chain_receipt_def advance_tokens_def can_transition_two)
qed

lemma fstep_evolves:
  assumes "fstep rc f g" and "books_ok f"
  shows "evolves f g"
  using assms
proof (induction rule: fstep.induct)
  case (noise f' f)
  show ?case by (rule evolves_same [OF coreD(2) [OF noise(1)]])
next
  case (rehash f f')
  then have "mset (fb_seqs f') = mset (fb_seqs f)" by (auto simp: rehashed_def)
  from umap_find_perm(2) [OF books_okD(1) [OF rehash(2)] this] show ?case by (simp add: evolves_def)
next
  case (admit f k req)
  then show ?case by (auto simp: evolves_def)
next
  case (seq f k g)
  show ?case by (rule evolves_upd [of f k g]) (use seq(1) becomes_quiet in auto)
next
  case (regenerate f k)
  show ?case
    by (rule evolves_upd [of f k "\<lambda>s. s\<lparr>s_generated := s_committed s\<rparr>"])
      (simp_all add: rebase_ok books_okD(3) [OF regenerate])
next
  case (rebase f k)
  show ?case by (rule evolves_upd [of f k rebase]) (simp_all add: rebase_ok books_okD(3) [OF rebase])
next
  case (dispatch f k d tn)
  show ?case by (rule evolves_upd [of f k "dispatch_seq d tn"]) (simp_all add: becomes_dispatch)
next
  case (issue f k s g)
  show ?case by (rule evolves_upd [of f k]) (simp_all add: becomes_def tokens_def)
next
  case (consume f rec s gr fin)
  show ?case
    by (rule evolves_upd [of f "mr_sequence rec" "consumed_seq rec fin"])
      (use consume books_okD(3) [OF consume(11) consume(1)] in
        \<open>auto simp: consume_grant_def is_stopped_def intro: becomes_consumed\<close>)
next
  case (abort f k s)
  show ?case
    by (rule evolves_upd [of f k clear_grant])
      (simp_all add: abort_grant_def becomes_def tokens_def clear_grant_def)
qed (simp_all add: evolves_same)

lemma reach_evolves: "reach rc f g \<Longrightarrow> books_ok f \<Longrightarrow> evolves f g"
proof (induction rule: rtranclp_induct)
  case base
  show ?case by (simp add: evolves_same)
next
  case (step g h)
  then show ?case
    using fstep_evolves [of rc g h] books.reach_invariant [of rc f g] by (blast intro: evolves_trans)
qed

section \<open>States are reached from admission\<close>

definition typed :: "Fabric \<Rightarrow> bool" where
  "typed f \<longleftrightarrow> books_ok f \<and> (\<forall>k s. umap_find (fb_seqs f) k = Some s \<longrightarrow> can_transition\<^sup>*\<^sup>* ST_Admitted (s_machine s))"

lemma fstep_new:
  assumes "fstep rc f g" and "books_ok f" and "umap_find (fb_seqs f) k = None" and "umap_find (fb_seqs g) k = Some s"
  shows "\<exists>req. s = admitted_seq req"
  using assms(1)
proof cases
  case noise
  then show ?thesis using assms(3,4) coreD(2) [OF noise] by simp
next
  case rehash
  then have "mset (fb_seqs g) = mset (fb_seqs f)" by (auto simp: rehashed_def)
  from umap_find_perm(2) [OF books_okD(1) [OF assms(2)] this] show ?thesis using assms(3,4) by simp
qed (use assms(3,4) in \<open>auto simp: reserve_group_def register_worker_def consume_grant_def abort_grant_def free_device_def
      Let_def find_upd_seq split: if_splits option.splits\<close>)

lemma admitted_reached: "can_transition\<^sup>*\<^sup>* ST_Admitted (s_machine (admitted_seq req))"
proof -
  have "can_transition\<^sup>*\<^sup>* ST_Admitted ST_Ready"
    by (rule converse_rtranclp_into_rtranclp [of _ _ ST_Waiting]) (auto simp: can_transition_def)
  then show ?thesis by (simp add: admitted_seq_def Let_def default_Seq_def)
qed

interpretation lifecycle: fabric_invariant typed
proof unfold_locales
  show "typed (new_Fabric cfg clock)" for cfg clock
    using books.initial [of cfg clock] by (simp add: typed_def new_Fabric_def)
  fix f g rc assume t: "typed f" and st: "fstep rc f g"
  have b: "books_ok f" "books_ok g" using t books.preserved [OF _ st] by (simp_all add: typed_def)
  have "can_transition\<^sup>*\<^sup>* ST_Admitted (s_machine s')" if s': "umap_find (fb_seqs g) k = Some s'" for k s'
  proof (cases "umap_find (fb_seqs f) k")
    case None
    from fstep_new [OF st b(1) None s'] admitted_reached show ?thesis by blast
  next
    case (Some s)
    then have "becomes s s'" using fstep_evolves [OF st b(1)] s' unfolding evolves_def by (metis option.inject)
    then show ?thesis using t Some by (auto simp: typed_def becomes_def intro: rtranclp_trans)
  qed
  then show "typed g" using b by (simp add: typed_def)
qed

lemma reached_named: "can_transition\<^sup>*\<^sup>* ST_Admitted st \<Longrightarrow> SequenceState_ok st"
proof (induction rule: rtranclp_induct)
  case (step s t)
  then show ?case by (cases s) (auto simp: can_transition_def split: if_splits)
qed simp

end
