(* ===== verification/Accounts.thy ===== *)
theory Accounts
  imports FabricRun
begin

text \<open>
  Two ledgers of the fabric that close in every run: the device memory (what a device has reserved is the
  sum of its live reservations and never exceeds its capacity) and the token count (receipts, statistics,
  consumed grants and the sequences' own counts agree).
\<close>

section \<open>Device memory\<close>

definition on_device :: "DeviceId \<Rightarrow> (ReservationId, Reservation) umap \<Rightarrow> nat" where
  "on_device dev rs = sum_list (map (\<lambda>r. if rv_device (snd r) = dev then unat (rv_bytes (snd r)) else 0) rs)"

definition memory_ok :: "Fabric \<Rightarrow> bool" where
  "memory_ok f \<longleftrightarrow> umap_ok (fb_dev_mem f) \<and> umap_ok (fb_reservations f) \<and>
     (\<forall>dev \<in> set (map (wd_device \<circ> snd) (fb_workers f)).
        0 < dm_capacity (umap_get default_DevMem (fb_dev_mem f) (dd_id dev))) \<and>
     (\<forall>dev. let dm = umap_get default_DevMem (fb_dev_mem f) dev in
        on_device dev (fb_reservations f) = unat (dm_reserved dm) \<and> dm_reserved dm \<le> dm_capacity dm) \<and>
     (\<forall>k rv. umap_find (fb_reservations f) k = Some rv \<longrightarrow> k < fb_next_reservation f)"

lemma memory_okD:
  assumes "memory_ok f"
  shows "umap_ok (fb_dev_mem f)" "umap_ok (fb_reservations f)"
    "w \<in> set (map snd (fb_workers f)) \<Longrightarrow> 0 < dm_capacity (umap_get default_DevMem (fb_dev_mem f) (dd_id (wd_device w)))"
    "on_device dev (fb_reservations f) = unat (dm_reserved (umap_get default_DevMem (fb_dev_mem f) dev))"
    "dm_reserved (umap_get default_DevMem (fb_dev_mem f) dev) \<le> dm_capacity (umap_get default_DevMem (fb_dev_mem f) dev)"
    "umap_find (fb_reservations f) k = Some rv \<Longrightarrow> k < fb_next_reservation f"
  using assms by (auto simp: memory_ok_def Let_def)

lemma memory_okI:
  assumes "umap_ok (fb_dev_mem f)" "umap_ok (fb_reservations f)"
    and "\<And>dev. dev \<in> set (map (wd_device \<circ> snd) (fb_workers f)) \<Longrightarrow>
      0 < dm_capacity (umap_get default_DevMem (fb_dev_mem f) (dd_id dev))"
    and "\<And>dev. on_device dev (fb_reservations f) = unat (dm_reserved (umap_get default_DevMem (fb_dev_mem f) dev))"
    and "\<And>dev. dm_reserved (umap_get default_DevMem (fb_dev_mem f) dev) \<le>
      dm_capacity (umap_get default_DevMem (fb_dev_mem f) dev)"
    and "\<And>k rv. umap_find (fb_reservations f) k = Some rv \<Longrightarrow> k < fb_next_reservation f"
  shows "memory_ok f"
  unfolding memory_ok_def Let_def using assms by blast

lemma on_device_new:
  "umap_find rs k = None \<Longrightarrow>
   on_device dev (umap_set k rv rs) = on_device dev rs + (if rv_device rv = dev then unat (rv_bytes rv) else 0)"
  unfolding on_device_def umap_set_def umap_find_def by (induction rs) auto

lemma erase_absent: "k \<notin> set (map fst m) \<Longrightarrow> umap_erase k m = m"
  unfolding umap_erase_def by (induction m) (auto simp: AList.delete_eq)

lemma on_device_erase:
  "umap_ok rs \<Longrightarrow> umap_find rs k = Some rv \<Longrightarrow>
   on_device dev rs = on_device dev (umap_erase k rs) + (if rv_device rv = dev then unat (rv_bytes rv) else 0)"
proof (induction rs)
  case (Cons r rs)
  have tl: "umap_ok rs" "fst r \<notin> set (map fst rs)" using Cons.prems(1) by (auto simp: umap_ok_def)
  show ?case
  proof (cases "fst r = k")
    case True
    then have "umap_erase k (r # rs) = rs" and "rv = snd r"
      using erase_absent [of k rs] tl Cons.prems(2) by (auto simp: umap_erase_def AList.delete_eq umap_find_Cons)
    then show ?thesis by (simp add: on_device_def)
  next
    case False
    then have "umap_erase k (r # rs) = r # umap_erase k rs" by (auto simp: umap_erase_def AList.delete_eq)
    then show ?thesis using Cons.IH [OF tl(1)] Cons.prems(2) False by (simp add: on_device_def umap_find_Cons)
  qed
qed simp

lemma on_device_perm: "mset rs' = mset rs \<Longrightarrow> on_device dev rs' = on_device dev rs"
  unfolding on_device_def by (simp flip: sum_mset_sum_list)

lemma memory_ok_same:
  "memory_ok f \<Longrightarrow> fb_dev_mem f' = fb_dev_mem f \<Longrightarrow> fb_reservations f' = fb_reservations f \<Longrightarrow>
   map (wd_device \<circ> snd) (fb_workers f') = map (wd_device \<circ> snd) (fb_workers f) \<Longrightarrow>
   fb_next_reservation f' = fb_next_reservation f \<Longrightarrow> memory_ok f'"
  unfolding memory_ok_def by metis

lemma memory_ok_rehashed:
  assumes "memory_ok f" and "rehashed f f'"
  shows "memory_ok f'"
proof -
  obtain ss ds rs gs ws where f': "f' = f\<lparr>fb_seqs := ss, fb_dev_mem := ds, fb_reservations := rs,
      fb_grant_ledger := gs, fb_workers := ws\<rparr>"
    and m: "mset ds = mset (fb_dev_mem f)" "mset rs = mset (fb_reservations f)" "mset ws = mset (fb_workers f)"
    using assms(2) by (auto simp: rehashed_def)
  note M = memory_okD [OF assms(1)]
  have "umap_get default_DevMem ds = umap_get default_DevMem (fb_dev_mem f)"
    using umap_find_perm(2) [OF M(1) m(1)] by (simp add: fun_eq_iff umap_get_def)
  moreover have "umap_find rs = umap_find (fb_reservations f)" "on_device dev rs = on_device dev (fb_reservations f)" for dev
    using umap_find_perm(2) [OF M(2) m(2)] on_device_perm [OF m(2)] by (simp_all add: fun_eq_iff)
  moreover have "set (map (wd_device \<circ> snd) ws) = set (map (wd_device \<circ> snd) (fb_workers f))"
    using mset_eq_setD [OF m(3)] by simp
  ultimately show ?thesis
    using umap_find_perm(1) [OF M(1) m(1)] umap_find_perm(1) [OF M(2) m(2)] assms(1)
    unfolding f' memory_ok_def by simp
qed

lemma memory_ok_free:
  assumes "memory_ok f" and "umap_find (fb_reservations f) r = Some rv"
  shows "memory_ok ((free_device rv f)\<lparr>fb_reservations := umap_erase r (fb_reservations f)\<rparr>)"
proof -
  note M = memory_okD [OF assms(1)]
  let ?dm = "umap_get default_DevMem (fb_dev_mem f) (rv_device rv)"
  have split: "on_device dev (fb_reservations f) = on_device dev (umap_erase r (fb_reservations f)) +
      (if rv_device rv = dev then unat (rv_bytes rv) else 0)" for dev
    by (rule on_device_erase [OF M(2) assms(2)])
  have le: "rv_bytes rv \<le> dm_reserved ?dm"
    using split [of "rv_device rv"] M(4) [of "rv_device rv"] by (simp add: word_le_nat_alt)
  let ?f = "free_device rv f"
  have get: "dm_capacity (umap_get default_DevMem (fb_dev_mem ?f) dev) = dm_capacity (umap_get default_DevMem (fb_dev_mem f) dev)"
    "dm_reserved (umap_get default_DevMem (fb_dev_mem ?f) dev) =
       dm_reserved (umap_get default_DevMem (fb_dev_mem f) dev) - (if rv_device rv = dev then rv_bytes rv else 0)" for dev
    using le by (auto simp: free_device_def umap_get_def default_DevMem_def split: option.split)
  have "on_device dev (umap_erase r (fb_reservations f)) = unat (dm_reserved (umap_get default_DevMem (fb_dev_mem ?f) dev))" for dev
    using split [of dev] M(4) [of dev] le by (auto simp: get(2) unat_sub)
  moreover have "dm_reserved (umap_get default_DevMem (fb_dev_mem ?f) dev) \<le> dm_capacity (umap_get default_DevMem (fb_dev_mem f) dev)" for dev
    using M(5) [of dev] le unfolding get(2) by (auto simp: word_le_nat_alt unat_sub)
  moreover have "umap_ok (fb_dev_mem ?f)" using M(1) by (simp add: free_device_def split: option.split)
  ultimately show ?thesis
    using M(2,3,6) by (intro memory_okI) (auto simp: get(1) split: if_splits)
qed

lemma memory_fits:
  assumes "\<not> memory_refused dm growth" and "0 < dm_capacity dm" and "dm_reserved dm \<le> dm_capacity dm"
  shows "unat (dm_reserved dm + growth) = unat (dm_reserved dm) + unat growth" "dm_reserved dm + growth \<le> dm_capacity dm"
proof -
  have "growth \<le> dm_capacity dm - dm_reserved dm"
    using assms by (auto simp: memory_refused_def Let_def word_gt_0 split: if_splits)
  then have le: "unat (dm_reserved dm) + unat growth \<le> unat (dm_capacity dm)"
    using assms(3) by (auto simp: word_le_nat_alt unat_sub)
  then have "unat (dm_reserved dm) + unat growth < 2 ^ LENGTH(64)"
    using unsigned_less [of "dm_capacity dm", where 'a=nat] by linarith
  then show sum: "unat (dm_reserved dm + growth) = unat (dm_reserved dm) + unat growth"
    by (subst (asm) unat_add_lem) simp
  show "dm_reserved dm + growth \<le> dm_capacity dm" using le by (simp add: word_le_nat_alt sum)
qed

lemma memory_ok_reserve:
  assumes "memory_ok f" and w: "w \<in> set (map snd (fb_workers f))"
    and "\<not> memory_refused (umap_get default_DevMem (fb_dev_mem f) (dd_id (wd_device w))) growth"
    and "unat (fb_next_reservation f) + 1 < 2 ^ 64"
  shows "memory_ok (snd (reserve_group tn w growth f))"
proof -
  note M = memory_okD [OF assms(1)]
  let ?d = "dd_id (wd_device w)" and ?f = "snd (reserve_group tn w growth f)"
  let ?dm = "umap_get default_DevMem (fb_dev_mem f) ?d"
  note fit = memory_fits [OF assms(3) M(3) [OF w] M(5)]
  have fresh: "umap_find (fb_reservations f) (fb_next_reservation f) = None"
    using M(6) [of "fb_next_reservation f"] by (cases "umap_find (fb_reservations f) (fb_next_reservation f)") auto
  have get: "umap_get default_DevMem (fb_dev_mem ?f) dev = (if dev = ?d then ?dm\<lparr>dm_reserved := dm_reserved ?dm + growth\<rparr>
      else umap_get default_DevMem (fb_dev_mem f) dev)" for dev
    by (simp add: reserve_group_def Let_def)
  have on: "on_device dev (fb_reservations ?f) = on_device dev (fb_reservations f) + (if dev = ?d then unat growth else 0)" for dev
    by (auto simp: reserve_group_def Let_def fresh on_device_new)
  have "k < fb_next_reservation ?f" if "umap_find (fb_reservations ?f) k = Some rv" for k rv
    using that M(6) [of k] less_succ [OF assms(4)]
    by (auto simp: reserve_group_def Let_def fresh split: if_splits)
  moreover have "set (map (wd_device \<circ> snd) (fb_workers ?f)) = set (map (wd_device \<circ> snd) (fb_workers f))"
    "umap_ok (fb_dev_mem ?f)" "umap_ok (fb_reservations ?f)"
    using M(1,2) by (simp_all add: reserve_group_def Let_def)
  moreover have "0 < dm_capacity (umap_get default_DevMem (fb_dev_mem f) (dd_id dev))"
    if "dev \<in> set (map (wd_device \<circ> snd) (fb_workers f))" for dev
    using that M(3) by auto
  ultimately show ?thesis
    using M(4,5) M(3) [OF w] fit by (intro memory_okI) (simp_all add: get on)
qed

lemma memory_ok_device:
  assumes "memory_ok f" and "umap_find (fb_dev_mem f) dev = None"
  shows "memory_ok (f\<lparr>fb_dev_mem := umap_set dev default_DevMem (fb_dev_mem f)\<rparr>)"
proof -
  have "umap_get default_DevMem (umap_set dev default_DevMem (fb_dev_mem f)) = umap_get default_DevMem (fb_dev_mem f)"
    using assms(2) by (auto simp: fun_eq_iff umap_get_None)
  then show ?thesis using assms(1) by (simp add: memory_ok_def)
qed

lemma set_umap_set: "x \<in> set (umap_set k v m) \<Longrightarrow> x = (k, v) \<or> x \<in> set m"
  unfolding umap_set_def by (induction m) (auto split: if_splits)

lemma memory_ok_register:
  assumes "memory_ok f" and "0 < dd_memory_bytes (wd_device wd)"
  shows "memory_ok (snd (register_worker wd f))"
proof (cases "wd_valid wd")
  case True
  note M = memory_okD [OF assms(1)]
  let ?f = "snd (register_worker wd f)" and ?d = "dd_id (wd_device wd)"
  let ?dm = "umap_get default_DevMem (fb_dev_mem f) ?d"
  have get: "dm_reserved (umap_get default_DevMem (fb_dev_mem ?f) dev) = dm_reserved (umap_get default_DevMem (fb_dev_mem f) dev)"
    "dm_capacity (umap_get default_DevMem (fb_dev_mem ?f) dev) =
      (if dev = ?d then max (dm_capacity ?dm) (dd_memory_bytes (wd_device wd))
       else dm_capacity (umap_get default_DevMem (fb_dev_mem f) dev))" for dev
    using True by (auto simp: register_worker_def Let_def)
  have "0 < dm_capacity (umap_get default_DevMem (fb_dev_mem ?f) (dd_id dev))"
    if "dev \<in> set (map (wd_device \<circ> snd) (fb_workers ?f))" for dev
  proof -
    have "map (wd_device \<circ> snd) (fb_workers ?f) = map (wd_device \<circ> snd) (umap_set (wd_id wd) wd (fb_workers f))"
      using True by (simp add: register_worker_def Let_def)
    then have "dev = wd_device wd \<or> dev \<in> set (map (wd_device \<circ> snd) (fb_workers f))"
      using that set_umap_set [of _ "wd_id wd" wd "fb_workers f"] by fastforce
    then show ?thesis using M(3) assms(2) by (auto simp: get(2) less_max_iff_disj)
  qed
  moreover have "dm_reserved (umap_get default_DevMem (fb_dev_mem ?f) dev) \<le> dm_capacity (umap_get default_DevMem (fb_dev_mem ?f) dev)" for dev
    using M(5) [of dev] by (auto simp: get le_max_iff_disj)
  moreover have "umap_ok (fb_dev_mem ?f)" using M(1) True by (simp add: register_worker_def Let_def)
  moreover have "fb_reservations ?f = fb_reservations f" "fb_next_reservation ?f = fb_next_reservation f"
    using True by (simp_all add: register_worker_def Let_def)
  ultimately show ?thesis
    using M(2,4,6) by (intro memory_okI) (simp_all add: get(1))
qed (use assms(1) in \<open>simp add: register_worker_def\<close>)

lemma fstep_memory:
  assumes "fstep rc f g" and "memory_ok f"
  shows "memory_ok g"
  using assms
proof (induction rule: fstep.induct)
  case (noise f' f)
  show ?case by (rule memory_ok_same [OF noise(2) coreD(3,4,5,7) [OF noise(1)]])
next
  case (rehash f f')
  show ?case by (rule memory_ok_rehashed [OF rehash(2,1)])
next
  case (free f r rv)
  show ?case by (rule memory_ok_free [OF free(2,1)])
next
  case (device f dev)
  show ?case by (rule memory_ok_device [OF device(2,1)])
next
  case (reserve w f growth tn)
  show ?case by (rule memory_ok_reserve [OF reserve(4,1,2,3)])
next
  case (register wd f)
  show ?case by (rule memory_ok_register [OF register(2,1)])
next
  case (abort f k s)
  show ?case by (rule memory_ok_same [OF abort(3)]) (simp_all add: abort_grant_def)
next
  case (consume f rec s gr fin)
  show ?case by (rule memory_ok_same [OF consume(11)]) (simp_all add: consume_grant_def)
qed (erule memory_ok_same; simp)+

lemma memory_ok_new: "memory_ok (new_Fabric cfg clock)"
  by (simp add: memory_ok_def new_Fabric_def on_device_def umap_get_def default_DevMem_def)

interpretation memory: fabric_invariant memory_ok
  by unfold_locales (auto intro: memory_ok_new fstep_memory)

section \<open>Token counts\<close>

definition consumed_count :: "(GrantId, GrantRecord) umap \<Rightarrow> nat" where
  "consumed_count lg = length (filter (\<lambda>g. gr_status (snd g) = 1) lg)"

definition tokens_emitted :: "(SequenceId, Seq) umap \<Rightarrow> u64" where
  "tokens_emitted ss = sum_list (map (\<lambda>s. s_committed (snd s) - rq_pregenerated (s_req (snd s))) ss)"

definition counts_ok :: "Fabric \<Rightarrow> bool" where
  "counts_ok f \<longleftrightarrow> st_decode_steps (fb_stats f) = fb_receipt_count f \<and>
     st_generated_tokens (fb_stats f) = fb_receipt_count f \<and>
     of_nat (consumed_count (fb_grant_ledger f)) = fb_receipt_count f \<and>
     tokens_emitted (fb_seqs f) = fb_receipt_count f \<and>
     (\<forall>k s. umap_find (fb_seqs f) k = Some s \<longrightarrow> s_in_flight_dispatch s < fb_next_dispatch f)"

lemma counts_okD:
  assumes "counts_ok f"
  shows "st_decode_steps (fb_stats f) = fb_receipt_count f" "st_generated_tokens (fb_stats f) = fb_receipt_count f"
    "of_nat (consumed_count (fb_grant_ledger f)) = fb_receipt_count f" "tokens_emitted (fb_seqs f) = fb_receipt_count f"
    "umap_find (fb_seqs f) k = Some s \<Longrightarrow> s_in_flight_dispatch s < fb_next_dispatch f"
  using assms by (auto simp: counts_ok_def)

text \<open>A sum over a map after the update of one entry.\<close>

lemma sum_upd:
  fixes h :: "'k \<times> 'v \<Rightarrow> 'a :: comm_monoid_add"
  assumes "umap_find m k = Some v"
  shows "umap_ok m \<Longrightarrow> sum_list (map h (umap_upd k g m)) + h (k, v) = sum_list (map h m) + h (k, g v)"
  using assms
proof (induction m)
  case (Cons p m)
  show ?case
  proof (cases "fst p = k")
    case True
    then have "umap_find m k = None"
      using Cons.prems(1) by (simp add: umap_ok_def umap_find_None_iff)
    then have "umap_upd k g m = m" by (intro umap_upd_id) simp
    moreover have p: "p = (k, v)" using True Cons.prems(2) by (cases p) (simp add: umap_find_Cons)
    ultimately have "umap_upd k g (p # m) = (k, g v) # m" by (simp add: umap_upd_def)
    then show ?thesis unfolding p by (simp add: add.commute add.left_commute)
  next
    case False
    then have "umap_upd k g (p # m) = p # umap_upd k g m" by (cases p) (simp add: umap_upd_def)
    with False Cons show ?thesis by (simp add: umap_ok_def umap_find_Cons add.assoc)
  qed
qed simp

lemma sum_new:
  "umap_find m k = None \<Longrightarrow> sum_list (map h (umap_set k v m)) = sum_list (map h m) + h (k, v)"
  unfolding umap_set_def umap_find_def by (induction m) (auto simp: add.assoc)

lemma consumed_count_sum: "consumed_count lg = sum_list (map (\<lambda>g. if gr_status (snd g) = 1 then 1 else 0) lg)"
  unfolding consumed_count_def by (induction lg) auto

lemma consumed_count_upd:
  assumes "umap_ok lg" and "umap_find lg k = Some gr"
  shows "consumed_count (umap_upd k g lg) + (if gr_status gr = 1 then 1 else 0) =
    consumed_count lg + (if gr_status (g gr) = 1 then 1 else 0)"
  using sum_upd [OF assms(2,1), where h = "\<lambda>g. if gr_status (snd g) = 1 then 1 else 0" and g = g]
  unfolding consumed_count_sum by simp

lemma consumed_count_new:
  "umap_find lg k = None \<Longrightarrow> consumed_count (umap_set k gr lg) = consumed_count lg + (if gr_status gr = 1 then 1 else 0)"
  unfolding consumed_count_sum by (subst sum_new) simp_all

lemma tokens_emitted_upd:
  assumes "umap_ok ss" and "umap_find ss k = Some s"
  shows "tokens_emitted (umap_upd k g ss) = tokens_emitted ss +
    ((s_committed (g s) - rq_pregenerated (s_req (g s))) - (s_committed s - rq_pregenerated (s_req s)))"
  using sum_upd [OF assms(2,1), where h = "\<lambda>s. s_committed (snd s) - rq_pregenerated (s_req (snd s))" and g = g]
  unfolding tokens_emitted_def by (simp add: algebra_simps)

lemma counts_ok_seq:
  assumes "counts_ok f" and "umap_ok (fb_seqs f)"
    and "\<And>s. umap_find (fb_seqs f) k = Some s \<Longrightarrow> s_committed (g s) = s_committed s \<and> s_req (g s) = s_req s \<and>
      s_in_flight_dispatch (g s) < fb_next_dispatch f"
  shows "counts_ok (upd_seq k g f)"
proof -
  have "tokens_emitted (umap_upd k g (fb_seqs f)) = tokens_emitted (fb_seqs f)"
  proof (cases "umap_find (fb_seqs f) k")
    case None
    then show ?thesis by (subst umap_upd_id) auto
  next
    case (Some s)
    then show ?thesis using tokens_emitted_upd [OF assms(2) Some] assms(3) by simp
  qed
  then show ?thesis using assms by (auto simp: counts_ok_def)
qed

lemma counts_ok_same:
  assumes "counts_ok f" and "fb_seqs f' = fb_seqs f" and "fb_next_dispatch f \<le> fb_next_dispatch f'"
    and "fb_grant_ledger f' = fb_grant_ledger f" "fb_receipt_count f' = fb_receipt_count f"
    "st_decode_steps (fb_stats f') = st_decode_steps (fb_stats f)"
    "st_generated_tokens (fb_stats f') = st_generated_tokens (fb_stats f)"
  shows "counts_ok f'"
  using assms unfolding counts_ok_def by (metis order_less_le_trans)

lemma counts_ok_rehashed:
  assumes "counts_ok f" and "books_ok f" and "rehashed f f'"
  shows "counts_ok f'"
proof -
  obtain ss ds rs gs ws where f': "f' = f\<lparr>fb_seqs := ss, fb_dev_mem := ds, fb_reservations := rs,
      fb_grant_ledger := gs, fb_workers := ws\<rparr>"
    and m: "mset ss = mset (fb_seqs f)" "mset gs = mset (fb_grant_ledger f)"
    using assms(3) by (auto simp: rehashed_def)
  have "umap_find ss = umap_find (fb_seqs f)"
    using umap_find_perm(2) [OF books_okD(1) [OF assms(2)] m(1)] by (simp add: fun_eq_iff)
  moreover have "consumed_count gs = consumed_count (fb_grant_ledger f)"
    "tokens_emitted ss = tokens_emitted (fb_seqs f)"
    unfolding consumed_count_sum tokens_emitted_def using m by (simp_all flip: sum_mset_sum_list)
  ultimately show ?thesis using assms(1) by (simp add: f' counts_ok_def)
qed

lemma counts_ok_issue:
  assumes "counts_ok f" and "books_ok f" and "cg_grant_id g = fb_next_grant f"
  shows "counts_ok (f\<lparr>fb_next_grant := n, fb_grant_ledger := umap_set (cg_grant_id g) (fresh_grant g) (fb_grant_ledger f)\<rparr>)"
proof -
  have "umap_find (fb_grant_ledger f) (cg_grant_id g) = None"
    using ledger_okD(1) [OF books_okD(4) [OF assms(2)]] assms(3)
    by (cases "umap_find (fb_grant_ledger f) (cg_grant_id g)") (auto simp: grants_wf_def)
  then show ?thesis using assms(1) by (simp add: counts_ok_def consumed_count_new fresh_grant_def)
qed

lemma counts_ok_abort:
  assumes "counts_ok f" and "books_ok f"
  shows "counts_ok (abort_grant gid f)"
proof -
  have "consumed_count (fb_grant_ledger (abort_grant gid f)) = consumed_count (fb_grant_ledger f)"
  proof (cases "umap_find (fb_grant_ledger f) gid")
    case None
    then show ?thesis by (simp add: abort_grant_def) (subst umap_upd_id; simp)
  next
    case (Some gr)
    then show ?thesis
      using consumed_count_upd [OF books_okD(2) [OF assms(2)] Some,
          of "\<lambda>gr. if gr_status gr = 0 then gr\<lparr>gr_status := 2\<rparr> else gr"]
      by (auto simp: abort_grant_def split: if_splits)
  qed
  then show ?thesis using assms(1) by (simp add: counts_ok_def) (simp add: abort_grant_def)
qed

lemma counts_ok_consume:
  assumes "counts_ok f" and "books_ok f" and "umap_find (fb_seqs f) (mr_sequence rec) = Some s"
    and "umap_find (fb_grant_ledger f) (mr_grant_id rec) = Some gr" and "gr_status gr \<noteq> 1"
  shows "counts_ok (consume_grant rec fin f)"
proof -
  note C = counts_okD [OF assms(1)]
  have "consumed_count (fb_grant_ledger (consume_grant rec fin f)) = consumed_count (fb_grant_ledger f) + 1"
    using consumed_count_upd [OF books_okD(2) [OF assms(2)] assms(4)] assms(5) by (simp add: consume_grant_def)
  moreover have "tokens_emitted (fb_seqs (consume_grant rec fin f)) = tokens_emitted (fb_seqs f) + 1"
    using tokens_emitted_upd [OF books_okD(1) [OF assms(2)] assms(3), of "consumed_seq rec fin"]
    by (simp add: consume_grant_def)
  moreover have "0 < fb_next_dispatch f"
    using C(5) [OF assms(3)] by (rule order_le_less_trans [rotated]) simp
  moreover have "s_in_flight_dispatch t < fb_next_dispatch f"
    if "umap_find (fb_seqs (consume_grant rec fin f)) k = Some t" for k t
    using that calculation(3) C(5) [of k t] by (auto simp: consume_grant_def split: if_splits)
  moreover have "fb_next_dispatch (consume_grant rec fin f) = fb_next_dispatch f"
    "fb_receipt_count (consume_grant rec fin f) = fb_receipt_count f + 1"
    "st_decode_steps (fb_stats (consume_grant rec fin f)) = st_decode_steps (fb_stats f) + 1"
    "st_generated_tokens (fb_stats (consume_grant rec fin f)) = st_generated_tokens (fb_stats f) + 1"
    by (simp_all add: consume_grant_def)
  ultimately show ?thesis
    unfolding counts_ok_def using C(1-4) by simp
qed

lemma device_frame [simp]:
  "fb_next_dispatch (free_device rv f) = fb_next_dispatch f" "fb_receipt_count (free_device rv f) = fb_receipt_count f"
  "fb_stats (free_device rv f) = fb_stats f"
  by (simp_all add: free_device_def split: option.split)

lemma reserve_frame [simp]:
  "fb_next_dispatch (snd (reserve_group tn w n f)) = fb_next_dispatch f"
  "fb_receipt_count (snd (reserve_group tn w n f)) = fb_receipt_count f"
  "st_decode_steps (fb_stats (snd (reserve_group tn w n f))) = st_decode_steps (fb_stats f)"
  "st_generated_tokens (fb_stats (snd (reserve_group tn w n f))) = st_generated_tokens (fb_stats f)"
  by (simp_all add: reserve_group_def Let_def)

lemma register_frame [simp]:
  "fb_next_dispatch (snd (register_worker wd f)) = fb_next_dispatch f"
  "fb_receipt_count (snd (register_worker wd f)) = fb_receipt_count f"
  "st_decode_steps (fb_stats (snd (register_worker wd f))) = st_decode_steps (fb_stats f)"
  "st_generated_tokens (fb_stats (snd (register_worker wd f))) = st_generated_tokens (fb_stats f)"
  by (simp_all add: register_worker_def Let_def)

text \<open>An idle sequence holds the null dispatch, which no counter ever reaches again.\<close>

definition tallies_ok :: "Fabric \<Rightarrow> bool" where
  "tallies_ok f \<longleftrightarrow> books_ok f \<and> counts_ok f \<and> 0 < fb_next_dispatch f"

lemma fstep_counts:
  assumes "fstep rc f g" and "tallies_ok f"
  shows "counts_ok g \<and> 0 < fb_next_dispatch g"
proof -
  have B: "books_ok f" and C: "counts_ok f" and P: "0 < fb_next_dispatch f" using assms(2) by (auto simp: tallies_ok_def)
  note ok = books_okD(1) [OF B]
  from assms(1) show ?thesis
  proof cases
    case noise
    show ?thesis
      using counts_ok_same [OF C coreD(2) [OF noise] _ coreD(9,10,11,12) [OF noise]] coreD(6) [OF noise] P by simp
  next
    case rehash
    then show ?thesis using counts_ok_rehashed [OF C B rehash] P by (auto simp: rehashed_def)
  next
    case (admit k req)
    have "tokens_emitted (umap_set k (admitted_seq req) (fb_seqs f)) = tokens_emitted (fb_seqs f)"
      unfolding tokens_emitted_def using admit by (subst sum_new) simp_all
    then show ?thesis using C P by (simp add: admit counts_ok_def)
  next
    case (seq k h)
    have "counts_ok g"
      unfolding seq(1)
    proof (rule counts_ok_seq [OF C ok])
      fix s assume s: "umap_find (fb_seqs f) k = Some s"
      from seq(2) [OF s] counts_okD(5) [OF C s] P
      show "s_committed (h s) = s_committed s \<and> s_req (h s) = s_req s \<and> s_in_flight_dispatch (h s) < fb_next_dispatch f"
        by (auto simp: quiet_def dest: tokensD)
    qed
    then show ?thesis using P by (simp add: seq)
  next
    case (regenerate k)
    then show ?thesis using P by (simp add: counts_ok_seq [OF C ok] counts_okD(5) [OF C])
  next
    case (rebase k)
    then show ?thesis using P by (simp add: rebase_def counts_ok_seq [OF C ok] counts_okD(5) [OF C])
  next
    case (dispatch k d tn)
    then show ?thesis using P by (simp add: dispatch_seq_def counts_ok_seq [OF C ok])
  next
    case mint
    have "0 < fb_next_dispatch f + 1" using less_succ [OF mint(2)] P by (rule order.strict_trans [rotated])
    then show ?thesis using less_succ [OF mint(2)] by (simp add: mint counts_ok_same [OF C])
  next
    case (issue k s g')
    from counts_ok_issue [OF C B issue(5)] show ?thesis
      unfolding issue(1) by (rule conjI [OF counts_ok_seq]) (simp_all add: ok P counts_okD(5) [OF C])
  next
    case (consume rec s gr fin)
    then show ?thesis using counts_ok_consume [OF C B consume(2,3,4)] P by (simp add: consume_grant_def)
  next
    case (abort k s)
    have *: "counts_ok (upd_seq k clear_grant f)"
      by (rule counts_ok_seq [OF C ok]) (simp add: clear_grant_def counts_okD(5) [OF C])
    have "books_ok (upd_seq k clear_grant f)"
      by (rule books_ok_tokens [OF B]) (auto intro: token_ok_quiet simp: quiet_def clear_grant_def tokens_def)
    with * show ?thesis using P by (simp add: abort counts_ok_abort) (simp add: abort_grant_def)
  qed (use P in \<open>simp_all add: counts_ok_same [OF C]\<close>)
qed

lemma tallies_ok_new: "tallies_ok (new_Fabric cfg clock)"
  by (simp add: tallies_ok_def books_ok_new)
    (simp add: counts_ok_def new_Fabric_def consumed_count_def tokens_emitted_def default_Stats_def)

interpretation tallies: fabric_invariant tallies_ok
proof unfold_locales
  show "tallies_ok (new_Fabric cfg clock)" for cfg clock by (rule tallies_ok_new)
  show "tallies_ok g" if "tallies_ok f" "fstep rc f g" for f rc g
    using fstep_counts [OF that(2,1)] fstep_books [OF that(2)] that(1) by (simp add: tallies_ok_def)
qed

section \<open>The history is bounded\<close>

lemma fstep_history: "fstep rc f g \<Longrightarrow> history_ok g = history_ok f"
proof (induction rule: fstep.induct)
  case (noise f' f)
  then show ?case by (rule coreD)
next
  case (rehash f f')
  then show ?case by (auto simp: rehashed_def)
qed (simp_all add: reserve_group_def register_worker_def consume_grant_def Let_def)

interpretation history: fabric_invariant history_ok
  by unfold_locales (simp_all add: fstep_history, simp add: history_ok_def new_Fabric_def)

end
