(* ===== verification/Scenario.thy ===== *)
theory Scenario
  imports Accounts
begin

text \<open>
  A concrete run: one worker, one request for two tokens, its first token scheduled, authorised and
  receipted. Properties about runs are applied to its states.
\<close>

definition sc_key :: CompatibilityKey where
  "sc_key = default_CompatibilityKey\<lparr>ck_model := 7, ck_revision := 1, ck_device := 3\<rparr>"

definition sc_worker :: WorkerDescriptor where
  "sc_worker = \<lparr>wd_id = 5, wd_boot_id = 9, wd_device = default_DeviceDescriptor\<lparr>dd_id := 3, dd_memory_bytes := 4096\<rparr>,
     wd_health = WH_Healthy, wd_advertised_capacity = 8, wd_active_reservations = 0,
     wd_supported_models = [sc_key], wd_generation = 0\<rparr>"

definition sc_request :: DecodeRequest where
  "sc_request = default_DecodeRequest\<lparr>rq_id := 11, rq_tenant := 2, rq_model := 7, rq_revision := 1,
     rq_sequence := 21, rq_prompt_length := 16, rq_max_generation_length := 2\<rparr>"

definition sc_member :: PreparedMember where
  "sc_member = \<lparr>pm_sequence = 21, pm_state = 0, pm_attempt = 11, pm_generation = 1, pm_dispatch = 1,
     pm_epoch = 1, pm_worker = 5, pm_worker_boot = 9, pm_proposal = 77, pm_pre_state_digest = 100,
     pm_post_state_digest = 101, pm_delta_digest = 102,
     pm_outcome = default_MemberOutcome\<lparr>mo_sequence := 21, mo_kind := MK_StepSuccessContinue, mo_token_identifier := 42\<rparr>,
     pm_committed_position_before = 0, pm_committed_position_after = 1, pm_active_ns = 10\<rparr>"

definition sc_prepared :: PreparedDecode where
  "sc_prepared = \<lparr>pd_dispatch_id = 1, pd_epoch = 1, pd_worker = 5, pd_worker_boot = 9,
     pd_members = [sc_member], pd_group_active_ns = 10, pd_group_error = EC_Ok, pd_group_error_message = []\<rparr>"

definition sc_receipt :: MemberReceipt where
  "sc_receipt = default_MemberReceipt\<lparr>mr_receipt_id := 500, mr_grant_id := 1, mr_proposal := 77, mr_epoch := 1,
     mr_worker := 5, mr_worker_boot := 9, mr_sequence := 21, mr_attempt := 11, mr_generation := 1, mr_dispatch := 1,
     mr_committed_position_after := 1, mr_pre_state_digest := 100, mr_post_state_digest := 101,
     mr_delta_digest := 102, mr_token_identifier := 42, mr_active_ns := 10, mr_committed_at := 1000\<rparr>"

definition sc_receipts :: ReceiptDecode where
  "sc_receipts = \<lparr>rd_dispatch_id = 1, rd_epoch = 1, rd_worker = 5, rd_worker_boot = 9,
     rd_receipts = [sc_receipt], rd_group_error = EC_Ok, rd_group_error_message = []\<rparr>"

definition sc_start :: Fabric where
  "sc_start = new_Fabric default_Config (\<lambda>n. of_nat n)"

definition sc_registered :: Fabric where
  "sc_registered = perform (RegisterWorker sc_worker) sc_start"

definition sc_admitted :: Fabric where
  "sc_admitted = perform (Submit sc_request) sc_registered"

definition sc_scheduled :: Fabric where
  "sc_scheduled = perform (Schedule 10) sc_admitted"

definition sc_granted :: Fabric where
  "sc_granted = perform (AuthorizePrepared sc_prepared) sc_scheduled"

definition sc_done :: Fabric where
  "sc_done = perform (ApplyCommitReceipt sc_receipts) sc_granted"

section \<open>Its states\<close>

lemma event_frame [simp]:
  "fb_workers (record_event a b c d f) = fb_workers f"
  "fb_worker_current_boot (record_event a b c d f) = fb_worker_current_boot f"
  "fb_epoch (record_event a b c d f) = fb_epoch f" "fb_clock (record_event a b c d f) = fb_clock f"
  "fb_ticks (record_event a b c d f) = Suc (fb_ticks f)"
  "fb_tenant_active (record_event a b c d f) = fb_tenant_active f"
  "fb_terminal_records (record_event a b c d f) = fb_terminal_records f"
  by (simp_all add: record_event_def tick_def Let_def)

lemmas sc_simps = tick_def bump_def Let_def id_is_valid_def id_is_null_def id_null_def
  umap_set_def umap_find_def umap_get_def upd_seq_def umap_upd_def umap_erase_def seq_at_def

lemma sc_registered_eq:
  "fb_workers sc_registered = [(5, sc_worker)]" "fb_worker_current_boot sc_registered = [(5, 9)]"
  "fb_dev_mem sc_registered = [(3, \<lparr>dm_capacity = 4096, dm_reserved = 0, dm_headroom_floor = 0\<rparr>)]"
  "fb_seqs sc_registered = []" "fb_cfg sc_registered = default_Config" "fb_epoch sc_registered = 1"
  "fb_next_dispatch sc_registered = 1" "fb_next_grant sc_registered = 1" "fb_next_reservation sc_registered = 1"
  "fb_reservations sc_registered = []" "fb_grant_ledger sc_registered = []" "fb_ticks sc_registered = 1"
  "fb_clock sc_registered = of_nat" "fb_tenant_active sc_registered = []" "fb_terminal_records sc_registered = []"
  by (simp_all add: sc_registered_def register_worker_def wd_valid_def sc_worker_def sc_start_def new_Fabric_def
      default_DevMem_def default_Config_def default_FabricLimits_def sc_simps)

lemma sc_valid: "validate sc_request = Inr ()"
proof -
  have "f64_less 0 0x3FF0000000000000" by code_simp
  then show ?thesis by (simp add: validate_def valid_request_id_def sc_request_def default_DecodeRequest_def id_is_valid_def)
qed

definition sc_seq :: Seq where
  "sc_seq = admitted_seq (sc_request\<lparr>rq_arrival := 1\<rparr>)"

lemma sc_admitted_eq:
  "fb_workers sc_admitted = [(5, sc_worker)]" "fb_worker_current_boot sc_admitted = [(5, 9)]"
  "fb_dev_mem sc_admitted = [(3, \<lparr>dm_capacity = 4096, dm_reserved = 0, dm_headroom_floor = 0\<rparr>)]"
  "fb_seqs sc_admitted = [(21, sc_seq)]" "fb_cfg sc_admitted = default_Config" "fb_epoch sc_admitted = 1"
  "fb_next_dispatch sc_admitted = 1" "fb_next_grant sc_admitted = 1" "fb_next_reservation sc_admitted = 1"
  "fb_reservations sc_admitted = []" "fb_grant_ledger sc_admitted = []" "fb_terminal_records sc_admitted = []"
proof -
  have key: "key_for_model f (sc_request\<lparr>rq_arrival := 1\<rparr>) = sc_key" if "fb_workers f = [(5, sc_worker)]" for f
    using that by (simp add: key_for_model_def model_keys_def sc_worker_def sc_key_def sc_request_def
        default_CompatibilityKey_def default_DecodeRequest_def id_is_valid_def)
  have bk: "build_key sc_request sc_registered = (sc_request\<lparr>rq_arrival := 1\<rparr>, sc_registered\<lparr>fb_ticks := 2\<rparr>)"
    using key [of "sc_registered\<lparr>fb_ticks := 2\<rparr>"]
    by (simp add: build_key_def tick_def sc_registered_eq Let_def numeral_2_eq_2)
      (simp add: sc_request_def sc_key_def default_CompatibilityKey_def default_DecodeRequest_def)
  have "sc_admitted = snd (admit 21 (sc_request\<lparr>rq_arrival := 1\<rparr>) (sc_registered\<lparr>fb_ticks := 2\<rparr>))"
    by (simp add: sc_admitted_def submit_def sc_valid bk sc_registered_eq backpressure_reason_def default_Config_def
        default_FabricLimits_def default_GroupLimits_def id_is_valid_def Let_def)
       (simp add: sc_request_def)
  note eq = this [unfolded admit_def Let_def snd_conv]
  show
  "fb_workers sc_admitted = [(5, sc_worker)]" "fb_worker_current_boot sc_admitted = [(5, 9)]"
  "fb_dev_mem sc_admitted = [(3, \<lparr>dm_capacity = 4096, dm_reserved = 0, dm_headroom_floor = 0\<rparr>)]"
  "fb_seqs sc_admitted = [(21, sc_seq)]" "fb_cfg sc_admitted = default_Config" "fb_epoch sc_admitted = 1"
  "fb_next_dispatch sc_admitted = 1" "fb_next_grant sc_admitted = 1" "fb_next_reservation sc_admitted = 1"
  "fb_reservations sc_admitted = []" "fb_grant_ledger sc_admitted = []" "fb_terminal_records sc_admitted = []"
    by (simp_all add: eq sc_registered_eq sc_simps sc_seq_def)
qed

lemma sc_seq_simps:
  "s_machine sc_seq = ST_Ready" "s_budget sc_seq = new_budget 2" "s_req sc_seq = sc_request\<lparr>rq_arrival := 1\<rparr>"
  "s_generated sc_seq = 0" "s_committed sc_seq = 0" "s_generation sc_seq = 1" "s_state sc_seq = default_StateDescriptor"
  "s_current_attempt sc_seq = 11" "s_reservation sc_seq = 0" "s_has_inflight_grant sc_seq = False"
  "s_state_digest_established sc_seq = False" "s_has_accepted sc_seq = False"
  by (simp_all add: sc_seq_def admitted_seq_def sc_request_def default_Seq_def default_DecodeRequest_def sc_simps sm_go_eq
      can_transition_def)

lemma sc_candidates:
  "\<exists>c. cand_seq c = 21 \<and> cand_key c = sc_key \<and> candidates 10 sc_admitted = ([c], sc_admitted)"
proof -
  have pass: "schedule_pass 10 21 sc_admitted = sc_admitted"
    by (simp add: schedule_pass_def seq_at_def umap_get_def umap_find_def sc_admitted_eq sc_seq_simps deadline_passed_def
        sc_request_def default_DecodeRequest_def Let_def)
  have key: "key_for_model sc_admitted (sc_request\<lparr>rq_arrival := 1\<rparr>) = sc_key"
    by (simp add: key_for_model_def model_keys_def sc_admitted_eq sc_worker_def sc_key_def sc_request_def
        default_CompatibilityKey_def default_DecodeRequest_def id_is_valid_def)
  show ?thesis
    by (simp add: candidates_def pass sc_admitted_eq collect_candidate_def seq_at_def umap_get_def umap_find_def sc_seq_simps
        is_candidate_state_def key Let_def)
       (simp add: budget_exhausted_def new_budget_def ck_valid_def sc_key_def id_is_valid_def)
qed

lemma sc_key_limits:
  "group_accepts f k []" if "fb_cfg f = default_Config"
  using that by (simp add: group_accepts_def default_Config_def default_GroupLimits_def Let_def)

definition sc_grouped :: Fabric where
  "sc_grouped = upd_seq 21 (\<lambda>s. s\<lparr>s_last_grouped_at := 10, s_ready_at := 10\<rparr>) (go 21 ST_Grouped sc_admitted)"

lemma sc_formed:
  "\<exists>cands. candidates 10 sc_admitted = (cands, sc_admitted) \<and>
     form_groups 10 cands sc_admitted = ([\<lparr>fm_key = sc_key, fm_members = [21]\<rparr>], sc_grouped)"
  using sc_candidates
  by (auto simp: form_groups_def stable_sort_def form_candidate_def group_slot_def Let_def sc_key_limits sc_admitted_eq
      sc_grouped_def)

definition sc_grouped_seq :: Seq where
  "sc_grouped_seq = sc_seq\<lparr>s_machine := ST_Grouped, s_last_grouped_at := 10, s_ready_at := 10\<rparr>"

lemma sc_grouped_eq:
  "fb_workers sc_grouped = [(5, sc_worker)]" "fb_worker_current_boot sc_grouped = [(5, 9)]"
  "fb_dev_mem sc_grouped = [(3, \<lparr>dm_capacity = 4096, dm_reserved = 0, dm_headroom_floor = 0\<rparr>)]"
  "fb_seqs sc_grouped = [(21, sc_grouped_seq)]" "fb_epoch sc_grouped = 1"
  "fb_next_dispatch sc_grouped = 1" "fb_next_grant sc_grouped = 1" "fb_next_reservation sc_grouped = 1"
  "fb_reservations sc_grouped = []" "fb_grant_ledger sc_grouped = []" "fb_terminal_records sc_grouped = []"
  by (simp_all add: sc_grouped_def go_def sc_admitted_eq sc_simps sc_grouped_seq_def sc_seq_simps sm_go_eq can_transition_def)

definition sc_dispatch :: Dispatch where
  "sc_dispatch = fst (issue_dispatch 10 \<lparr>fm_key = sc_key, fm_members = [21]\<rparr> 5 sc_worker
     (fst (reserve_group 10 sc_worker 64 sc_grouped)) (snd (reserve_group 10 sc_worker 64 sc_grouped)))"

lemma sc_placed:
  "place_group 10 \<lparr>fm_key = sc_key, fm_members = [21]\<rparr> ([], sc_grouped) = ([sc_dispatch],
     snd (issue_dispatch 10 \<lparr>fm_key = sc_key, fm_members = [21]\<rparr> 5 sc_worker
     (fst (reserve_group 10 sc_worker 64 sc_grouped)) (snd (reserve_group 10 sc_worker 64 sc_grouped))))"
proof -
  have w: "choose_worker sc_key sc_grouped = Some (5, sc_worker)"
    by (simp add: choose_worker_def sc_grouped_eq) (simp add: worker_eligible_def sc_worker_def)
  have g: "group_growth sc_grouped [21] = 64"
    by (simp add: group_growth_def sc_grouped_eq sc_simps sc_grouped_seq_def sc_seq_simps default_StateDescriptor_def)
  have m: "\<not> memory_refused \<lparr>dm_capacity = 4096, dm_reserved = 0, dm_headroom_floor = 0\<rparr> 64"
    by (simp add: memory_refused_def)
  have d: "dd_id (wd_device sc_worker) = 3" by (simp add: sc_worker_def)
  have same: "sc_grouped\<lparr>fb_dev_mem := [(3, \<lparr>dm_capacity = 4096, dm_reserved = 0, dm_headroom_floor = 0\<rparr>)]\<rparr> = sc_grouped"
    by (simp flip: sc_grouped_eq(3))
  show ?thesis
    by (simp add: place_group_def w g m d same sc_grouped_eq umap_get_def umap_find_def Let_def sc_dispatch_def case_prod_beta)
qed

definition sc_dispatched_seq :: Seq where
  "sc_dispatched_seq = sc_grouped_seq\<lparr>s_in_flight_dispatch := 1, s_in_flight_worker := 5, s_in_flight_worker_boot := 9,
     s_in_flight_epoch := 1, s_in_flight_generation := 1, s_has_inflight := True, s_reservation := 1,
     s_last_dispatched_at := 10, s_machine := ST_Dispatched, s_ever_ran := True\<rparr>"

lemma refresh_frame [simp]:
  "fb_workers (refresh_derived_stats f) = fb_workers f" "fb_epoch (refresh_derived_stats f) = fb_epoch f"
  "fb_worker_current_boot (refresh_derived_stats f) = fb_worker_current_boot f"
  "fb_terminal_records (refresh_derived_stats f) = fb_terminal_records f"
  by (simp_all add: refresh_derived_stats_def bump_def)

lemma sc_scheduled_eq:
  "fst (schedule 10 sc_admitted) = [sc_dispatch]"
  "fb_seqs sc_scheduled = [(21, sc_dispatched_seq)]" "fb_epoch sc_scheduled = 1"
  "fb_worker_current_boot sc_scheduled = [(5, 9)]"
  "fb_dev_mem sc_scheduled = [(3, \<lparr>dm_capacity = 4096, dm_reserved = 64, dm_headroom_floor = 0\<rparr>)]"
  "fb_next_dispatch sc_scheduled = 2" "fb_next_grant sc_scheduled = 1" "fb_grant_ledger sc_scheduled = []"
  "map fst (fb_reservations sc_scheduled) = [1]" "fb_terminal_records sc_scheduled = []"
proof -
  obtain cands where c: "candidates 10 sc_admitted = (cands, sc_admitted)"
    "form_groups 10 cands sc_admitted = ([\<lparr>fm_key = sc_key, fm_members = [21]\<rparr>], sc_grouped)"
    using sc_formed by blast
  have s: "schedule 10 sc_admitted = ([sc_dispatch], refresh_derived_stats
    (snd (issue_dispatch 10 \<lparr>fm_key = sc_key, fm_members = [21]\<rparr> 5 sc_worker
     (fst (reserve_group 10 sc_worker 64 sc_grouped)) (snd (reserve_group 10 sc_worker 64 sc_grouped)))))"
    by (simp add: schedule_def c sc_placed)
  show "fst (schedule 10 sc_admitted) = [sc_dispatch]" by (simp add: s)
  have w: "dd_id (wd_device sc_worker) = 3" "wd_id sc_worker = 5" by (simp_all add: sc_worker_def)
  have t: "can_transition ST_Grouped ST_Reserved" "can_transition ST_Reserved ST_Dispatched"
    by (simp_all add: can_transition_def)
  show "fb_seqs sc_scheduled = [(21, sc_dispatched_seq)]" "fb_epoch sc_scheduled = 1"
    "fb_worker_current_boot sc_scheduled = [(5, 9)]"
    "fb_dev_mem sc_scheduled = [(3, \<lparr>dm_capacity = 4096, dm_reserved = 64, dm_headroom_floor = 0\<rparr>)]"
    "fb_next_dispatch sc_scheduled = 2" "fb_next_grant sc_scheduled = 1" "fb_grant_ledger sc_scheduled = []"
    "map fst (fb_reservations sc_scheduled) = [1]" "fb_terminal_records sc_scheduled = []"
    by (simp_all add: sc_scheduled_def s issue_dispatch_def reserve_group_def dispatch_member_def dispatch_seq_def w t
        sc_grouped_eq sc_simps sc_dispatched_seq_def sc_grouped_seq_def sc_seq_simps sm_go_eq)
qed

definition sc_grant :: CommitGrant where
  "sc_grant = member_grant 1 sc_prepared sc_member"

lemma sc_dispatched_simps:
  "s_machine sc_dispatched_seq = ST_Dispatched" "s_current_attempt sc_dispatched_seq = 11"
  "s_in_flight_generation sc_dispatched_seq = 1" "s_in_flight_dispatch sc_dispatched_seq = 1"
  "s_has_accepted sc_dispatched_seq = False" "s_has_inflight_grant sc_dispatched_seq = False"
  "s_generated sc_dispatched_seq = 0" "s_committed sc_dispatched_seq = 0" "s_generation sc_dispatched_seq = 1"
  "s_state_digest_established sc_dispatched_seq = False" "s_reservation sc_dispatched_seq = 1"
  "s_budget sc_dispatched_seq = new_budget 2" "s_req sc_dispatched_seq = sc_request\<lparr>rq_arrival := 1\<rparr>"
  by (simp_all add: sc_dispatched_seq_def sc_grouped_seq_def sc_seq_simps)

lemma sc_authorized:
  "authorize_member sc_prepared sc_member sc_scheduled = issue_grant sc_prepared sc_member sc_scheduled"
proof -
  have a: "authority_fault sc_member sc_dispatched_seq sc_scheduled = None"
    by (simp add: authority_fault_def stale_boot_def sc_scheduled_eq umap_find_def sc_dispatched_simps Let_def)
      (simp add: sc_member_def)
  have b: "binding_fault sc_member sc_dispatched_seq = None"
    by (simp add: binding_fault_def sc_dispatched_simps) (simp add: sc_member_def)
  have "umap_find (fb_seqs sc_scheduled) (pm_sequence sc_member) = Some sc_dispatched_seq"
    by (simp add: sc_scheduled_eq umap_find_def) (simp add: sc_member_def)
  then show ?thesis
    using a b by (simp add: authorize_member_def sc_dispatched_simps Let_def)
      (simp add: is_commit_eligible_def sc_member_def mo_succeeded_def default_MemberOutcome_def)
qed

definition sc_granted_seq :: Seq where
  "sc_granted_seq = sc_dispatched_seq\<lparr>s_in_flight_grant := 1, s_has_inflight_grant := True,
     s_in_flight_proposal := 77, s_in_flight_position := 0\<rparr>"

lemma sc_granted_eq:
  "fb_seqs sc_granted = [(21, sc_granted_seq)]" "fb_grant_ledger sc_granted = [(1, fresh_grant sc_grant)]"
  "fb_next_grant sc_granted = 2" "fb_receipt_count sc_granted = fb_receipt_count sc_scheduled" "fb_terminal_records sc_granted = []"
proof -
  have "pd_members sc_prepared = [sc_member]" by (simp add: sc_prepared_def)
  then have eq: "sc_granted = snd (issue_grant sc_prepared sc_member sc_scheduled)"
    by (simp add: sc_granted_def authorize_prepared_def authorize_loop_def case_prod_beta sc_authorized)
  have m: "pm_sequence sc_member = 21" "pm_proposal sc_member = 77" "pm_committed_position_before sc_member = 0"
    by (simp_all add: sc_member_def)
  show "fb_seqs sc_granted = [(21, sc_granted_seq)]" "fb_grant_ledger sc_granted = [(1, fresh_grant sc_grant)]"
    "fb_next_grant sc_granted = 2" "fb_receipt_count sc_granted = fb_receipt_count sc_scheduled" "fb_terminal_records sc_granted = []"
    by (simp_all add: eq issue_grant_def m sc_scheduled_eq sc_simps sc_granted_seq_def fresh_grant_def sc_grant_def)
qed

lemma sc_reaches:
  "fab_run default_Config of_nat sc_admitted" "fab_run default_Config of_nat sc_scheduled"
  "fab_run default_Config of_nat sc_granted" "fab_run default_Config of_nat sc_done"
proof -
  have "fab_run default_Config of_nat sc_start" unfolding sc_start_def by (rule fab_run.start)
  then have "fab_run default_Config of_nat sc_registered"
    unfolding sc_registered_def by (rule fab_run.op) (simp add: sc_worker_def)
  then show a: "fab_run default_Config of_nat sc_admitted"
    unfolding sc_admitted_def by (rule fab_run.op) simp
  then show s: "fab_run default_Config of_nat sc_scheduled"
    unfolding sc_scheduled_def by (rule fab_run.op) (simp add: sc_admitted_eq)
  then show g: "fab_run default_Config of_nat sc_granted"
    unfolding sc_granted_def
    by (rule fab_run.op) (simp add: sc_scheduled_eq, simp add: sc_prepared_def sc_member_def)
  then show "fab_run default_Config of_nat sc_done"
    unfolding sc_done_def by (rule fab_run.op) simp
qed

lemma sc_receipt_ids: "mr_sequence sc_receipt = 21" "mr_grant_id sc_receipt = 1" "mr_proposal sc_receipt = 77"
  "rd_receipts sc_receipts = [sc_receipt]"
  by (simp_all add: sc_receipt_def sc_receipts_def)

lemma sc_receipt_binds: "receipt_binds sc_receipt sc_grant"
  by (simp add: receipt_binds_def sc_receipt_def sc_grant_def member_grant_def sc_member_def sc_prepared_def
      default_MemberReceipt_def)

lemma sc_done_final: "sc_done = refresh_derived_stats (finalize sc_receipt sc_granted)"
proof -
  have "s_machine sc_granted_seq = ST_Dispatched" by (simp add: sc_granted_seq_def sc_dispatched_simps)
  then show ?thesis
    using sc_receipt_binds
    by (simp add: sc_done_def apply_commit_receipt_def sc_receipt_ids apply_receipt_def sc_granted_eq umap_find_def
        fresh_grant_def sc_granted_seq_def is_stopped_def)
qed

lemma sc_done_eq: "\<exists>s. fb_seqs sc_done = [(21, s)] \<and> s_committed s = 1 \<and> s_generation s = 2 \<and> s_committed_state_digest s = 101"
proof -
  have "umap_find (fb_seqs sc_granted) (mr_sequence sc_receipt) = Some sc_granted_seq"
    by (simp add: sc_granted_eq sc_receipt_ids umap_find_def)
  from coreD(2) [OF finalize_core [OF this]]
  have "fb_seqs sc_done = fb_seqs (releasing 21 (consume_grant sc_receipt (fst (finalize_step sc_receipt sc_granted)) sc_granted))"
    by (simp add: sc_done_final sc_receipt_ids)
  then show ?thesis
    by (simp add: consume_grant_def sc_receipt_ids sc_granted_eq umap_upd_def sc_granted_seq_def sc_dispatched_simps)
      (simp add: sc_receipt_def)
qed

lemma sc_done_request: "umap_find (fb_seqs sc_done) 21 = Some s \<Longrightarrow> s_req s = sc_request\<lparr>rq_arrival := 1\<rparr>"
proof -
  assume "umap_find (fb_seqs sc_done) 21 = Some s"
  moreover have "evolves sc_granted sc_done"
    unfolding sc_done_def
    by (rule reach_evolves [OF perform_reach books.run_invariant [OF sc_reaches(3)]]) simp
  moreover have "umap_find (fb_seqs sc_granted) 21 = Some sc_granted_seq" by (simp add: sc_granted_eq umap_find_def)
  ultimately have "s_req s = s_req sc_granted_seq"
    unfolding evolves_def becomes_def by (metis option.inject)
  then show ?thesis by (simp add: sc_granted_seq_def sc_dispatched_simps)
qed

end
