(* ===== verification/FabricProperties.thy ===== *)
theory FabricProperties
  imports Scenario
begin

text \<open>
  What the fabric guarantees its clients, in every run: bounded token accounts, one consumed grant per
  committed token, digests that chain, terminal states that are final, memory and statistics that close,
  and the functional behaviour of authorisation and receipts.
\<close>

section \<open>Accounts of a sequence\<close>

text \<open>C2: In every run of the fabric, whatever operations are called in whatever order, the account of a
  sequence is consistent and within its budget: the tokens committed, generated and charged to the
  budget are the same number, at least the pregenerated tokens and at most the maximum; the decode
  generation counts the tokens committed since admission, and the length is the prompt plus them.\<close>

theorem tokens_within_budget:
  assumes "fab_run cfg clock f" and "umap_find (fb_seqs f) k = Some s"
  shows "s_generated s = s_committed s \<and> tb_generated (s_budget s) = s_committed s \<and>
    rq_pregenerated (s_req s) \<le> s_committed s \<and> s_committed s \<le> rq_max_generation_length (s_req s) \<and>
    s_generation s = s_committed s - rq_pregenerated (s_req s) + 1 \<and>
    s_current_length s = rq_prompt_length (s_req s) + s_committed s"
  using books_okD(3) [OF books.run_invariant [OF assms(1)] assms(2)] by (auto simp: token_ok_def budget_ok_def)

theorem tokens_within_budget_witness:
  "\<exists>s. umap_find (fb_seqs sc_done) 21 = Some s \<and> s_committed s = 1 \<and> s_committed s \<le> rq_max_generation_length (s_req s) \<and>
     s_generated s = 1"
proof -
  obtain s where "fb_seqs sc_done = [(21, s)]" "s_committed s = 1" using sc_done_eq by blast
  then have s: "umap_find (fb_seqs sc_done) 21 = Some s" "s_committed s = 1" by (simp_all add: umap_find_def)
  show ?thesis using s tokens_within_budget [OF sc_reaches(4) s(1)] by auto
qed

section \<open>Exactly one grant per token\<close>

text \<open>C1: In every run, each token position a sequence has committed since its admission is backed by
  exactly one consumed grant of the ledger: no token without a grant, and no token granted twice.\<close>

theorem one_grant_per_token:
  assumes "fab_run cfg clock f" and "umap_find (fb_seqs f) k = Some s"
    and "rq_pregenerated (s_req s) \<le> p" and "p < s_committed s"
  shows "\<exists>!i. \<exists>gr. umap_find (fb_grant_ledger f) i = Some gr \<and> gr_status gr = 1 \<and>
    cg_sequence (gr_grant gr) = k \<and> cg_committed_position (gr_grant gr) = p"
proof -
  note L = books_okD(4) [OF books.run_invariant [OF assms(1)]]
  obtain i g where "consumed (umap_find (fb_grant_ledger f)) i g" "cg_sequence g = k" "cg_committed_position g = p"
    by (rule consumed_coverD [OF ledger_okD(5) [OF L] assms(2-4)])
  then obtain gr where gr: "umap_find (fb_grant_ledger f) i = Some gr" "gr_status gr = 1"
    "cg_sequence (gr_grant gr) = k" "cg_committed_position (gr_grant gr) = p"
    unfolding consumed_def by auto
  show ?thesis
  proof (rule ex1I [of _ i])
    show "\<exists>gr. umap_find (fb_grant_ledger f) i = Some gr \<and> gr_status gr = 1 \<and>
      cg_sequence (gr_grant gr) = k \<and> cg_committed_position (gr_grant gr) = p" using gr by blast
    show "j = i" if "\<exists>gr. umap_find (fb_grant_ledger f) j = Some gr \<and> gr_status gr = 1 \<and>
      cg_sequence (gr_grant gr) = k \<and> cg_committed_position (gr_grant gr) = p" for j
      using that gr ledger_okD(4) [OF L] unfolding consumed_inj_def consumed_def by metis
  qed
qed

theorem one_grant_per_token_witness:
  "\<exists>!i. \<exists>gr. umap_find (fb_grant_ledger sc_done) i = Some gr \<and> gr_status gr = 1 \<and>
    cg_sequence (gr_grant gr) = 21 \<and> cg_committed_position (gr_grant gr) = 0"
proof -
  obtain s where "fb_seqs sc_done = [(21, s)]" "s_committed s = 1" using sc_done_eq by blast
  then have s: "umap_find (fb_seqs sc_done) 21 = Some s" "0 < s_committed s" by (simp_all add: umap_find_def)
  have "rq_pregenerated (s_req s) = 0"
    using sc_done_request [OF s(1)] by (simp add: sc_request_def default_DecodeRequest_def)
  then show ?thesis using one_grant_per_token [OF sc_reaches(4) s(1) _ s(2)] by simp
qed

section \<open>The digest chain\<close>

text \<open>C3: In every run the consumed grants of a sequence form a chain of state digests: the grant of the
  next position starts from the state digest the previous one ended in, and the sequence's committed
  digest is the one its last grant ended in.\<close>

theorem grants_chain_digests:
  assumes "fab_run cfg clock f" and "umap_find (fb_seqs f) k = Some s"
    and "rq_pregenerated (s_req s) \<le> p" and "p < s_committed s"
  shows "\<exists>i gr. umap_find (fb_grant_ledger f) i = Some gr \<and> gr_status gr = 1 \<and> cg_sequence (gr_grant gr) = k \<and>
    cg_committed_position (gr_grant gr) = p \<and>
    (if p + 1 = s_committed s then cg_post_state_digest (gr_grant gr) = sequence_committed_digest f k
     else \<exists>j gr'. umap_find (fb_grant_ledger f) j = Some gr' \<and> gr_status gr' = 1 \<and> cg_sequence (gr_grant gr') = k \<and>
       cg_committed_position (gr_grant gr') = p + 1 \<and>
       cg_pre_state_digest (gr_grant gr') = cg_post_state_digest (gr_grant gr))"
proof -
  note L = books_okD(4) [OF books.run_invariant [OF assms(1)]]
  note cover = consumed_coverD [OF ledger_okD(5) [OF L] assms(2)]
  obtain i g where g: "consumed (umap_find (fb_grant_ledger f)) i g" "cg_sequence g = k" "cg_committed_position g = p"
    by (rule cover [OF assms(3,4)])
  have "cg_post_state_digest g = sequence_committed_digest f k" if "p + 1 = s_committed s"
    using tip_okD(2) [OF ledger_okD(7) [OF L] _ g(1)] assms(2) g that by (simp add: sequence_committed_digest_def)
  moreover have "\<exists>j h. consumed (umap_find (fb_grant_ledger f)) j h \<and> cg_sequence h = k \<and> cg_committed_position h = p + 1 \<and>
      cg_pre_state_digest h = cg_post_state_digest g" if "p + 1 \<noteq> s_committed s"
  proof -
    have "p < p + 1" "p + 1 < s_committed s"
      using succ_less [OF assms(4), of p] inc_le [OF assms(4)] that by (simp_all add: less_le)
    then have "rq_pregenerated (s_req s) \<le> p + 1" "p + 1 < s_committed s" using assms(3) by auto
    then obtain j h where h: "consumed (umap_find (fb_grant_ledger f)) j h" "cg_sequence h = k" "cg_committed_position h = p + 1"
      by (rule cover)
    with g ledger_okD(6) [OF L] show ?thesis unfolding chained_def by metis
  qed
  ultimately show ?thesis using g unfolding consumed_def by auto
qed

theorem grants_chain_digests_witness:
  "\<exists>i gr. umap_find (fb_grant_ledger sc_done) i = Some gr \<and> gr_status gr = 1 \<and>
     cg_committed_position (gr_grant gr) = 0 \<and> cg_post_state_digest (gr_grant gr) = sequence_committed_digest sc_done 21"
proof -
  obtain s where "fb_seqs sc_done = [(21, s)]" "s_committed s = 1" using sc_done_eq by blast
  then have s: "umap_find (fb_seqs sc_done) 21 = Some s" "0 < s_committed s" "0 + 1 = s_committed s"
    by (simp_all add: umap_find_def)
  have "rq_pregenerated (s_req s) = 0"
    using sc_done_request [OF s(1)] by (simp add: sc_request_def default_DecodeRequest_def)
  then show ?thesis using grants_chain_digests [OF sc_reaches(4) s(1) _ s(2)] s(3) by auto
qed

section \<open>Lifecycle\<close>



section \<open>Memory and statistics\<close>

text \<open>C20: In every run, what a device has reserved is the sum of the bytes of the live reservations on
  it and never exceeds the capacity registered for it.\<close>

theorem memory_is_accounted:
  assumes "fab_run cfg clock f" and "umap_find (fb_dev_mem f) dev = Some dm"
  shows "unat (dm_reserved dm) =
      (\<Sum>r\<leftarrow>fb_reservations f. if rv_device (snd r) = dev then unat (rv_bytes (snd r)) else 0) \<and>
    dm_reserved dm \<le> dm_capacity dm"
  using memory_okD(4,5) [OF memory.run_invariant [OF assms(1)], of dev] assms(2)
  by (simp add: on_device_def umap_get_def)

theorem memory_is_accounted_witness:
  "(\<Sum>r\<leftarrow>fb_reservations sc_scheduled. if rv_device (snd r) = 3 then unat (rv_bytes (snd r)) else 0) = 64"
  using memory_is_accounted [OF sc_reaches(2), of 3 "\<lparr>dm_capacity = 4096, dm_reserved = 64, dm_headroom_floor = 0\<rparr>"]
  by (simp add: sc_scheduled_eq umap_find_def)

text \<open>C21: In every run the fabric's counters agree: decode steps, generated tokens, receipts applied, grants
  consumed and tokens committed by all sequences since their admission are one number.\<close>

theorem counters_agree:
  assumes "fab_run cfg clock f"
  shows "st_decode_steps (fb_stats f) = receipt_count f \<and> st_generated_tokens (fb_stats f) = receipt_count f \<and>
    of_nat (length (filter (\<lambda>g. gr_status (snd g) = 1) (fb_grant_ledger f))) = receipt_count f \<and>
    (\<Sum>s\<leftarrow>fb_seqs f. s_committed (snd s) - rq_pregenerated (s_req (snd s))) = receipt_count f"
  using tallies.run_invariant [OF assms]
  by (simp add: tallies_ok_def counts_ok_def receipt_count_def consumed_count_def tokens_emitted_def)

theorem counters_agree_witness: "st_decode_steps (fb_stats sc_done) = 1"
proof -
  obtain s where s: "fb_seqs sc_done = [(21, s)]" "s_committed s = 1" using sc_done_eq by blast
  then have "rq_pregenerated (s_req s) = 0"
    using sc_done_request [of s] by (simp add: umap_find_def sc_request_def default_DecodeRequest_def)
  then show ?thesis using counters_agree [OF sc_reaches(4)] s by simp
qed

section \<open>Receipts\<close>

lemma apply_receipt_effective:
  assumes "umap_find (fb_grant_ledger f) (mr_grant_id rec) = Some gr" and "gr_status gr = 0"
    and "receipt_binds rec (gr_grant gr)" and "umap_find (fb_seqs f) (mr_sequence rec) = Some s"
    and "s_has_inflight_grant s" "s_in_flight_grant s = mr_grant_id rec" "s_in_flight_proposal s = mr_proposal rec"
    and "\<not> is_stopped (s_machine s)"
  shows "apply_receipt rec f = finalize rec f"
  using assms by (simp add: apply_receipt_def)



lemma fstep_settled:
  assumes "fstep rc f g" and "books_ok f" and "umap_find (fb_grant_ledger f) i = Some gr" and "gr_status gr \<noteq> 0"
  shows "umap_find (fb_grant_ledger g) i = Some gr"
  using assms(1)
proof cases
  case noise
  then show ?thesis using assms(3) coreD(9) [OF noise] by simp
next
  case rehash
  then have "mset (fb_grant_ledger g) = mset (fb_grant_ledger f)" by (auto simp: rehashed_def)
  from umap_find_perm(2) [OF books_okD(2) [OF assms(2)] this] assms(3) show ?thesis by simp
next
  case (issue k s g')
  then have "i \<noteq> fb_next_grant f"
    using ledger_okD(1) [OF books_okD(4) [OF assms(2)]] assms(3) by (auto simp: grants_wf_def)
  with issue show ?thesis using assms(3) by simp
next
  case (consume rec s gr' fin)
  then show ?thesis
    using assms(3,4) ledger_okD(1) [OF books_okD(4) [OF assms(2)]]
    by (cases "i = mr_grant_id rec") (auto simp: consume_grant_def grants_wf_def)
next
  case (abort k s)
  then show ?thesis using assms(3,4) by (cases "i = s_in_flight_grant s") (auto simp: abort_grant_def)
qed (use assms(3) in simp_all)

lemma reach_settled:
  "reach rc f g \<Longrightarrow> books_ok f \<Longrightarrow> umap_find (fb_grant_ledger f) i = Some gr \<Longrightarrow> gr_status gr \<noteq> 0 \<Longrightarrow>
   umap_find (fb_grant_ledger g) i = Some gr"
proof (induction rule: rtranclp_induct)
  case (step g h)
  then show ?case using fstep_settled [of rc g h] books.reach_invariant [of rc f g] by blast
qed

lemma performs_reach: "performs xs f = Some g \<Longrightarrow> reach True f g"
  by (induction xs arbitrary: f) (auto split: if_splits dest: perform_reach intro: rtranclp_trans)


lemma sc_done_ledger: "\<exists>gr. umap_find (fb_grant_ledger sc_done) 1 = Some gr \<and> gr_status gr = 1"
proof -
  have "umap_find (fb_seqs sc_granted) (mr_sequence sc_receipt) = Some sc_granted_seq"
    by (simp add: sc_granted_eq sc_receipt_ids umap_find_def)
  from coreD(9) [OF finalize_core [OF this]] show ?thesis
    by (simp add: sc_done_final consume_grant_def sc_granted_eq sc_receipt_ids) (simp add: umap_find_def)
qed


section \<open>Only receipts move tokens\<close>

definition same_tokens :: "Fabric \<Rightarrow> Fabric \<Rightarrow> bool" where
  "same_tokens f g \<longleftrightarrow> fb_receipt_count g = fb_receipt_count f \<and>
     (\<forall>k s. umap_find (fb_seqs f) k = Some s \<longrightarrow> (\<exists>s'. umap_find (fb_seqs g) k = Some s' \<and> tokens s' = tokens s))"

lemma same_tokens_refl [simp]: "same_tokens f f"
  by (simp add: same_tokens_def)

lemma same_tokens_trans: "same_tokens f g \<Longrightarrow> same_tokens g h \<Longrightarrow> same_tokens f h"
  unfolding same_tokens_def by metis

lemma same_tokens_upd:
  assumes "\<And>s. umap_find (fb_seqs f) k = Some s \<Longrightarrow> tokens (g s) = tokens s"
    and "fb_seqs f' = umap_upd k g (fb_seqs f)" and "fb_receipt_count f' = fb_receipt_count f"
  shows "same_tokens f f'"
  using assms by (auto simp: same_tokens_def)

lemma fstep_same_tokens:
  assumes "fstep False f g" and "books_ok f"
  shows "same_tokens f g"
  using assms(1)
proof cases
  case noise
  then show ?thesis using coreD(2,10) [OF noise] by (simp add: same_tokens_def)
next
  case rehash
  then have "mset (fb_seqs g) = mset (fb_seqs f)" "fb_receipt_count g = fb_receipt_count f" by (auto simp: rehashed_def)
  with umap_find_perm(2) [OF books_okD(1) [OF assms(2)] this(1)] show ?thesis by (simp add: same_tokens_def)
next
  case (seq k h)
  show ?thesis by (rule same_tokens_upd [of f k h]) (use seq in \<open>auto simp: quiet_def\<close>)
next
  case (regenerate k)
  show ?thesis
    by (rule same_tokens_upd [of f k "\<lambda>s. s\<lparr>s_generated := s_committed s\<rparr>"])
      (simp_all add: regenerate rebase_ok books_okD(3) [OF assms(2)])
next
  case (rebase k)
  show ?thesis
    by (rule same_tokens_upd [of f k FabricSteps.rebase]) (simp_all add: rebase rebase_ok books_okD(3) [OF assms(2)])
next
  case (dispatch k d tn)
  show ?thesis by (rule same_tokens_upd [of f k "dispatch_seq d tn"]) (simp_all add: dispatch)
next
  case (issue k s g')
  show ?thesis by (rule same_tokens_upd [of f k]) (simp_all add: issue tokens_def)
next
  case (abort k s)
  show ?thesis by (rule same_tokens_upd [of f k clear_grant]) (simp_all add: abort abort_grant_def clear_grant_def tokens_def)
qed (auto simp: same_tokens_def)

lemma reach_same_tokens: "reach False f g \<Longrightarrow> books_ok f \<Longrightarrow> same_tokens f g"
proof (induction rule: rtranclp_induct)
  case (step g h)
  then show ?case
    using fstep_same_tokens [of g h] books.reach_invariant [of False f g] by (blast intro: same_tokens_trans)
qed simp



section \<open>Authorisation\<close>

lemma go_ledger [simp]: "fb_grant_ledger (go k st f) = fb_grant_ledger f" "fb_next_grant (go k st f) = fb_next_grant f"
  by (simp_all add: go_def)

lemma stale_reconcile_ledger [simp]:
  "fb_grant_ledger (stale_reconcile k f) = fb_grant_ledger f" "fb_next_grant (stale_reconcile k f) = fb_next_grant f"
  by (simp_all add: stale_reconcile_def Let_def case_prod_beta)

lemma noncommit_ledger [simp]:
  "fb_grant_ledger (apply_noncommit_outcome k mo f) = fb_grant_ledger f"
  "fb_next_grant (apply_noncommit_outcome k mo f) = fb_next_grant f"
  by (cases "mo_kind mo"; simp add: apply_noncommit_outcome_def Let_def case_prod_beta)+

lemma authority_fault_None_iff:
  "authority_fault pm s f = None \<longleftrightarrow> pm_epoch pm = fb_epoch f \<and>
     (\<forall>b. umap_find (fb_worker_current_boot f) (pm_worker pm) = Some b \<longrightarrow> b = pm_worker_boot pm) \<and>
     pm_attempt pm = s_current_attempt s \<and> pm_generation pm = s_in_flight_generation s \<and>
     pm_dispatch pm = s_in_flight_dispatch s \<and> \<not> is_stopped (s_machine s)"
  by (auto simp: authority_fault_def stale_boot_def is_stopped_def is_terminal_def Let_def split: option.split)

lemma binding_fault_None_iff:
  "binding_fault pm s = None \<longleftrightarrow> \<not> s_has_inflight_grant s \<and> pm_committed_position_before pm = s_generated s \<and>
     (s_state_digest_established s \<longrightarrow> pm_pre_state_digest pm = s_committed_state_digest s)"
  by (auto simp: binding_fault_def)

text \<open>The grant is issued in one case and refused, without touching the ledger, in all others.\<close>

definition granted :: "PreparedMember \<Rightarrow> Seq \<Rightarrow> Fabric \<Rightarrow> bool" where
  "granted pm s f \<longleftrightarrow> authority_fault pm s f = None \<and> is_commit_eligible pm \<and>
     \<not> (s_has_accepted s \<and> ag_idempotency_key (s_accepted s) = acceptance_key_prepared pm) \<and> binding_fault pm s = None"

lemma authorize_granted:
  assumes "umap_find (fb_seqs f) (pm_sequence pm) = Some s" and "granted pm s f"
  shows "authorize_member prepared pm f = issue_grant prepared pm f"
  using assms by (auto simp: authorize_member_def granted_def Let_def)

lemma authorize_refused:
  assumes "\<And>s. umap_find (fb_seqs f) (pm_sequence pm) = Some s \<Longrightarrow> \<not> granted pm s f"
  shows "case authorize_member prepared pm f of (ga, f') \<Rightarrow> \<not> ga_has_grant ga \<and> ga_has_abort ga \<and>
    ga_abort_spec ga = member_abort pm \<and> ga_aborted ga \<and>
    fb_next_grant f' = fb_next_grant f \<and> fb_grant_ledger f' = fb_grant_ledger f"
  using assms
  by (auto simp: authorize_member_def granted_def rejected_ga_def initial_ga_def close_inflight_def Let_def
      split: option.split)

text \<open>C10: A prepared member is granted exactly when it holds the sequence's current authority (epoch,
  worker boot, attempt, generation, dispatch), the sequence is not stopped, the outcome is a committed
  step not accepted before, no other grant is pending, and position and pre-state digest continue the
  sequence. The grant gets the next id and is recorded as pending; otherwise the ledger keeps its entries
  and the caller gets an abort with the proposal's identity.\<close>

theorem grant_iff_authority:
  "case authorize_member prepared pm f of (ga, f') \<Rightarrow>
    (if (\<exists>s. umap_find (fb_seqs f) (pm_sequence pm) = Some s \<and> pm_epoch pm = fb_epoch f \<and>
         (\<forall>b. umap_find (fb_worker_current_boot f) (pm_worker pm) = Some b \<longrightarrow> b = pm_worker_boot pm) \<and>
         pm_attempt pm = s_current_attempt s \<and> pm_generation pm = s_in_flight_generation s \<and>
         pm_dispatch pm = s_in_flight_dispatch s \<and> \<not> is_stopped (s_machine s) \<and> mo_succeeded (pm_outcome pm) \<and>
         \<not> (s_has_accepted s \<and> ag_idempotency_key (s_accepted s) = acceptance_key_prepared pm) \<and>
         \<not> s_has_inflight_grant s \<and> pm_committed_position_before pm = s_generated s \<and>
         (s_state_digest_established s \<longrightarrow> pm_pre_state_digest pm = s_committed_state_digest s))
     then ga_has_grant ga \<and> \<not> ga_has_abort ga \<and> ga_grant ga = member_grant (fb_next_grant f) prepared pm \<and>
       fb_next_grant f' = fb_next_grant f + 1 \<and> grant_status f' (fb_next_grant f) = 0 \<and>
       pending_grant f' (pm_sequence pm) = fb_next_grant f \<and> has_pending_grant f' (pm_sequence pm)
     else \<not> ga_has_grant ga \<and> ga_has_abort ga \<and> ga_abort_spec ga = member_abort pm \<and> ga_aborted ga \<and>
       fb_next_grant f' = fb_next_grant f \<and> fb_grant_ledger f' = fb_grant_ledger f)"
proof (cases "\<exists>s. umap_find (fb_seqs f) (pm_sequence pm) = Some s \<and> granted pm s f")
  case True
  then obtain s where s: "umap_find (fb_seqs f) (pm_sequence pm) = Some s" "granted pm s f" by blast
  show ?thesis
    using s by (simp add: authorize_granted [OF s] granted_def authority_fault_None_iff binding_fault_None_iff
        is_commit_eligible_def)
      (simp add: issue_grant_def Let_def grant_status_def pending_grant_def has_pending_grant_def find_upd_seq)
next
  case False
  then show ?thesis
    using authorize_refused [of f pm prepared]
    by (simp add: granted_def authority_fault_None_iff binding_fault_None_iff is_commit_eligible_def case_prod_beta)
qed

theorem grant_iff_authority_witness:
  "ga_has_grant (fst (authorize_member sc_prepared sc_member sc_scheduled)) \<and>
   has_pending_grant (snd (authorize_member sc_prepared sc_member sc_scheduled)) 21"
proof -
  have m: "pm_sequence sc_member = 21" "pm_epoch sc_member = 1" "pm_worker sc_member = 5" "pm_worker_boot sc_member = 9"
    "pm_attempt sc_member = 11" "pm_generation sc_member = 1" "pm_dispatch sc_member = 1"
    "pm_committed_position_before sc_member = 0" "mo_succeeded (pm_outcome sc_member)"
    by (simp_all add: sc_member_def mo_succeeded_def default_MemberOutcome_def)
  show ?thesis
    using grant_iff_authority [where prepared = sc_prepared and pm = sc_member and f = sc_scheduled]
    by (simp add: m sc_scheduled_eq umap_find_def sc_dispatched_simps is_stopped_def is_terminal_def case_prod_beta)
qed

section \<open>Fencing\<close>

text \<open>What decides staleness: the coordinator epoch and the workers' current boots. Refusing a member keeps both.\<close>

definition fences :: "Fabric \<Rightarrow> CoordinatorEpoch \<times> (WorkerId, WorkerBootId) umap" where
  "fences f = (fb_epoch f, fb_worker_current_boot f)"

lemma fences_frame [simp]:
  "fences (record_event a b c d f) = fences f" "fences (upd_seq k g f) = fences f" "fences (go k st f) = fences f"
  "fences (bump h f) = fences f" "fences (snd (tick f)) = fences f" "fences (releasing k f) = fences f"
  by (simp_all add: fences_def go_def bump_def tick_def releasing_def release_reservation_def free_device_def Let_def
      split: option.split)

lemma fences_stale [simp]: "fences (stale_reconcile j f) = fences f" "fences (stale_event r k d f) = fences f"
  by (simp_all add: stale_event_def stale_bump_def stale_reconcile_def Let_def case_prod_beta)

definition fenced :: "PreparedMember \<Rightarrow> Fabric \<Rightarrow> bool" where
  "fenced pm f \<longleftrightarrow> pm_epoch pm \<noteq> fb_epoch f \<or> stale_boot f (pm_worker pm) (pm_worker_boot pm)"

lemma fenced_cong: "fences g = fences f \<Longrightarrow> fenced pm g = fenced pm f"
  by (simp add: fenced_def fences_def stale_boot_def)

lemma authorize_fenced:
  assumes "fenced pm f"
  shows "ga_rejected (fst (authorize_member pd pm f)) \<and> \<not> ga_has_grant (fst (authorize_member pd pm f)) \<and>
      ga_error_code (fst (authorize_member pd pm f)) \<in> {EC_StaleCoordinatorEpoch, EC_StaleWorkerBoot, EC_UnknownSequence}"
    and "fb_grant_ledger (snd (authorize_member pd pm f)) = fb_grant_ledger f"
    and "fences (snd (authorize_member pd pm f)) = fences f"
  using assms
  by (auto simp: fenced_def authorize_member_def authority_fault_def rejected_ga_def initial_ga_def Let_def split: option.split)

lemma authorize_loop_fenced:
  assumes "\<And>pm. pm \<in> set pms \<Longrightarrow> fenced pm f"
  shows "\<exists>gas f'. authorize_loop pd pms (out, f) = (out @ gas, f') \<and> length gas = length pms \<and>
    fb_grant_ledger f' = fb_grant_ledger f \<and> (\<forall>ga \<in> set gas. ga_rejected ga \<and> \<not> ga_has_grant ga \<and>
      ga_error_code ga \<in> {EC_StaleCoordinatorEpoch, EC_StaleWorkerBoot, EC_UnknownSequence})"
  using assms
proof (induction pms arbitrary: out f)
  case (Cons pm pms)
  let ?ga = "fst (authorize_member pd pm f)" and ?g = "snd (authorize_member pd pm f)"
  note one = authorize_fenced [OF Cons.prems [OF list.set_intros(1)], of pd]
  have "fenced x ?g" if "x \<in> set pms" for x using Cons.prems that fenced_cong [OF one(3)] by simp
  from Cons.IH [OF this, where out = "out @ [?ga]"] obtain gas f' where
    "authorize_loop pd pms (out @ [?ga], ?g) = ((out @ [?ga]) @ gas, f')" "length gas = length pms"
    "fb_grant_ledger f' = fb_grant_ledger ?g" "\<forall>ga \<in> set gas. ga_rejected ga \<and> \<not> ga_has_grant ga \<and>
      ga_error_code ga \<in> {EC_StaleCoordinatorEpoch, EC_StaleWorkerBoot, EC_UnknownSequence}" by blast
  then show ?case
    using one by (intro exI [of _ "?ga # gas"] exI [of _ f']) (simp add: authorize_loop_Cons)
qed (simp add: authorize_loop_def)



section \<open>Well-formed states\<close>

text \<open>C37: Every state of a run is well formed: sequences, grants and terminal records are keyed uniquely; the
  lifecycle state of a sequence is one of the named states and reached from admission by allowed
  transitions; a grant is filed under its own id, which was minted before, is pending, consumed or aborted,
  and holds a receipt exactly when it is consumed, and that receipt binds to it.\<close>

theorem run_is_well_formed:
  assumes "fab_run cfg clock f"
  shows "umap_ok (fb_seqs f) \<and> umap_ok (fb_grant_ledger f) \<and> umap_ok (fb_terminal_records f) \<and>
    (\<forall>k s. umap_find (fb_seqs f) k = Some s \<longrightarrow> can_transition\<^sup>*\<^sup>* ST_Admitted (s_machine s) \<and> SequenceState_ok (s_machine s)) \<and>
    (\<forall>i gr. umap_find (fb_grant_ledger f) i = Some gr \<longrightarrow> cg_grant_id (gr_grant gr) = i \<and> i < fb_next_grant f \<and>
      gr_status gr \<in> {0, 1, 2} \<and> (gr_has_receipt gr \<longleftrightarrow> gr_status gr = 1) \<and>
      (gr_status gr = 1 \<longrightarrow> receipt_binds (gr_receipt gr) (gr_grant gr)))"
proof -
  note T = lifecycle.run_invariant [OF assms]
  have B: "books_ok f" using T by (simp add: typed_def)
  note G = ledger_okD(1) [OF books_okD(4) [OF B]]
  show ?thesis
    using books_okD(1,2) [OF B] history.run_invariant [OF assms] T reached_named G
    unfolding typed_def history_ok_def grants_wf_def by blast
qed

theorem run_is_well_formed_witness:
  "can_transition\<^sup>*\<^sup>* ST_Admitted (s_machine sc_granted_seq) \<and> cg_grant_id (gr_grant (fresh_grant sc_grant)) = 1"
proof -
  have "umap_find (fb_seqs sc_granted) 21 = Some sc_granted_seq" "umap_find (fb_grant_ledger sc_granted) 1 = Some (fresh_grant sc_grant)"
    by (simp_all add: sc_granted_eq umap_find_def)
  with run_is_well_formed [OF sc_reaches(3)] show ?thesis by blast
qed



section \<open>A grant without a dispatch\<close>

text \<open>An idle sequence holds the null dispatch and the null in-flight generation, and \<open>authorize_prepared\<close> compares
  a prepared member with them without asking whether anything is in flight. A member that names dispatch
  \<open>0\<close> is therefore granted on a sequence that was never dispatched, even on one whose budget is used up,
  and its receipt commits a token beyond the budget. The runs above exclude such members.\<close>

definition full_seq :: Seq where
  "full_seq = admitted_seq (sc_request\<lparr>rq_pregenerated := 2, rq_arrival := 1\<rparr>)"

definition null_member :: PreparedMember where
  "null_member = sc_member\<lparr>pm_generation := 0, pm_dispatch := 0, pm_committed_position_before := 2\<rparr>"

definition null_receipt :: MemberReceipt where
  "null_receipt = sc_receipt\<lparr>mr_generation := 0, mr_dispatch := 0, mr_committed_position_before := 2\<rparr>"

lemma full_seq_simps:
  "s_machine full_seq = ST_Ready" "s_budget full_seq = \<lparr>tb_max = 2, tb_generated = 2\<rparr>" "s_committed full_seq = 2"
  "s_generated full_seq = 2" "s_current_attempt full_seq = 11" "s_in_flight_dispatch full_seq = 0"
  "s_in_flight_generation full_seq = 0" "s_has_inflight_grant full_seq = False" "s_has_accepted full_seq = False"
  "s_state_digest_established full_seq = False" "rq_max_generation_length (s_req full_seq) = 2"
  by (simp_all add: full_seq_def admitted_seq_def sc_request_def default_Seq_def default_DecodeRequest_def sc_simps sm_go_eq
      can_transition_def budget_advanced_def budget_advance_spec new_budget_def)

theorem null_dispatch_overruns_budget:
  assumes "umap_find (fb_seqs f) 21 = Some full_seq" and "fb_epoch f = 1" and "fb_worker_current_boot f = [(5, 9)]"
    and "fb_next_grant f = 1"
  shows "\<exists>s. umap_find (fb_seqs (apply_receipt null_receipt (snd (authorize_member sc_prepared null_member f)))) 21 = Some s \<and>
    rq_max_generation_length (s_req s) < s_committed s"
proof -
  let ?g = "snd (issue_grant sc_prepared null_member f)"
  have ids: "pm_sequence null_member = 21" "mr_sequence null_receipt = 21" "mr_grant_id null_receipt = 1"
    "pm_proposal null_member = 77" "mr_proposal null_receipt = 77"
    by (simp_all add: null_member_def null_receipt_def sc_member_def sc_receipt_def)
  have "granted null_member full_seq f"
    using assms(2,3)
    by (simp add: granted_def authority_fault_None_iff binding_fault_None_iff full_seq_simps null_member_def sc_member_def
        umap_find_def is_stopped_def is_terminal_def is_commit_eligible_def mo_succeeded_def default_MemberOutcome_def)
  with assms(1) have auth: "authorize_member sc_prepared null_member f = issue_grant sc_prepared null_member f"
    by (intro authorize_granted) (simp_all add: ids)
  let ?s = "full_seq\<lparr>s_in_flight_grant := 1, s_has_inflight_grant := True, s_in_flight_proposal := 77,
      s_in_flight_position := pm_committed_position_before null_member\<rparr>"
  have s: "umap_find (fb_seqs ?g) (mr_sequence null_receipt) = Some ?s"
    using assms by (simp add: issue_grant_def Let_def ids)
  have gr: "umap_find (fb_grant_ledger ?g) (mr_grant_id null_receipt) = Some (fresh_grant (member_grant 1 sc_prepared null_member))"
    using assms by (simp add: issue_grant_def Let_def ids fresh_grant_def)
  have "receipt_binds null_receipt (member_grant 1 sc_prepared null_member)"
    by (simp add: receipt_binds_def null_receipt_def null_member_def sc_receipt_def member_grant_def sc_member_def
        sc_prepared_def default_MemberReceipt_def)
  then have "apply_receipt null_receipt ?g = finalize null_receipt ?g"
    by (intro apply_receipt_effective [OF gr _ _ s])
      (simp_all add: fresh_grant_def ids full_seq_simps is_stopped_def is_terminal_def)
  then show ?thesis
    using coreD(2) [OF finalize_core [OF s]] s
    by (simp add: auth ids consume_grant_def full_seq_simps word_less_nat_alt)
qed

end
