(* ===== verification/Binary.thy ===== *)
theory Binary
  imports Results
begin

text \<open>
  The byte-level codec of \<^verbatim>\<open>include/decodefabric/binary.hpp\<close>. A \<^verbatim>\<open>Writer\<close> call appends a run of
  bytes (\<open>w_u8\<close>, \<open>w_u32\<close>, ...); a \<^verbatim>\<open>Reader\<close> holds the whole buffer and a position, and each read
  returns a structured error or a value with the advanced reader. Every caller returns at once
  on an error, so the reader of a failed read is dropped.

  \<open>parses p bs v\<close>: at any position of any buffer where \<open>bs\<close> starts, \<open>p\<close> reads \<open>v\<close> and consumes
  exactly \<open>bs\<close>. \<open>extends p\<close>: a successful read never looks beyond the buffer and is not changed by
  bytes appended to it. The locale \<open>codec\<close> is the interface between a message encoder and its
  decoder; round trips, sequences of elements and the rejection of truncated input are proved once
  in it.
\<close>

section \<open>Writer\<close>

definition w_u8 :: "u8 \<Rightarrow> bytes" where
  "w_u8 v = [v]"

definition w_u16 :: "u16 \<Rightarrow> bytes" where
  "w_u16 v = [ucast (v AND 0x00FF), ucast (drop_bit 8 v AND 0x00FF)]"

definition w_u32 :: "u32 \<Rightarrow> bytes" where
  "w_u32 v = le_put 4 v"

definition w_u64 :: "u64 \<Rightarrow> bytes" where
  "w_u64 v = le_put 8 v"

definition w_s64 :: "s64 \<Rightarrow> bytes" where
  "w_s64 v = w_u64 v"

definition w_ns :: "s64 \<Rightarrow> bytes" where
  "w_ns v = w_s64 v"

definition w_bytes :: "bytes \<Rightarrow> bytes" where
  "w_bytes v = w_u64 (of_nat (length v)) @ v"

definition char_byte :: "char \<Rightarrow> u8" where
  "char_byte c = of_nat (of_char c)"

definition byte_char :: "u8 \<Rightarrow> char" where
  "byte_char b = char_of (unat b)"

definition w_str :: "string \<Rightarrow> bytes" where
  "w_str s = w_u64 (of_nat (length s)) @ map char_byte s"

definition w_bool :: "bool \<Rightarrow> bytes" where
  "w_bool b = w_u8 (if b then 1 else 0)"

section \<open>Reader\<close>

record Reader =
  in_data :: bytes
  in_pos :: nat

type_synonym 'a reader = "Reader \<Rightarrow> ('a \<times> Reader) result"

definition new_reader :: "bytes \<Rightarrow> Reader" where
  "new_reader b = \<lparr>in_data = b, in_pos = 0\<rparr>"

definition rpure :: "'a \<Rightarrow> 'a reader" where
  "rpure v r = Inr (v, r)"

definition rbind :: "'a reader \<Rightarrow> ('a \<Rightarrow> 'b reader) \<Rightarrow> 'b reader" where
  "rbind p f r = (case p r of Inl e \<Rightarrow> Inl e | Inr (v, r') \<Rightarrow> f v r')"

definition rfail :: "ErrorCode \<Rightarrow> string \<Rightarrow> 'a reader" where
  "rfail c m r = failed c m"

definition trunc_err :: "'a result" where
  "trunc_err = failed EC_PersistenceTruncated ''truncated byte stream''"

definition r_u8 :: "u8 reader" where
  "r_u8 r =
    (if in_pos r + 1 > length (in_data r) then trunc_err
     else Inr (in_data r ! in_pos r, r\<lparr>in_pos := in_pos r + 1\<rparr>))"

definition r_u16 :: "u16 reader" where
  "r_u16 r =
    (if in_pos r + 2 > length (in_data r) then trunc_err
     else Inr (ucast (in_data r ! in_pos r) OR push_bit 8 (ucast (in_data r ! (in_pos r + 1))),
               r\<lparr>in_pos := in_pos r + 2\<rparr>))"

definition r_u32 :: "u32 reader" where
  "r_u32 r =
    (if in_pos r + 4 > length (in_data r) then trunc_err
     else Inr (le_get (take 4 (drop (in_pos r) (in_data r))), r\<lparr>in_pos := in_pos r + 4\<rparr>))"

definition r_u64 :: "u64 reader" where
  "r_u64 r =
    (if in_pos r + 8 > length (in_data r) then trunc_err
     else Inr (le_get (take 8 (drop (in_pos r) (in_data r))), r\<lparr>in_pos := in_pos r + 8\<rparr>))"

definition r_s64 :: "s64 reader" where
  "r_s64 = r_u64"

definition r_ns :: "s64 reader" where
  "r_ns = r_s64"

definition r_bytes :: "bytes reader" where
  "r_bytes = rbind r_u64 (\<lambda>n r.
     if unat n > length (in_data r) - in_pos r
       then failed EC_PersistenceTruncated ''truncated byte-vector payload''
     else if unat n > 2 ^ 32
       then failed EC_BoundedLengthExceeded ''byte vector exceeds bound''
     else Inr (take (unat n) (drop (in_pos r) (in_data r)), r\<lparr>in_pos := in_pos r + unat n\<rparr>))"

definition r_str :: "string reader" where
  "r_str = rbind r_bytes (\<lambda>b. rpure (map byte_char b))"

definition r_bool :: "bool reader" where
  "r_bool = rbind r_u8 (\<lambda>b. rpure (b \<noteq> 0))"

text \<open>\<^verbatim>\<open>for (i = 0; i < n; ++i) { auto x = read(r); if (!x.ok()) return error; v.push_back(x); }\<close>\<close>

primrec r_rep :: "nat \<Rightarrow> 'a reader \<Rightarrow> 'a list reader" where
  "r_rep 0 p = rpure []"
| "r_rep (Suc n) p = rbind p (\<lambda>v. rbind (r_rep n p) (\<lambda>vs. rpure (v # vs)))"

text \<open>A complete message: a reader over the payload, whose trailing bytes are ignored.\<close>

definition run_reader :: "'a reader \<Rightarrow> bytes \<Rightarrow> 'a result" where
  "run_reader p bs = (case p (new_reader bs) of Inl e \<Rightarrow> Inl e | Inr (v, _) \<Rightarrow> Inr v)"

section \<open>Reading back what was written\<close>

definition parses :: "'a reader \<Rightarrow> bytes \<Rightarrow> 'a \<Rightarrow> bool" where
  "parses p bs v \<longleftrightarrow>
     (\<forall>pre rest. p \<lparr>in_data = pre @ bs @ rest, in_pos = length pre\<rparr> =
        Inr (v, \<lparr>in_data = pre @ bs @ rest, in_pos = length pre + length bs\<rparr>))"

lemma parses_pure [parses_intros]: "w = v \<Longrightarrow> parses (rpure v) [] w"
  by (simp add: parses_def rpure_def)

lemma parses_bind [parses_intros]:
  assumes "parses p bs v" and "parses (f v) bs' w"
  shows "parses (rbind p f) (bs @ bs') w"
  unfolding parses_def
proof (intro allI)
  fix pre rest
  have "p \<lparr>in_data = pre @ bs @ (bs' @ rest), in_pos = length pre\<rparr> =
      Inr (v, \<lparr>in_data = pre @ bs @ (bs' @ rest), in_pos = length pre + length bs\<rparr>)"
    using assms(1) unfolding parses_def by blast
  moreover have "f v \<lparr>in_data = (pre @ bs) @ bs' @ rest, in_pos = length (pre @ bs)\<rparr> =
      Inr (w, \<lparr>in_data = (pre @ bs) @ bs' @ rest, in_pos = length (pre @ bs) + length bs'\<rparr>)"
    using assms(2) unfolding parses_def by blast
  ultimately show "rbind p f \<lparr>in_data = pre @ (bs @ bs') @ rest, in_pos = length pre\<rparr> =
      Inr (w, \<lparr>in_data = pre @ (bs @ bs') @ rest, in_pos = length pre + length (bs @ bs')\<rparr>)"
    by (simp add: rbind_def add.assoc)
qed

lemma parses_bind_last [parses_intros]:
  "parses p bs v \<Longrightarrow> parses (f v) [] w \<Longrightarrow> parses (rbind p f) bs w"
  using parses_bind [of p bs v f "[]" w] by simp

lemma parses_u8 [parses_intros]: "parses r_u8 (w_u8 v) v"
  by (simp add: parses_def r_u8_def w_u8_def)

lemma parses_u16 [parses_intros]: "parses r_u16 (w_u16 v) v"
proof -
  have m: "(0xFF :: u16) = mask 8" by (simp add: mask_eq_exp_minus_1)
  have "(ucast (ucast (v AND 0xFF) :: u8) OR push_bit 8 (ucast (ucast (drop_bit 8 v AND 0xFF) :: u8)) :: u16) = v"
    unfolding m by (rule bit_word_eqI) (auto simp: bit_simps)
  then show ?thesis
    by (simp add: parses_def r_u16_def w_u16_def nth_append)
qed

lemma parses_u32 [parses_intros]: "parses r_u32 (w_u32 v) v"
  by (simp add: parses_def r_u32_def w_u32_def le_get_put)

lemma parses_u64 [parses_intros]: "parses r_u64 (w_u64 v) v"
  by (simp add: parses_def r_u64_def w_u64_def le_get_put)

lemma parses_s64 [parses_intros]: "parses r_s64 (w_s64 v) v"
  unfolding r_s64_def w_s64_def by (rule parses_u64)

lemma parses_ns [parses_intros]: "parses r_ns (w_ns v) v"
  unfolding r_ns_def w_ns_def by (rule parses_s64)

lemma parses_bytes:
  assumes "length v \<le> 2 ^ 32"
  shows "parses r_bytes (w_bytes v) v"
  unfolding r_bytes_def w_bytes_def
proof (rule parses_bind [OF parses_u64])
  have n: "unat (of_nat (length v) :: u64) = length v"
    using assms by (simp add: unat_of_nat)
  show "parses (\<lambda>r. if length (in_data r) - in_pos r < unat (of_nat (length v) :: u64)
      then failed EC_PersistenceTruncated ''truncated byte-vector payload''
      else if 2 ^ 32 < unat (of_nat (length v) :: u64)
        then failed EC_BoundedLengthExceeded ''byte vector exceeds bound''
        else Inr (take (unat (of_nat (length v) :: u64)) (drop (in_pos r) (in_data r)),
          r\<lparr>in_pos := in_pos r + unat (of_nat (length v) :: u64)\<rparr>)) v v"
    using assms unfolding n by (simp add: parses_def)
qed

lemma byte_char_byte [simp]: "byte_char (char_byte c) = c"
proof -
  have "unat (of_nat (of_char c) :: u8) = of_char c"
    by (simp add: unat_of_nat)
  then show ?thesis by (simp add: byte_char_def char_byte_def)
qed

lemma parses_str:
  assumes "length s \<le> 2 ^ 32"
  shows "parses r_str (w_str s) s"
proof -
  have "w_str s = w_bytes (map char_byte s)" by (simp add: w_str_def w_bytes_def)
  moreover have "parses r_bytes (w_bytes (map char_byte s)) (map char_byte s)"
    using assms by (intro parses_bytes) simp
  ultimately show ?thesis
    unfolding r_str_def by (auto intro!: parses_bind_last parses_pure simp: comp_def)
qed

lemma parses_bool [parses_intros]: "parses r_bool (w_bool b) b"
  unfolding r_bool_def w_bool_def by (rule parses_bind_last [OF parses_u8]) (simp add: parses_pure)

lemma parses_run: "parses p bs v \<Longrightarrow> run_reader p (bs @ rest) = Inr v"
  unfolding parses_def run_reader_def new_reader_def by (drule spec [of _ "[]"]) simp

section \<open>Successful reads stay inside the buffer\<close>

definition extends :: "'a reader \<Rightarrow> bool" where
  "extends p \<longleftrightarrow> (\<forall>d e i v r.
     i \<le> length d \<longrightarrow> p \<lparr>in_data = d, in_pos = i\<rparr> = Inr (v, r) \<longrightarrow>
       in_data r = d \<and> i \<le> in_pos r \<and> in_pos r \<le> length d \<and>
       p \<lparr>in_data = d @ e, in_pos = i\<rparr> = Inr (v, \<lparr>in_data = d @ e, in_pos = in_pos r\<rparr>))"

lemma extendsD:
  assumes "extends p" and "i \<le> length d" and "p \<lparr>in_data = d, in_pos = i\<rparr> = Inr (v, r)"
  shows "in_data r = d" and "i \<le> in_pos r" and "in_pos r \<le> length d"
    and "p \<lparr>in_data = d @ e, in_pos = i\<rparr> = Inr (v, \<lparr>in_data = d @ e, in_pos = in_pos r\<rparr>)"
  using assms unfolding extends_def by blast+

lemma extends_pure [parses_intros]: "extends (rpure v)"
  by (auto simp: extends_def rpure_def)

lemma extends_fail [parses_intros]: "extends (rfail c m)"
  by (auto simp: extends_def rfail_def)

lemma extends_bind [parses_intros]:
  assumes p: "extends p" and f: "\<And>v. extends (f v)"
  shows "extends (rbind p f)"
  unfolding extends_def
proof (intro allI impI)
  fix d e :: bytes and i v r
  assume i: "i \<le> length d" and "rbind p f \<lparr>in_data = d, in_pos = i\<rparr> = Inr (v, r)"
  then obtain u r1 where 1: "p \<lparr>in_data = d, in_pos = i\<rparr> = Inr (u, r1)" and 2: "f u r1 = Inr (v, r)"
    by (auto simp: rbind_def split: sum.splits)
  note e1 = extendsD [OF p i 1]
  have "f u \<lparr>in_data = d, in_pos = in_pos r1\<rparr> = Inr (v, r)"
    using 2 e1(1) by (metis (full_types) Reader.surjective old.unit.exhaust)
  note e2 = extendsD [OF f e1(3) this]
  show "in_data r = d \<and> i \<le> in_pos r \<and> in_pos r \<le> length d \<and>
      rbind p f \<lparr>in_data = d @ e, in_pos = i\<rparr> = Inr (v, \<lparr>in_data = d @ e, in_pos = in_pos r\<rparr>)"
    using e1 e2 by (simp add: rbind_def)
qed

lemma extends_if [parses_intros]: "extends p \<Longrightarrow> extends q \<Longrightarrow> extends (if c then p else q)"
  by simp

lemma extends_u8 [parses_intros]: "extends r_u8"
  by (auto simp: extends_def r_u8_def trunc_err_def nth_append split: if_splits)

lemma extends_u16 [parses_intros]: "extends r_u16"
  by (auto simp: extends_def r_u16_def trunc_err_def nth_append split: if_splits)

lemma extends_u32 [parses_intros]: "extends r_u32"
  by (auto simp: extends_def r_u32_def trunc_err_def split: if_splits)

lemma extends_u64 [parses_intros]: "extends r_u64"
  by (auto simp: extends_def r_u64_def trunc_err_def split: if_splits)

lemma extends_s64 [parses_intros]: "extends r_s64"
  unfolding r_s64_def by (rule extends_u64)

lemma extends_ns [parses_intros]: "extends r_ns"
  unfolding r_ns_def by (rule extends_s64)

lemma extends_bytes [parses_intros]: "extends r_bytes"
  unfolding r_bytes_def
  by (rule extends_bind [OF extends_u64]) (auto simp: extends_def split: if_splits)

lemma extends_str [parses_intros]: "extends r_str"
  unfolding r_str_def by (intro parses_intros)

lemma extends_bool [parses_intros]: "extends r_bool"
  unfolding r_bool_def by (intro parses_intros)

lemma extends_rep [parses_intros]: "extends p \<Longrightarrow> extends (r_rep n p)"
  by (induction n) (auto intro!: parses_intros)

section \<open>The encoder/decoder contract\<close>

locale codec =
  fixes enc :: "'a \<Rightarrow> bytes"
    and dec :: "'a reader"
    and ok :: "'a \<Rightarrow> bool"
  assumes enc_dec: "ok v \<Longrightarrow> parses dec (enc v) v"
    and dec_extends: "extends dec"
begin

lemma decode_encoded: "ok v \<Longrightarrow> run_reader dec (enc v @ rest) = Inr v"
  by (rule parses_run) (rule enc_dec)

lemma encode_inj: "ok v \<Longrightarrow> ok w \<Longrightarrow> enc v = enc w \<Longrightarrow> v = w"
  using decode_encoded [of v "[]"] decode_encoded [of w "[]"] by simp

text \<open>No proper prefix of an encoded value decodes: a short message is an error, never a value.\<close>

lemma truncated_rejected:
  assumes "ok v" and "n < length (enc v)"
  shows "\<not> is_ok (run_reader dec (take n (enc v)))"
proof
  assume "is_ok (run_reader dec (take n (enc v)))"
  then obtain w r where ok: "dec \<lparr>in_data = take n (enc v), in_pos = 0\<rparr> = Inr (w, r)"
    by (auto simp: run_reader_def new_reader_def is_ok_def split: sum.splits)
  have "dec \<lparr>in_data = enc v, in_pos = 0\<rparr> = Inr (w, \<lparr>in_data = enc v, in_pos = in_pos r\<rparr>)"
    using extendsD(4) [OF dec_extends _ ok, of "drop n (enc v)"] by simp
  moreover have "dec \<lparr>in_data = enc v, in_pos = 0\<rparr> =
      Inr (v, \<lparr>in_data = enc v, in_pos = length (enc v)\<rparr>)"
    using enc_dec [OF assms(1)] unfolding parses_def
    by (drule_tac x="[]" in spec) (drule_tac x="[]" in spec, simp)
  ultimately show False using extendsD(3) [OF dec_extends _ ok] assms(2) by simp
qed

lemma elements_parse:
  "(\<And>v. v \<in> set vs \<Longrightarrow> ok v) \<Longrightarrow> parses (r_rep (length vs) dec) (concat (map enc vs)) vs"
proof (induction vs)
  case Nil
  then show ?case by (simp add: parses_pure)
next
  case (Cons v vs)
  then show ?case
    by (auto intro!: parses_bind [OF enc_dec] parses_bind_last [of "r_rep (length vs) dec"] parses_pure)
qed

end

end
