(* ===== verification/Framing.thy ===== *)
theory Framing
  imports Binary
begin

text \<open>
  The framed wire protocol: \<^verbatim>\<open>include/decodefabric/protocol.hpp\<close>, the first part of
  \<^verbatim>\<open>src/protocol.cpp\<close> (\<open>encode_frame\<close>, \<open>FrameDecoder::try_emit\<close>, \<open>feed\<close>) and the receive loop of
  \<^verbatim>\<open>src/transport.cpp\<close>. The socket is not code of the repository: what \<^verbatim>\<open>recv\<close> and \<^verbatim>\<open>send\<close> return
  is a list of events handed to the loops, and a loop whose events run out is blocked (\<^const>\<open>None\<close>).

  Shown here: an emitted frame is exactly the front of the buffer, valid and within the size limit;
  a complete frame is emitted and a partial one is never misread; however the byte stream is cut
  into chunks and interrupted, the receiver sees the frames that were sent, in order.
\<close>

section \<open>Frames\<close>

definition kHeaderBytes :: u32 where
  "kHeaderBytes = 12"

definition kDefaultMaxFrameBytes :: u32 where
  "kDefaultMaxFrameBytes = 64 * 1024 * 1024"

definition kMinimumFrameBytes :: u32 where
  "kMinimumFrameBytes = kHeaderBytes"

definition kProtocolVersion :: u32 where
  "kProtocolVersion = 1"

lemmas frame_consts = kHeaderBytes_def kMinimumFrameBytes_def kProtocolVersion_def

record Frame =
  fr_total_length :: u32
  fr_version :: u32
  fr_type :: FrameType
  fr_payload :: bytes

definition default_Frame :: Frame where
  "default_Frame = \<lparr>fr_total_length = 0, fr_version = 0, fr_type = FT_Error, fr_payload = []\<rparr>"

text \<open>The comparison with \<^verbatim>\<open>kHeaderBytes + payload.size()\<close> is made at \<^verbatim>\<open>size_t\<close>.\<close>

definition fr_valid :: "Frame \<Rightarrow> bool" where
  "fr_valid f \<longleftrightarrow> fr_version f = kProtocolVersion \<and> fr_total_length f \<ge> kMinimumFrameBytes \<and>
     unat (fr_total_length f) = unat kHeaderBytes + length (fr_payload f)"

definition encode_frame :: "FrameType \<Rightarrow> bytes \<Rightarrow> bytes" where
  "encode_frame type payload =
     w_u32 (of_nat (unat kHeaderBytes + length payload)) @
     w_u32 kProtocolVersion @
     w_u32 (FrameType_val type) @
     payload"

section \<open>Streaming decoder\<close>

record FrameDecoder =
  fd_buf :: bytes
  fd_max_frame :: u32

definition new_FrameDecoder :: "u32 \<Rightarrow> FrameDecoder" where
  "new_FrameDecoder m = \<lparr>fd_buf = [], fd_max_frame = m\<rparr>"

definition fd_reset :: "FrameDecoder \<Rightarrow> FrameDecoder" where
  "fd_reset d = d\<lparr>fd_buf := []\<rparr>"

definition u32_at :: "bytes \<Rightarrow> nat \<Rightarrow> u32" where
  "u32_at b i = ucast (b ! i) OR push_bit 8 (ucast (b ! (i + 1))) OR
     push_bit 16 (ucast (b ! (i + 2))) OR push_bit 24 (ucast (b ! (i + 3)))"

text \<open>\<^verbatim>\<open>for (t = 1; t <= 45; ++t) if (t == type) { known = true; break; }\<close>\<close>

definition known_type :: "u32 \<Rightarrow> bool" where
  "known_type type \<longleftrightarrow> list_ex (\<lambda>t. of_nat t = type) [1..<46]"

definition try_emit :: "FrameDecoder \<Rightarrow> Frame \<Rightarrow> bool result \<times> Frame \<times> FrameDecoder" where
  "try_emit d out =
    (if length (fd_buf d) < 4 then (Inr False, out, d)
     else let len = u32_at (fd_buf d) 0 in
       if len < kHeaderBytes
         then (failed EC_ProtocolMalformed ''frame length below header'', out, fd_reset d)
       else if len > fd_max_frame d
         then (failed EC_ProtocolOversizedFrame ''frame exceeds max size'', out, fd_reset d)
       else if length (fd_buf d) < unat len then (Inr False, out, d)
       else let version = u32_at (fd_buf d) 4 in
         if version \<noteq> kProtocolVersion
           then (failed EC_ProtocolUnknownVersion ''unknown protocol version'', out, fd_reset d)
         else let type = u32_at (fd_buf d) 8 in
           if \<not> known_type type
             then (failed EC_ProtocolUnknownType ''unknown message type'', out, fd_reset d)
           else (Inr True,
             \<lparr>fr_total_length = len, fr_version = version, fr_type = FrameType_of type,
              fr_payload = take (unat len - unat kHeaderBytes) (drop (unat kHeaderBytes) (fd_buf d))\<rparr>,
             d\<lparr>fd_buf := drop (unat len) (fd_buf d)\<rparr>))"

definition feed :: "FrameDecoder \<Rightarrow> bytes \<Rightarrow> Frame \<Rightarrow> bool result \<times> Frame \<times> FrameDecoder" where
  "feed d data out = try_emit (d\<lparr>fd_buf := fd_buf d @ data\<rparr>) out"

section \<open>Receiving and sending over a socket\<close>

text \<open>One return of \<^verbatim>\<open>recv\<close>/\<^verbatim>\<open>send\<close>: bytes (or a byte count), an orderly close, \<^verbatim>\<open>WSAEINTR\<close>, or another
  error code.\<close>

datatype RecvEvent = Received bytes | RecvClosed | RecvInterrupted | RecvFailed int

datatype SendEvent = Sent nat | SendInterrupted | SendFailed int

record TcpConnection =
  tc_valid :: bool
  tc_decoder :: FrameDecoder
  tc_last_error :: int

fun recv_loop :: "TcpConnection \<Rightarrow> RecvEvent list \<Rightarrow> Frame \<Rightarrow>
    (Frame result \<times> TcpConnection \<times> RecvEvent list) option" where
  "recv_loop c evs f =
    (case feed (tc_decoder c) [] f of
       (Inl e, _, d) \<Rightarrow> Some (failed (err_code e) (err_message e), c\<lparr>tc_decoder := d\<rparr>, evs)
     | (Inr True, f', d) \<Rightarrow> Some (Inr f', c\<lparr>tc_decoder := d\<rparr>, evs)
     | (Inr False, f', d) \<Rightarrow>
        (case evs of
           [] \<Rightarrow> None
         | RecvClosed # evs' \<Rightarrow>
             Some (failed EC_BackendError ''connection closed'', c\<lparr>tc_decoder := d\<rparr>, evs')
         | RecvInterrupted # evs' \<Rightarrow> recv_loop (c\<lparr>tc_decoder := d\<rparr>) evs' f'
         | RecvFailed e # evs' \<Rightarrow>
             Some (failed EC_BackendError ''recv failed'',
               c\<lparr>tc_decoder := d, tc_last_error := e\<rparr>, evs')
         | Received bs # evs' \<Rightarrow>
            (case feed d bs f' of
               (Inl e, _, d') \<Rightarrow> Some (failed (err_code e) (err_message e), c\<lparr>tc_decoder := d'\<rparr>, evs')
             | (Inr True, f'', d') \<Rightarrow> Some (Inr f'', c\<lparr>tc_decoder := d'\<rparr>, evs')
             | (Inr False, f'', d') \<Rightarrow> recv_loop (c\<lparr>tc_decoder := d'\<rparr>) evs' f'')))"

declare recv_loop.simps [simp del]

definition recv_frame :: "TcpConnection \<Rightarrow> RecvEvent list \<Rightarrow>
    (Frame result \<times> TcpConnection \<times> RecvEvent list) option" where
  "recv_frame c evs =
    (if \<not> tc_valid c then Some (failed EC_BackendError ''not connected'', c, evs)
     else recv_loop c evs default_Frame)"

text \<open>The send loop: \<open>out\<close> collects what the socket accepted. \<^verbatim>\<open>send\<close> reports how many of the
  \<open>n\<close> remaining bytes it took.\<close>

fun send_loop :: "TcpConnection \<Rightarrow> bytes \<Rightarrow> SendEvent list \<Rightarrow> bytes \<Rightarrow>
    (unit result \<times> TcpConnection \<times> bytes \<times> SendEvent list) option" where
  "send_loop c [] evs out = Some (Inr (), c, out, evs)"
| "send_loop c (b # p) [] out = None"
| "send_loop c (b # p) (Sent k # evs) out = send_loop c (drop k (b # p)) evs (out @ take k (b # p))"
| "send_loop c (b # p) (SendInterrupted # evs) out = send_loop c (b # p) evs out"
| "send_loop c (b # p) (SendFailed e # evs) out =
     Some (failed EC_BackendError ''send failed'', c\<lparr>tc_last_error := e\<rparr>, out, evs)"

definition send_frame :: "TcpConnection \<Rightarrow> FrameType \<Rightarrow> bytes \<Rightarrow> SendEvent list \<Rightarrow>
    (unit result \<times> TcpConnection \<times> bytes \<times> SendEvent list) option" where
  "send_frame c type payload evs =
    (if \<not> tc_valid c then Some (failed EC_BackendError ''not connected'', c, [], evs)
     else send_loop c (encode_frame type payload) evs [])"

section \<open>The decoder inverts the encoder\<close>

lemma known_type_iff: "known_type t \<longleftrightarrow> 1 \<le> t \<and> t \<le> 45"
proof
  assume "known_type t"
  then obtain n where "1 \<le> n" "n \<le> 45" "t = of_nat n" by (auto simp: known_type_def list_ex_iff)
  then show "1 \<le> t \<and> t \<le> 45" by (simp add: word_le_nat_alt unat_of_nat)
next
  assume "1 \<le> t \<and> t \<le> 45"
  then have "1 \<le> unat t" "unat t < 46" by (simp_all add: word_le_nat_alt)
  then show "known_type t"
    unfolding known_type_def list_ex_iff by (intro bexI [of _ "unat t"]) auto
qed

lemma u32_at_le_get:
  assumes "i + 4 \<le> length b"
  shows "u32_at b i = le_get (take 4 (drop i b))"
proof -
  have "take 4 (drop i b) = [b ! i, b ! (i + 1), b ! (i + 2), b ! (i + 3)]"
    using assms by (intro nth_equalityI) (auto simp: less_Suc_eq numeral_eq_Suc)
  then show ?thesis
    by (simp add: u32_at_def le_get_def or.assoc)
qed

lemma u32_at_w_u32: "length pre = i \<Longrightarrow> u32_at (pre @ w_u32 v @ post) i = v"
  by (subst u32_at_le_get) (simp_all add: w_u32_def le_get_put)

lemma w_u32_u32_at: "i + 4 \<le> length b \<Longrightarrow> w_u32 (u32_at b i) = take 4 (drop i b)"
proof -
  assume i: "i + 4 \<le> length b"
  have l: "length (take 4 (drop i b)) = 4" using i by simp
  have "w_u32 (le_get bs) = bs" if len: "length bs = 4" for bs
  proof (rule nth_equalityI)
    show "length (w_u32 (le_get bs)) = length bs" using len by (simp add: w_u32_def)
    fix k assume "k < length (w_u32 (le_get bs))"
    then have k: "k < 4" by (simp add: w_u32_def)
    have m: "(255 :: u32) = mask 8" by (simp add: mask_eq_exp_minus_1)
    have "ucast (drop_bit (8 * k) (le_get bs :: u32) AND 255) = bs ! k"
      unfolding m using k len
      by (intro bit_word_eqI) (auto simp: bit_simps le_get_def bit_le_get_from)
    then show "w_u32 (le_get bs) ! k = bs ! k"
      using k by (simp add: w_u32_def le_put_def)
  qed
  from this [OF l] show ?thesis by (simp only: u32_at_le_get [OF i])
qed

definition sendable :: "u32 \<Rightarrow> FrameType \<Rightarrow> bytes \<Rightarrow> bool" where
  "sendable m type payload \<longleftrightarrow>
     known_type (FrameType_val type) \<and> FrameType_ok type \<and> 12 + length payload \<le> unat m"

definition frame_of :: "FrameType \<Rightarrow> bytes \<Rightarrow> Frame" where
  "frame_of type payload = \<lparr>fr_total_length = of_nat (12 + length payload),
     fr_version = kProtocolVersion, fr_type = type, fr_payload = payload\<rparr>"

lemma length_encode_frame [simp]: "length (encode_frame t p) = 12 + length p"
  by (simp add: encode_frame_def w_u32_def)

lemma encode_frame_fields:
  "u32_at (encode_frame t p @ rest) 0 = of_nat (12 + length p)"
  "u32_at (encode_frame t p @ rest) 4 = kProtocolVersion"
  "u32_at (encode_frame t p @ rest) 8 = FrameType_val t"
proof -
  let ?a = "w_u32 (of_nat (12 + length p))" and ?b = "w_u32 kProtocolVersion" and ?c = "w_u32 (FrameType_val t)"
  have e: "encode_frame t p @ rest = ?a @ ?b @ ?c @ p @ rest"
    by (simp add: encode_frame_def kHeaderBytes_def)
  show "u32_at (encode_frame t p @ rest) 0 = of_nat (12 + length p)"
    unfolding e using u32_at_w_u32 [of "[]"] by simp
  show "u32_at (encode_frame t p @ rest) 4 = kProtocolVersion"
    unfolding e by (rule u32_at_w_u32) (simp add: w_u32_def)
  show "u32_at (encode_frame t p @ rest) 8 = FrameType_val t"
    unfolding e using u32_at_w_u32 [of "?a @ ?b" 8] by (simp add: w_u32_def)
qed

lemma u32_at_take: "i + 4 \<le> n \<Longrightarrow> n \<le> length b \<Longrightarrow> u32_at (take n b) i = u32_at b i"
  by (simp add: u32_at_def)

lemma sendable_length:
  assumes "sendable m t p"
  shows "unat (of_nat (12 + length p) :: u32) = 12 + length p"
proof -
  have "12 + length p < 2 ^ 32"
    using assms unsigned_less [of m, where ?'a = nat] by (simp add: sendable_def)
  then show ?thesis by (simp only: unat_of_nat) simp
qed

lemma sendable_header:
  assumes "sendable m t p"
  shows "\<not> (of_nat (12 + length p) :: u32) < kHeaderBytes" "\<not> m < of_nat (12 + length p)"
proof -
  note l = sendable_length [OF assms]
  show "\<not> (of_nat (12 + length p) :: u32) < kHeaderBytes"
    unfolding word_less_nat_alt l by (simp add: kHeaderBytes_def)
  show "\<not> m < of_nat (12 + length p)"
    unfolding word_less_nat_alt l using assms by (simp add: sendable_def)
qed

lemma try_emit_complete:
  assumes "sendable (fd_max_frame d) t p" and "fd_buf d = encode_frame t p @ rest"
  shows "try_emit d out = (Inr True, frame_of t p, d\<lparr>fd_buf := rest\<rparr>)"
proof -
  have "encode_frame t p = take 12 (encode_frame t p) @ p"
    by (simp add: encode_frame_def w_u32_def)
  then have "take (length p) (drop 12 (encode_frame t p @ rest)) = p"
    by (simp add: encode_frame_def w_u32_def)
  with assms sendable_length [OF assms(1)] sendable_header [OF assms(1)] show ?thesis
    by (simp add: try_emit_def Let_def encode_frame_fields frame_of_def del: of_nat_add)
      (simp add: kHeaderBytes_def sendable_def)
qed

lemma try_emit_partial:
  assumes "sendable (fd_max_frame d) t p" and "fd_buf d = take n (encode_frame t p)" and "n < 12 + length p"
  shows "try_emit d out = (Inr False, out, d)"
proof (cases "n < 4")
  case True
  then show ?thesis by (simp add: try_emit_def assms(2))
next
  case False
  then have "u32_at (fd_buf d) 0 = of_nat (12 + length p)"
    using assms(2,3) u32_at_take [of 0 n "encode_frame t p"] encode_frame_fields(1) [of t p "[]"] by simp
  then show ?thesis
    using assms(2,3) sendable_length [OF assms(1)] sendable_header [OF assms(1)]
    by (simp add: try_emit_def Let_def del: of_nat_add)
qed

text \<open>Whatever the buffer holds, an emitted frame is exactly its front.\<close>

lemma encode_frame_u32_at:
  assumes "12 \<le> n" and "n \<le> length b"
    and "u32_at b 0 = of_nat n" and "u32_at b 4 = kProtocolVersion"
  shows "encode_frame (FrameType_of (u32_at b 8)) (take (n - 12) (drop 12 b)) = take n b"
proof -
  have "encode_frame (FrameType_of (u32_at b 8)) (take (n - 12) (drop 12 b)) =
      w_u32 (u32_at b 0) @ w_u32 (u32_at b 4) @ w_u32 (u32_at b 8) @ take (n - 12) (drop 12 b)"
    using assms by (simp add: encode_frame_def kHeaderBytes_def)
  also have "\<dots> = take 4 b @ take 4 (drop 4 b) @ take 4 (drop 8 b) @ take (n - 12) (drop 12 b)"
    using assms(1,2) by (simp add: w_u32_u32_at)
  also have "\<dots> = take n b"
  proof -
    have "take n b = take (4 + (4 + (4 + (n - 12)))) b" using assms(1) by simp
    then show ?thesis by (simp only: take_add drop_drop) simp
  qed
  finally show ?thesis .
qed

lemma try_emit_True:
  assumes "try_emit d out = (Inr True, f, d')"
  shows "fd_buf d = encode_frame (fr_type f) (fr_payload f) @ fd_buf d'"
    and "fr_valid f" and "fr_total_length f \<le> fd_max_frame d" and "known_type (FrameType_val (fr_type f))"
    and "FrameType_ok (fr_type f)" and "fd_max_frame d' = fd_max_frame d"
proof -
  let ?b = "fd_buf d" and ?n = "unat (u32_at (fd_buf d) 0)"
  from assms have c: "\<not> u32_at ?b 0 < kHeaderBytes" "\<not> fd_max_frame d < u32_at ?b 0" "?n \<le> length ?b"
      "u32_at ?b 4 = kProtocolVersion" "known_type (u32_at ?b 8)"
    and f: "f = \<lparr>fr_total_length = u32_at ?b 0, fr_version = kProtocolVersion,
        fr_type = FrameType_of (u32_at ?b 8), fr_payload = take (?n - 12) (drop 12 ?b)\<rparr>"
    and d': "d' = d\<lparr>fd_buf := drop ?n ?b\<rparr>"
    by (auto simp: try_emit_def Let_def kHeaderBytes_def split: if_splits)
  have n: "12 \<le> ?n" using c(1) by (simp add: kHeaderBytes_def word_less_nat_alt)
  have "encode_frame (fr_type f) (fr_payload f) = take ?n ?b"
    unfolding f using encode_frame_u32_at [OF n c(3) _ c(4)] by simp
  then show "fd_buf d = encode_frame (fr_type f) (fr_payload f) @ fd_buf d'"
    by (simp add: d')
  show "fr_valid f" "fr_total_length f \<le> fd_max_frame d" "known_type (FrameType_val (fr_type f))"
      "FrameType_ok (fr_type f)" "fd_max_frame d' = fd_max_frame d"
    using c n by (simp_all add: f d' fr_valid_def frame_consts word_le_nat_alt word_less_nat_alt)
qed

lemma try_emit_Inl: "try_emit d out = (Inl e, f, d') \<Longrightarrow> fd_buf d' = []"
  by (auto simp: try_emit_def Let_def fd_reset_def failed_def split: if_splits)

lemma try_emit_False:
  "try_emit d out = (Inr False, f, d') \<Longrightarrow>
     f = out \<and> d' = d \<and> (length (fd_buf d) < 4 \<or> length (fd_buf d) < unat (fd_max_frame d))"
  by (auto simp: try_emit_def Let_def word_less_nat_alt split: if_splits)

section \<open>Reassembly of a chunked stream\<close>

fun received :: "RecvEvent list \<Rightarrow> bytes" where
  "received [] = []"
| "received (Received bs # evs) = bs @ received evs"
| "received (_ # evs) = received evs"

definition steady :: "RecvEvent list \<Rightarrow> bool" where
  "steady evs \<longleftrightarrow> (\<forall>ev \<in> set evs. ev \<noteq> RecvClosed \<and> (\<forall>e. ev \<noteq> RecvFailed e))"

lemma front_or_partial:
  assumes "b @ x = enc @ rest"
  obtains (partial) "length b < length enc" "b = take (length b) enc"
  | (complete) r where "b = enc @ r" "r @ x = rest"
proof (cases "length b < length enc")
  case True
  with assms have "b = take (length b) enc"
    by (metis append_eq_conv_conj less_imp_le_nat take_all_iff take_append diff_is_0_eq take0 append_Nil2)
  with True show ?thesis by (rule partial)
next
  case False
  with assms have "b = enc @ drop (length enc) b" "drop (length enc) b @ x = rest"
    by (metis (no_types) append_eq_append_conv_if append_take_drop_id leI not_less)+
  then show ?thesis by (rule complete)
qed

lemma feed_Nil [simp]: "feed d [] out = try_emit d out"
  by (simp add: feed_def)

lemma recv_loop_frame:
  assumes "sendable (fd_max_frame (tc_decoder c)) t p" and "steady evs"
    and "fd_buf (tc_decoder c) @ received evs = encode_frame t p @ rest"
  shows "\<exists>c' evs'. recv_loop c evs f = Some (Inr (frame_of t p), c', evs') \<and> steady evs' \<and>
     tc_valid c' = tc_valid c \<and> fd_max_frame (tc_decoder c') = fd_max_frame (tc_decoder c) \<and>
     fd_buf (tc_decoder c') @ received evs' = rest"
  using assms
proof (induction evs arbitrary: c f)
  case Nil
  then have "fd_buf (tc_decoder c) = encode_frame t p @ rest" by simp
  from try_emit_complete [OF Nil(1) this] show ?case
    using Nil by (simp add: recv_loop.simps)
next
  case (Cons ev evs)
  let ?d = "tc_decoder c"
  show ?case
  proof (cases rule: front_or_partial [OF Cons.prems(3)])
    case 2: (2 r)
    from try_emit_complete [OF Cons.prems(1) 2(1)] show ?thesis
      using 2 Cons.prems(2) by (auto simp: recv_loop.simps [of c])
  next
    case 1
    then have first: "try_emit ?d f = (Inr False, f, ?d)"
      by (intro try_emit_partial [OF Cons.prems(1)]) auto
    from Cons.prems(2) have st: "steady evs" by (simp add: steady_def)
    consider (intr) "ev = RecvInterrupted" | (data) bs where "ev = Received bs"
      using Cons.prems(2) by (cases ev) (auto simp: steady_def)
    then show ?thesis
    proof cases
      case intr
      then show ?thesis
        using Cons.IH [OF Cons.prems(1) st, of f] Cons.prems(3) first
        by (simp add: recv_loop.simps [of c] feed_def)
    next
      case data
      let ?c = "c\<lparr>tc_decoder := ?d\<lparr>fd_buf := fd_buf ?d @ bs\<rparr>\<rparr>"
      have all: "fd_buf (tc_decoder ?c) @ received evs = encode_frame t p @ rest"
        using Cons.prems(3) data by simp
      have snd: "sendable (fd_max_frame (tc_decoder ?c)) t p" using Cons.prems(1) by simp
      show ?thesis
      proof (cases rule: front_or_partial [OF all])
        case 1
        then have "try_emit (tc_decoder ?c) f = (Inr False, f, tc_decoder ?c)"
          by (intro try_emit_partial [OF snd]) auto
        then show ?thesis
          using Cons.IH [OF snd st all, of f] first data
          by (simp add: recv_loop.simps [of c] feed_def)
      next
        case 2: (2 r)
        from try_emit_complete [OF snd 2(1)] show ?thesis
          using 2 st first data by (simp add: recv_loop.simps [of c] feed_def)
      qed
    qed
  qed
qed

text \<open>Calling \<open>recv_frame\<close> \<open>n\<close> times on one connection.\<close>

fun recv_frames :: "nat \<Rightarrow> TcpConnection \<Rightarrow> RecvEvent list \<Rightarrow>
    (Frame list \<times> TcpConnection \<times> RecvEvent list) option" where
  "recv_frames 0 c evs = Some ([], c, evs)"
| "recv_frames (Suc n) c evs =
    (case recv_frame c evs of
       Some (Inr f, c', evs') \<Rightarrow> map_option (\<lambda>(fs, r). (f # fs, r)) (recv_frames n c' evs')
     | _ \<Rightarrow> None)"

lemma recv_frames_all:
  assumes "tc_valid c" and "steady evs"
    and "\<forall>(t, p) \<in> set fs. sendable (fd_max_frame (tc_decoder c)) t p"
    and "fd_buf (tc_decoder c) @ received evs = concat (map (\<lambda>(t, p). encode_frame t p) fs)"
  shows "map_option fst (recv_frames (length fs) c evs) = Some (map (\<lambda>(t, p). frame_of t p) fs)"
  using assms
proof (induction fs arbitrary: c evs)
  case Nil
  then show ?case by simp
next
  case (Cons q fs)
  obtain t p where q: "q = (t, p)" by force
  have snd: "sendable (fd_max_frame (tc_decoder c)) t p" using Cons.prems(3) q by simp
  from recv_loop_frame [OF snd Cons.prems(2), of _ default_Frame] Cons.prems(4)
  obtain c' evs' where rest: "recv_loop c evs default_Frame = Some (Inr (frame_of t p), c', evs')"
      "steady evs'" "tc_valid c' = tc_valid c"
      "fd_max_frame (tc_decoder c') = fd_max_frame (tc_decoder c)"
      "fd_buf (tc_decoder c') @ received evs' = concat (map (\<lambda>(t, p). encode_frame t p) fs)"
    by (auto simp: q)
  then have "map_option fst (recv_frames (length fs) c' evs') = Some (map (\<lambda>(t, p). frame_of t p) fs)"
    using Cons.prems by (intro Cons.IH) auto
  then show ?case
    using rest(1) Cons.prems(1) by (auto simp: recv_frame_def q)
qed

lemma send_loop_all:
  assumes "send_loop c bs evs out = Some (Inr (), c', sent, evs')"
  shows "sent = out @ bs \<and> c' = c"
  using assms
proof (induction c bs evs out rule: send_loop.induct)
  case (3 c b p k evs out)
  then have "sent = (out @ take k (b # p)) @ drop k (b # p) \<and> c' = c" by simp
  then show ?case by (simp only: append_assoc append_take_drop_id)
qed (auto simp: failed_def)

section \<open>Properties\<close>

text \<open>C25: However the transport cuts the byte stream of a list of frames into \<^verbatim>\<open>recv\<close> chunks, and
  whatever interruptions it reports in between, the receiver's successive \<open>recv_frame\<close> calls
  return exactly the frames that were sent, in order, with their types and payloads.\<close>

theorem frames_survive_chunking:
  assumes "tc_valid c" and "fd_buf (tc_decoder c) = []" and "steady evs"
    and "\<forall>(t, p) \<in> set fs. sendable (fd_max_frame (tc_decoder c)) t p"
    and "received evs = concat (map (\<lambda>(t, p). encode_frame t p) fs)"
  shows "map_option fst (recv_frames (length fs) c evs) = Some (map (\<lambda>(t, p). frame_of t p) fs)"
  using assms by (intro recv_frames_all) auto

theorem frames_survive_chunking_witness:
  "map_option fst (recv_frames 2
     \<lparr>tc_valid = True, tc_decoder = new_FrameDecoder 100, tc_last_error = 0\<rparr>
     [Received [14, 0, 0], RecvInterrupted, Received [0, 1, 0, 0, 0, 20, 0, 0, 0, 7],
      Received [8, 12, 0, 0, 0, 1, 0, 0, 0, 43, 0, 0, 0]]) =
   Some [frame_of FT_SubmitRequest [7, 8], frame_of FT_RollEpoch []]"
proof -
  let ?c = "\<lparr>tc_valid = True, tc_decoder = new_FrameDecoder 100, tc_last_error = 0\<rparr>"
  let ?evs = "[Received [14, 0, 0], RecvInterrupted, Received [0, 1, 0, 0, 0, 20, 0, 0, 0, 7],
      Received [8, 12, 0, 0, 0, 1, 0, 0, 0, 43, 0, 0, 0]]"
  let ?fs = "[(FT_SubmitRequest, [7, 8]), (FT_RollEpoch, [])] :: (FrameType \<times> bytes) list"
  have "received ?evs = concat (map (\<lambda>(t, p). encode_frame t p) ?fs)" by code_simp
  moreover have "\<forall>(t, p) \<in> set ?fs. sendable (fd_max_frame (tc_decoder ?c)) t p"
    by (simp add: sendable_def new_FrameDecoder_def known_type_iff)
  moreover have "steady ?evs" by (simp add: steady_def)
  ultimately have "map_option fst (recv_frames (length ?fs) ?c ?evs) = Some (map (\<lambda>(t, p). frame_of t p) ?fs)"
    by (intro frames_survive_chunking) (simp_all add: new_FrameDecoder_def)
  moreover have "length ?fs = 2" by simp
  ultimately show ?thesis by (simp only: list.map prod.case)
qed

text \<open>C27: Whatever bytes arrive, a frame the decoder emits is the exact front of its buffer: valid,
  of a type in the accepted range, no longer than the configured maximum; the remaining bytes are
  kept untouched for the next frame.\<close>

theorem emitted_frame_sound:
  assumes "feed d data out = (Inr True, f, d')"
  shows "fd_buf d @ data = encode_frame (fr_type f) (fr_payload f) @ fd_buf d' \<and>
    fr_valid f \<and> fr_total_length f \<le> fd_max_frame d \<and>
    1 \<le> FrameType_val (fr_type f) \<and> FrameType_val (fr_type f) \<le> 45"
  using try_emit_True [OF assms [unfolded feed_def]] by (simp add: known_type_iff)

theorem emitted_frame_sound_witness:
  "fr_valid (frame_of FT_Hello [9]) \<and>
   [13, 0, 0, 0, 1, 0, 0, 0, 1, 0, 0, 0, 9, 5] = encode_frame FT_Hello [9] @ [5]"
proof -
  have "feed (new_FrameDecoder 64) [13, 0, 0, 0, 1, 0, 0, 0, 1, 0, 0, 0, 9, 5] default_Frame =
      (Inr True, frame_of FT_Hello [9], \<lparr>fd_buf = [5], fd_max_frame = 64\<rparr>)"
    by code_simp
  from emitted_frame_sound [OF this] show ?thesis by (simp add: new_FrameDecoder_def frame_of_def)
qed

end
