(* ===== verification/Messages.thy ===== *)
theory Messages
  imports Records Framing
begin

text \<open>
  The messages of the coordinator/worker/client protocol (\<^verbatim>\<open>include/decodefabric/messages.hpp\<close> and
  the codecs of \<^verbatim>\<open>src/protocol.cpp\<close>). For each message there is the encoder, the reader that performs
  the decoder's reads in the decoder's order, and the decoder on a payload. Enumerations travel as
  their underlying integers and are cast back without validation, so a reader may return a \<open>_raw\<close>
  enumerator. \<open>wf_\<close> predicates state what the wire format can carry: enumerators of the enumeration,
  vectors and strings up to the reader's bounds.

  Every message is an interpretation of the \<open>codec\<close> contract.
\<close>

section \<open>Vectors and enumerations\<close>

definition w_list :: "('a \<Rightarrow> bytes) \<Rightarrow> 'a list \<Rightarrow> bytes" where
  "w_list w xs = w_u64 (of_nat (length xs)) @ concat (map w xs)"

definition r_list :: "string \<Rightarrow> 'a reader \<Rightarrow> 'a list reader" where
  "r_list too_large p = rbind r_u64 (\<lambda>cnt.
     if cnt > push_bit 18 1 then rfail EC_ProtocolInvalidField too_large else r_rep (unat cnt) p)"

definition small_list :: "('a \<Rightarrow> bool) \<Rightarrow> 'a list \<Rightarrow> bool" where
  "small_list ok xs \<longleftrightarrow> length xs \<le> 2 ^ 18 \<and> list_all ok xs"

definition small_bytes :: "'a list \<Rightarrow> bool" where
  "small_bytes xs \<longleftrightarrow> length xs \<le> 2 ^ 32"

lemma extends_list [parses_intros]: "extends p \<Longrightarrow> extends (r_list m p)"
  unfolding r_list_def by (intro parses_intros)

context codec
begin

lemma list_parses:
  assumes "small_list ok vs"
  shows "parses (r_list m dec) (w_list enc vs) vs"
  unfolding r_list_def w_list_def
proof (rule parses_bind [OF parses_u64])
  have l: "length vs \<le> 2 ^ 18" and w: "\<And>v. v \<in> set vs \<Longrightarrow> ok v"
    using assms by (auto simp: small_list_def list_all_iff)
  have n: "unat (of_nat (length vs) :: u64) = length vs"
    using l by (simp add: unat_of_nat)
  then have "\<not> push_bit 18 1 < (of_nat (length vs) :: u64)"
    using l by (simp add: word_less_nat_alt push_bit_eq_mult)
  then show "parses (if push_bit 18 1 < (of_nat (length vs) :: u64)
      then rfail EC_ProtocolInvalidField m else r_rep (unat (of_nat (length vs) :: u64)) dec)
      (concat (map enc vs)) vs"
    using elements_parse [of vs] w by (simp add: n)
qed

end

lemma parses_bytes_small [parses_intros]: "small_bytes v \<Longrightarrow> parses r_bytes (w_bytes v) v"
  by (rule parses_bytes) (simp add: small_bytes_def)

lemma parses_str_small [parses_intros]: "small_bytes s \<Longrightarrow> parses r_str (w_str s) s"
  by (rule parses_str) (simp add: small_bytes_def)

section \<open>Shared parts\<close>

subsection \<open>Compatibility key\<close>

definition write_key :: "CompatibilityKey \<Rightarrow> bytes" where
  "write_key m =
     w_u64 (ck_model m) @ w_u64 (ck_revision m) @ w_u64 (ck_adapter m) @
     w_u8 (BackendKind_val (ck_backend m)) @ w_u64 (ck_device m) @
     w_u8 (DType_val (ck_dtype m)) @ w_u32 (ck_tensor_layout m) @
     w_u32 (ck_kv_representation m) @ w_u32 (ck_sequence_requirements m) @
     w_u32 (ck_operator_policy m)"

definition read_key :: "CompatibilityKey reader" where
  "read_key =
     rbind r_u64 (\<lambda>model'. rbind r_u64 (\<lambda>revision'.
     rbind r_u64 (\<lambda>adapter'. rbind r_u8 (\<lambda>backend'.
     rbind r_u64 (\<lambda>device'. rbind r_u8 (\<lambda>dtype'.
     rbind r_u32 (\<lambda>tensor_layout'. rbind r_u32 (\<lambda>kv_representation'.
     rbind r_u32 (\<lambda>sequence_requirements'. rbind r_u32 (\<lambda>operator_policy'.
     rpure \<lparr>
       ck_model = model', ck_revision = revision', ck_adapter = adapter',
       ck_backend = BackendKind_of backend', ck_device = device',
       ck_dtype = DType_of dtype', ck_tensor_layout = tensor_layout',
       ck_kv_representation = kv_representation',
       ck_sequence_requirements = sequence_requirements',
       ck_operator_policy = operator_policy'\<rparr>))))))))))"

definition wf_key :: "CompatibilityKey \<Rightarrow> bool" where
  "wf_key m \<longleftrightarrow>
     BackendKind_ok (ck_backend m) \<and> DType_ok (ck_dtype m)"

interpretation key_msg: codec write_key read_key wf_key
proof
  show "parses read_key (write_key v) v" if w: "wf_key v" for v
    unfolding read_key_def write_key_def
    by (rule parses_intros | simp add: w [unfolded wf_key_def])+
  show "extends read_key"
    unfolding read_key_def by (rule parses_intros)+
qed

subsection \<open>Device\<close>

definition write_device :: "DeviceDescriptor \<Rightarrow> bytes" where
  "write_device m =
     w_u64 (dd_id m) @ w_u8 (BackendKind_val (dd_backend m)) @ w_str (dd_name m) @
     w_u32 (dd_compute_capability_major m) @ w_u32 (dd_compute_capability_minor m) @
     w_u64 (dd_memory_bytes m) @ w_u32 (dd_supported_dtypes m) @
     w_u32 (dd_max_groups_concurrent m)"

definition read_device :: "DeviceDescriptor reader" where
  "read_device =
     rbind r_u64 (\<lambda>id'. rbind r_u8 (\<lambda>backend'. rbind r_str (\<lambda>name'.
     rbind r_u32 (\<lambda>compute_capability_major'.
     rbind r_u32 (\<lambda>compute_capability_minor'. rbind r_u64 (\<lambda>memory_bytes'.
     rbind r_u32 (\<lambda>supported_dtypes'. rbind r_u32 (\<lambda>max_groups_concurrent'.
     rpure \<lparr>
       dd_id = id', dd_backend = BackendKind_of backend', dd_name = name',
       dd_compute_capability_major = compute_capability_major',
       dd_compute_capability_minor = compute_capability_minor',
       dd_memory_bytes = memory_bytes', dd_supported_dtypes = supported_dtypes',
       dd_max_groups_concurrent = max_groups_concurrent'\<rparr>))))))))"

definition wf_device :: "DeviceDescriptor \<Rightarrow> bool" where
  "wf_device m \<longleftrightarrow>
     BackendKind_ok (dd_backend m) \<and> small_bytes (dd_name m)"

interpretation device_msg: codec write_device read_device wf_device
proof
  show "parses read_device (write_device v) v" if w: "wf_device v" for v
    unfolding read_device_def write_device_def
    by (rule parses_intros | simp add: w [unfolded wf_device_def])+
  show "extends read_device"
    unfolding read_device_def by (rule parses_intros)+
qed

subsection \<open>State descriptor\<close>

definition write_state :: "StateDescriptor \<Rightarrow> bytes" where
  "write_state m =
     w_u64 (sd_id m) @ w_u64 (sd_generation m) @ w_u64 (sd_device m) @
     w_u64 (sd_bytes_held m) @ w_u64 (sd_estimated_growth m) @ w_u64 (sd_owner_tag m) @
     w_u64 (sd_access_version m)"

definition read_state :: "StateDescriptor reader" where
  "read_state =
     rbind r_u64 (\<lambda>id'. rbind r_u64 (\<lambda>generation'.
     rbind r_u64 (\<lambda>device'. rbind r_u64 (\<lambda>bytes_held'.
     rbind r_u64 (\<lambda>estimated_growth'. rbind r_u64 (\<lambda>owner_tag'.
     rbind r_u64 (\<lambda>access_version'.
     rpure \<lparr>
       sd_id = id', sd_generation = generation', sd_device = device',
       sd_bytes_held = bytes_held', sd_estimated_growth = estimated_growth',
       sd_owner_tag = owner_tag', sd_access_version = access_version'\<rparr>)))))))"

interpretation state_msg: codec write_state read_state "\<lambda>_. True"
proof
  show "parses read_state (write_state v) v" for v
    unfolding read_state_def write_state_def
    by (rule parses_intros | simp)+
  show "extends read_state"
    unfolding read_state_def by (rule parses_intros)+
qed

subsection \<open>Member\<close>

definition write_member :: "DecodeMemberSpec \<Rightarrow> bytes" where
  "write_member m =
     w_u64 (ms_sequence m) @ w_u64 (ms_attempt m) @ w_u64 (ms_generation m) @
     write_state (ms_state m) @ w_u64 (ms_current_length m) @
     w_u64 (ms_generated_tokens m) @ w_u64 (ms_remaining_budget m) @ w_bytes (ms_payload m)"

definition read_member :: "DecodeMemberSpec reader" where
  "read_member =
     rbind r_u64 (\<lambda>sequence'. rbind r_u64 (\<lambda>attempt'.
     rbind r_u64 (\<lambda>generation'. rbind read_state (\<lambda>state'.
     rbind r_u64 (\<lambda>current_length'. rbind r_u64 (\<lambda>generated_tokens'.
     rbind r_u64 (\<lambda>remaining_budget'. rbind r_bytes (\<lambda>payload'.
     rpure \<lparr>
       ms_sequence = sequence', ms_attempt = attempt', ms_generation = generation',
       ms_state = state', ms_current_length = current_length',
       ms_generated_tokens = generated_tokens', ms_remaining_budget = remaining_budget',
       ms_payload = payload'\<rparr>))))))))"

definition wf_member :: "DecodeMemberSpec \<Rightarrow> bool" where
  "wf_member m \<longleftrightarrow>
     small_bytes (ms_payload m)"

interpretation member_msg: codec write_member read_member wf_member
proof
  show "parses read_member (write_member v) v" if w: "wf_member v" for v
    unfolding read_member_def write_member_def
    by (rule parses_intros state_msg.enc_dec | simp add: w [unfolded wf_member_def])+
  show "extends read_member"
    unfolding read_member_def by (rule parses_intros state_msg.dec_extends)+
qed

subsection \<open>Member outcome\<close>

definition write_outcome :: "MemberOutcome \<Rightarrow> bytes" where
  "write_outcome m =
     w_u64 (mo_sequence m) @ w_u8 (MemberOutcomeKind_val (mo_kind m)) @
     w_u64 (mo_generated m) @ w_u64 (mo_token_identifier m) @ w_bool (mo_terminal m) @
     w_u32 (ErrorCode_val (mo_error_code m)) @ w_str (mo_error_message m) @
     w_bool (mo_retryable m) @ w_ns (mo_started_at m) @ w_ns (mo_finished_at m) @
     w_ns (mo_active_ns m) @ w_u64 (mo_kv_bytes_delta m) @ w_u64 (mo_kv_bytes_after m) @
     w_u64 (mo_attempt m) @ w_u64 (mo_generation m)"

definition read_outcome :: "MemberOutcome reader" where
  "read_outcome =
     rbind r_u64 (\<lambda>sequence'. rbind r_u8 (\<lambda>kind'.
     rbind r_u64 (\<lambda>generated'. rbind r_u64 (\<lambda>token_identifier'.
     rbind r_bool (\<lambda>terminal'. rbind r_u32 (\<lambda>error_code'.
     rbind r_str (\<lambda>error_message'. rbind r_bool (\<lambda>retryable'.
     rbind r_ns (\<lambda>started_at'. rbind r_ns (\<lambda>finished_at'.
     rbind r_ns (\<lambda>active_ns'. rbind r_u64 (\<lambda>kv_bytes_delta'.
     rbind r_u64 (\<lambda>kv_bytes_after'. rbind r_u64 (\<lambda>attempt'.
     rbind r_u64 (\<lambda>generation'.
     rpure \<lparr>
       mo_sequence = sequence', mo_kind = MemberOutcomeKind_of kind', mo_attempt = attempt',
       mo_generation = generation', mo_generated = generated',
       mo_token_identifier = token_identifier', mo_terminal = terminal',
       mo_error_code = ErrorCode_of error_code', mo_error_message = error_message',
       mo_retryable = retryable', mo_started_at = started_at',
       mo_finished_at = finished_at', mo_active_ns = active_ns',
       mo_kv_bytes_delta = kv_bytes_delta', mo_kv_bytes_after = kv_bytes_after'\<rparr>)))))))))))))))"

definition wf_outcome :: "MemberOutcome \<Rightarrow> bool" where
  "wf_outcome m \<longleftrightarrow>
     MemberOutcomeKind_ok (mo_kind m) \<and> ErrorCode_ok (mo_error_code m) \<and>
     small_bytes (mo_error_message m)"

interpretation outcome_msg: codec write_outcome read_outcome wf_outcome
proof
  show "parses read_outcome (write_outcome v) v" if w: "wf_outcome v" for v
    unfolding read_outcome_def write_outcome_def
    by (rule parses_intros | simp add: w [unfolded wf_outcome_def])+
  show "extends read_outcome"
    unfolding read_outcome_def by (rule parses_intros)+
qed

section \<open>Coordinator and worker\<close>

subsection \<open>ExecuteRequest\<close>

definition encode_execute_request :: "DecodeExecutionRequest \<Rightarrow> bytes" where
  "encode_execute_request m =
     w_u64 (er_dispatch_id m) @ w_u64 (er_epoch m) @ w_u64 (er_worker m) @
     w_u64 (er_worker_boot m) @ w_u64 (er_reservation_id m) @ write_key (er_key m) @
     write_device (er_device m) @ w_list write_member (er_members m) @
     w_bytes (er_group_payload m) @ w_ns (er_deadline_hint_ns m)"

definition read_execute_request :: "DecodeExecutionRequest reader" where
  "read_execute_request =
     rbind r_u64 (\<lambda>dispatch_id'. rbind r_u64 (\<lambda>epoch'.
     rbind r_u64 (\<lambda>worker'. rbind r_u64 (\<lambda>worker_boot'.
     rbind r_u64 (\<lambda>reservation_id'. rbind read_key (\<lambda>key'.
     rbind read_device (\<lambda>device'.
     rbind (r_list ''member count too large'' read_member) (\<lambda>members'.
     rbind r_bytes (\<lambda>group_payload'. rbind r_ns (\<lambda>deadline_hint_ns'.
     rpure \<lparr>
       er_dispatch_id = dispatch_id', er_epoch = epoch', er_worker = worker',
       er_worker_boot = worker_boot', er_key = key', er_device = device',
       er_reservation_id = reservation_id', er_members = members',
       er_group_payload = group_payload', er_deadline_hint_ns = deadline_hint_ns'\<rparr>))))))))))"

definition decode_execute_request :: "bytes \<Rightarrow> DecodeExecutionRequest result" where
  "decode_execute_request bytes = run_reader read_execute_request bytes"

definition wf_execute_request :: "DecodeExecutionRequest \<Rightarrow> bool" where
  "wf_execute_request m \<longleftrightarrow>
     wf_key (er_key m) \<and> wf_device (er_device m) \<and>
     small_list wf_member (er_members m) \<and> small_bytes (er_group_payload m)"

interpretation execute_request_msg: codec encode_execute_request read_execute_request wf_execute_request
proof
  show "parses read_execute_request (encode_execute_request v) v" if w: "wf_execute_request v" for v
    unfolding read_execute_request_def encode_execute_request_def
    by (rule parses_intros key_msg.enc_dec device_msg.enc_dec member_msg.list_parses | simp add: w [unfolded wf_execute_request_def])+
  show "extends read_execute_request"
    unfolding read_execute_request_def by (rule parses_intros key_msg.dec_extends device_msg.dec_extends member_msg.dec_extends)+
qed

text \<open>\<^verbatim>\<open>group_retryable\<close> is not on the wire: the decoded result has the default \<^verbatim>\<open>false\<close>.\<close>

subsection \<open>ExecuteResult\<close>

definition encode_execute_result :: "DecodeExecutionResult \<Rightarrow> bytes" where
  "encode_execute_result m =
     w_u64 (xr_dispatch_id m) @ w_u64 (xr_epoch m) @ w_u64 (xr_worker m) @
     w_u64 (xr_worker_boot m) @ w_ns (xr_group_active_ns m) @
     w_u32 (ErrorCode_val (xr_group_error m)) @ w_str (xr_group_error_message m) @
     w_list write_outcome (xr_outcomes m)"

definition read_execute_result :: "DecodeExecutionResult reader" where
  "read_execute_result =
     rbind r_u64 (\<lambda>dispatch_id'. rbind r_u64 (\<lambda>epoch'.
     rbind r_u64 (\<lambda>worker'. rbind r_u64 (\<lambda>worker_boot'.
     rbind r_ns (\<lambda>group_active_ns'. rbind r_u32 (\<lambda>group_error'.
     rbind r_str (\<lambda>group_error_message'.
     rbind (r_list ''outcome count too large'' read_outcome) (\<lambda>outcomes'.
     rpure \<lparr>
       xr_dispatch_id = dispatch_id', xr_epoch = epoch', xr_worker = worker',
       xr_worker_boot = worker_boot', xr_outcomes = outcomes',
       xr_group_active_ns = group_active_ns', xr_group_error = ErrorCode_of group_error',
       xr_group_error_message = group_error_message', xr_group_retryable = False\<rparr>))))))))"

definition decode_execute_result :: "bytes \<Rightarrow> DecodeExecutionResult result" where
  "decode_execute_result bytes = run_reader read_execute_result bytes"

definition wf_execute_result :: "DecodeExecutionResult \<Rightarrow> bool" where
  "wf_execute_result m \<longleftrightarrow>
     ErrorCode_ok (xr_group_error m) \<and> small_bytes (xr_group_error_message m) \<and>
     small_list wf_outcome (xr_outcomes m) \<and> \<not> xr_group_retryable m"

interpretation execute_result_msg: codec encode_execute_result read_execute_result wf_execute_result
proof
  show "parses read_execute_result (encode_execute_result v) v" if w: "wf_execute_result v" for v
    unfolding read_execute_result_def encode_execute_result_def
    by (rule parses_intros outcome_msg.list_parses | simp add: w [unfolded wf_execute_result_def])+
  show "extends read_execute_result"
    unfolding read_execute_result_def by (rule parses_intros outcome_msg.dec_extends)+
qed

subsection \<open>PreparedResult\<close>

definition write_prepared_member :: "PreparedMember \<Rightarrow> bytes" where
  "write_prepared_member m =
     w_u64 (pm_sequence m) @ w_u64 (pm_state m) @ w_u64 (pm_attempt m) @
     w_u64 (pm_generation m) @ w_u64 (pm_dispatch m) @ w_u64 (pm_epoch m) @
     w_u64 (pm_worker m) @ w_u64 (pm_worker_boot m) @ w_u64 (pm_proposal m) @
     w_u64 (pm_pre_state_digest m) @ w_u64 (pm_post_state_digest m) @
     w_u64 (pm_delta_digest m) @ w_u64 (pm_committed_position_before m) @
     w_u64 (pm_committed_position_after m) @ w_ns (pm_active_ns m) @
     write_outcome (pm_outcome m)"

definition read_prepared_member :: "PreparedMember reader" where
  "read_prepared_member =
     rbind r_u64 (\<lambda>sequence'. rbind r_u64 (\<lambda>state'.
     rbind r_u64 (\<lambda>attempt'. rbind r_u64 (\<lambda>generation'.
     rbind r_u64 (\<lambda>dispatch'. rbind r_u64 (\<lambda>epoch'.
     rbind r_u64 (\<lambda>worker'. rbind r_u64 (\<lambda>worker_boot'.
     rbind r_u64 (\<lambda>proposal'. rbind r_u64 (\<lambda>pre_state'.
     rbind r_u64 (\<lambda>post_state'. rbind r_u64 (\<lambda>delta'.
     rbind r_u64 (\<lambda>position_before'. rbind r_u64 (\<lambda>position_after'.
     rbind r_ns (\<lambda>active_ns'. rbind read_outcome (\<lambda>outcome'.
     rpure \<lparr>
       pm_sequence = sequence', pm_state = state', pm_attempt = attempt',
       pm_generation = generation', pm_dispatch = dispatch', pm_epoch = epoch',
       pm_worker = worker', pm_worker_boot = worker_boot', pm_proposal = proposal',
       pm_pre_state_digest = pre_state', pm_post_state_digest = post_state',
       pm_delta_digest = delta', pm_outcome = outcome',
       pm_committed_position_before = position_before',
       pm_committed_position_after = position_after', pm_active_ns = active_ns'\<rparr>))))))))))))))))"

definition wf_prepared_member :: "PreparedMember \<Rightarrow> bool" where
  "wf_prepared_member m \<longleftrightarrow>
     wf_outcome (pm_outcome m)"

interpretation prepared_member_msg: codec write_prepared_member read_prepared_member wf_prepared_member
proof
  show "parses read_prepared_member (write_prepared_member v) v" if w: "wf_prepared_member v" for v
    unfolding read_prepared_member_def write_prepared_member_def
    by (rule parses_intros outcome_msg.enc_dec | simp add: w [unfolded wf_prepared_member_def])+
  show "extends read_prepared_member"
    unfolding read_prepared_member_def by (rule parses_intros outcome_msg.dec_extends)+
qed

definition encode_prepared_result :: "PreparedDecode \<Rightarrow> bytes" where
  "encode_prepared_result m =
     w_u64 (pd_dispatch_id m) @ w_u64 (pd_epoch m) @ w_u64 (pd_worker m) @
     w_u64 (pd_worker_boot m) @ w_ns (pd_group_active_ns m) @
     w_u32 (ErrorCode_val (pd_group_error m)) @ w_str (pd_group_error_message m) @
     w_list write_prepared_member (pd_members m)"

definition read_prepared_result :: "PreparedDecode reader" where
  "read_prepared_result =
     rbind r_u64 (\<lambda>dispatch_id'. rbind r_u64 (\<lambda>epoch'.
     rbind r_u64 (\<lambda>worker'. rbind r_u64 (\<lambda>worker_boot'.
     rbind r_ns (\<lambda>group_active_ns'. rbind r_u32 (\<lambda>group_error'.
     rbind r_str (\<lambda>group_error_message'.
     rbind (r_list ''prepared member count too large'' read_prepared_member) (\<lambda>members'.
     rpure \<lparr>
       pd_dispatch_id = dispatch_id', pd_epoch = epoch', pd_worker = worker',
       pd_worker_boot = worker_boot', pd_members = members',
       pd_group_active_ns = group_active_ns', pd_group_error = ErrorCode_of group_error',
       pd_group_error_message = group_error_message'\<rparr>))))))))"

definition decode_prepared_result :: "bytes \<Rightarrow> PreparedDecode result" where
  "decode_prepared_result bytes = run_reader read_prepared_result bytes"

definition wf_prepared_result :: "PreparedDecode \<Rightarrow> bool" where
  "wf_prepared_result m \<longleftrightarrow>
     ErrorCode_ok (pd_group_error m) \<and> small_bytes (pd_group_error_message m) \<and>
     small_list wf_prepared_member (pd_members m)"

interpretation prepared_result_msg: codec encode_prepared_result read_prepared_result wf_prepared_result
proof
  show "parses read_prepared_result (encode_prepared_result v) v" if w: "wf_prepared_result v" for v
    unfolding read_prepared_result_def encode_prepared_result_def
    by (rule parses_intros prepared_member_msg.list_parses | simp add: w [unfolded wf_prepared_result_def])+
  show "extends read_prepared_result"
    unfolding read_prepared_result_def by (rule parses_intros prepared_member_msg.dec_extends)+
qed

subsection \<open>CommitGrant\<close>

definition encode_commit_grant :: "CommitGrant \<Rightarrow> bytes" where
  "encode_commit_grant m =
     w_u64 (cg_grant_id m) @ w_u64 (cg_proposal m) @ w_u64 (cg_epoch m) @
     w_u64 (cg_worker m) @ w_u64 (cg_worker_boot m) @ w_u64 (cg_sequence m) @
     w_u64 (cg_state m) @ w_u64 (cg_attempt m) @ w_u64 (cg_generation m) @
     w_u64 (cg_dispatch m) @ w_u64 (cg_committed_position m) @
     w_u64 (cg_pre_state_digest m) @ w_u64 (cg_post_state_digest m) @
     w_u64 (cg_delta_digest m) @ w_u8 (MemberOutcomeKind_val (cg_outcome_kind m)) @
     w_bool (cg_terminal m) @ w_u32 (cg_token_identifier m) @ w_ns (cg_active_ns m)"

definition read_commit_grant :: "CommitGrant reader" where
  "read_commit_grant =
     rbind r_u64 (\<lambda>grant_id'. rbind r_u64 (\<lambda>proposal'.
     rbind r_u64 (\<lambda>epoch'. rbind r_u64 (\<lambda>worker'.
     rbind r_u64 (\<lambda>worker_boot'. rbind r_u64 (\<lambda>sequence'.
     rbind r_u64 (\<lambda>state'. rbind r_u64 (\<lambda>attempt'.
     rbind r_u64 (\<lambda>generation'. rbind r_u64 (\<lambda>dispatch'.
     rbind r_u64 (\<lambda>position'. rbind r_u64 (\<lambda>pre_state'.
     rbind r_u64 (\<lambda>post_state'. rbind r_u64 (\<lambda>delta'.
     rbind r_u8 (\<lambda>outcome_kind'. rbind r_bool (\<lambda>terminal'.
     rbind r_u32 (\<lambda>token_identifier'. rbind r_ns (\<lambda>active_ns'.
     rpure \<lparr>
       cg_grant_id = grant_id', cg_proposal = proposal', cg_epoch = epoch',
       cg_worker = worker', cg_worker_boot = worker_boot', cg_sequence = sequence',
       cg_state = state', cg_attempt = attempt', cg_generation = generation',
       cg_dispatch = dispatch', cg_committed_position = position',
       cg_pre_state_digest = pre_state', cg_post_state_digest = post_state',
       cg_delta_digest = delta', cg_outcome_kind = MemberOutcomeKind_of outcome_kind',
       cg_terminal = terminal', cg_token_identifier = token_identifier',
       cg_active_ns = active_ns'\<rparr>))))))))))))))))))"

definition decode_commit_grant :: "bytes \<Rightarrow> CommitGrant result" where
  "decode_commit_grant bytes = run_reader read_commit_grant bytes"

definition wf_commit_grant :: "CommitGrant \<Rightarrow> bool" where
  "wf_commit_grant m \<longleftrightarrow>
     MemberOutcomeKind_ok (cg_outcome_kind m)"

interpretation commit_grant_msg: codec encode_commit_grant read_commit_grant wf_commit_grant
proof
  show "parses read_commit_grant (encode_commit_grant v) v" if w: "wf_commit_grant v" for v
    unfolding read_commit_grant_def encode_commit_grant_def
    by (rule parses_intros | simp add: w [unfolded wf_commit_grant_def])+
  show "extends read_commit_grant"
    unfolding read_commit_grant_def by (rule parses_intros)+
qed

subsection \<open>CommitReceipt\<close>

definition write_receipt :: "MemberReceipt \<Rightarrow> bytes" where
  "write_receipt m =
     w_u64 (mr_receipt_id m) @ w_u64 (mr_grant_id m) @ w_u64 (mr_proposal m) @
     w_u64 (mr_epoch m) @ w_u64 (mr_worker m) @ w_u64 (mr_worker_boot m) @
     w_u64 (mr_sequence m) @ w_u64 (mr_state m) @ w_u64 (mr_attempt m) @
     w_u64 (mr_generation m) @ w_u64 (mr_dispatch m) @
     w_u64 (mr_committed_position_before m) @ w_u64 (mr_committed_position_after m) @
     w_u64 (mr_pre_state_digest m) @ w_u64 (mr_post_state_digest m) @
     w_u64 (mr_delta_digest m) @ w_u8 (MemberOutcomeKind_val (mr_outcome_kind m)) @
     w_bool (mr_terminal m) @ w_u32 (mr_token_identifier m) @ w_ns (mr_active_ns m) @
     w_ns (mr_committed_at m)"

definition read_receipt :: "MemberReceipt reader" where
  "read_receipt =
     rbind r_u64 (\<lambda>receipt_id'. rbind r_u64 (\<lambda>grant_id'.
     rbind r_u64 (\<lambda>proposal'. rbind r_u64 (\<lambda>epoch'.
     rbind r_u64 (\<lambda>worker'. rbind r_u64 (\<lambda>worker_boot'.
     rbind r_u64 (\<lambda>sequence'. rbind r_u64 (\<lambda>state'.
     rbind r_u64 (\<lambda>attempt'. rbind r_u64 (\<lambda>generation'.
     rbind r_u64 (\<lambda>dispatch'. rbind r_u64 (\<lambda>position_before'.
     rbind r_u64 (\<lambda>position_after'. rbind r_u64 (\<lambda>pre_state'.
     rbind r_u64 (\<lambda>post_state'. rbind r_u64 (\<lambda>delta'.
     rbind r_u8 (\<lambda>outcome_kind'. rbind r_bool (\<lambda>terminal'.
     rbind r_u32 (\<lambda>token_identifier'. rbind r_ns (\<lambda>active_ns'.
     rbind r_ns (\<lambda>committed_at'.
     rpure \<lparr>
       mr_receipt_id = receipt_id', mr_grant_id = grant_id', mr_proposal = proposal',
       mr_epoch = epoch', mr_worker = worker', mr_worker_boot = worker_boot',
       mr_sequence = sequence', mr_state = state', mr_attempt = attempt',
       mr_generation = generation', mr_dispatch = dispatch',
       mr_committed_position_before = position_before',
       mr_committed_position_after = position_after', mr_pre_state_digest = pre_state',
       mr_post_state_digest = post_state', mr_delta_digest = delta',
       mr_outcome_kind = MemberOutcomeKind_of outcome_kind', mr_terminal = terminal',
       mr_token_identifier = token_identifier', mr_active_ns = active_ns',
       mr_committed_at = committed_at'\<rparr>)))))))))))))))))))))"

definition wf_receipt :: "MemberReceipt \<Rightarrow> bool" where
  "wf_receipt m \<longleftrightarrow>
     MemberOutcomeKind_ok (mr_outcome_kind m)"

interpretation receipt_msg: codec write_receipt read_receipt wf_receipt
proof
  show "parses read_receipt (write_receipt v) v" if w: "wf_receipt v" for v
    unfolding read_receipt_def write_receipt_def
    by (rule parses_intros | simp add: w [unfolded wf_receipt_def])+
  show "extends read_receipt"
    unfolding read_receipt_def by (rule parses_intros)+
qed

definition encode_commit_receipts :: "ReceiptDecode \<Rightarrow> bytes" where
  "encode_commit_receipts m =
     w_u64 (rd_dispatch_id m) @ w_u64 (rd_epoch m) @ w_u64 (rd_worker m) @
     w_u64 (rd_worker_boot m) @ w_u32 (ErrorCode_val (rd_group_error m)) @
     w_str (rd_group_error_message m) @ w_list write_receipt (rd_receipts m)"

definition read_commit_receipts :: "ReceiptDecode reader" where
  "read_commit_receipts =
     rbind r_u64 (\<lambda>dispatch_id'. rbind r_u64 (\<lambda>epoch'.
     rbind r_u64 (\<lambda>worker'. rbind r_u64 (\<lambda>worker_boot'.
     rbind r_u32 (\<lambda>group_error'. rbind r_str (\<lambda>group_error_message'.
     rbind (r_list ''receipt count too large'' read_receipt) (\<lambda>receipts'.
     rpure \<lparr>
       rd_dispatch_id = dispatch_id', rd_epoch = epoch', rd_worker = worker',
       rd_worker_boot = worker_boot', rd_receipts = receipts',
       rd_group_error = ErrorCode_of group_error',
       rd_group_error_message = group_error_message'\<rparr>)))))))"

definition decode_commit_receipts :: "bytes \<Rightarrow> ReceiptDecode result" where
  "decode_commit_receipts bytes = run_reader read_commit_receipts bytes"

definition wf_commit_receipts :: "ReceiptDecode \<Rightarrow> bool" where
  "wf_commit_receipts m \<longleftrightarrow>
     ErrorCode_ok (rd_group_error m) \<and> small_bytes (rd_group_error_message m) \<and>
     small_list wf_receipt (rd_receipts m)"

interpretation commit_receipts_msg: codec encode_commit_receipts read_commit_receipts wf_commit_receipts
proof
  show "parses read_commit_receipts (encode_commit_receipts v) v" if w: "wf_commit_receipts v" for v
    unfolding read_commit_receipts_def encode_commit_receipts_def
    by (rule parses_intros receipt_msg.list_parses | simp add: w [unfolded wf_commit_receipts_def])+
  show "extends read_commit_receipts"
    unfolding read_commit_receipts_def by (rule parses_intros receipt_msg.dec_extends)+
qed

subsection \<open>AbortPrepared\<close>

definition encode_abort_prepared :: "AbortPrepared \<Rightarrow> bytes" where
  "encode_abort_prepared m =
     w_u64 (ab_proposal m) @ w_u64 (ab_sequence m) @ w_u64 (ab_state m) @
     w_u64 (ab_attempt m) @ w_u64 (ab_generation m) @ w_u64 (ab_dispatch m) @
     w_u64 (ab_epoch m) @ w_u64 (ab_worker m) @ w_u64 (ab_worker_boot m)"

definition read_abort_prepared :: "AbortPrepared reader" where
  "read_abort_prepared =
     rbind r_u64 (\<lambda>proposal'. rbind r_u64 (\<lambda>sequence'.
     rbind r_u64 (\<lambda>state'. rbind r_u64 (\<lambda>attempt'.
     rbind r_u64 (\<lambda>generation'. rbind r_u64 (\<lambda>dispatch'.
     rbind r_u64 (\<lambda>epoch'. rbind r_u64 (\<lambda>worker'.
     rbind r_u64 (\<lambda>worker_boot'.
     rpure \<lparr>
       ab_proposal = proposal', ab_sequence = sequence', ab_state = state',
       ab_attempt = attempt', ab_generation = generation', ab_dispatch = dispatch',
       ab_epoch = epoch', ab_worker = worker', ab_worker_boot = worker_boot'\<rparr>)))))))))"

definition decode_abort_prepared :: "bytes \<Rightarrow> AbortPrepared result" where
  "decode_abort_prepared bytes = run_reader read_abort_prepared bytes"

interpretation abort_prepared_msg: codec encode_abort_prepared read_abort_prepared "\<lambda>_. True"
proof
  show "parses read_abort_prepared (encode_abort_prepared v) v" for v
    unfolding read_abort_prepared_def encode_abort_prepared_def
    by (rule parses_intros | simp)+
  show "extends read_abort_prepared"
    unfolding read_abort_prepared_def by (rule parses_intros)+
qed

section \<open>Client messages\<close>

subsection \<open>SubmitRequest\<close>

definition encode_submit_request :: "DecodeRequest \<Rightarrow> bytes" where
  "encode_submit_request m =
     w_u64 (rq_id m) @ w_u64 (rq_initial_attempt m) @ w_u64 (rq_tenant m) @
     w_u64 (rq_model m) @ w_u64 (rq_revision m) @ w_u64 (rq_adapter m) @
     w_u64 (rq_sequence m) @ w_u64 (rq_prompt_length m) @
     w_u64 (rq_max_generation_length m) @ w_u64 (rq_pregenerated m) @
     w_u32 (rq_priority m) @ w_u64 (rq_tenant_weight m) @
     w_u8 (LatencyClass_val (rq_latency_class m)) @ w_ns (rq_deadline m) @
     w_ns (rq_per_token_target_ns m) @ w_u64 (rq_estimated_kv_growth_per_token m) @
     w_u64 (rq_device_constraint m) @ w_str (rq_sampling_metadata m) @
     write_state (rq_state m) @ w_ns (rq_arrival m)"

definition read_submit_request :: "DecodeRequest reader" where
  "read_submit_request =
     rbind r_u64 (\<lambda>id'. rbind r_u64 (\<lambda>initial_attempt'.
     rbind r_u64 (\<lambda>tenant'. rbind r_u64 (\<lambda>model'.
     rbind r_u64 (\<lambda>revision'. rbind r_u64 (\<lambda>adapter'.
     rbind r_u64 (\<lambda>sequence'. rbind r_u64 (\<lambda>prompt_length'.
     rbind r_u64 (\<lambda>max_generation_length'. rbind r_u64 (\<lambda>pregenerated'.
     rbind r_u32 (\<lambda>priority'. rbind r_u64 (\<lambda>tenant_weight'.
     rbind r_u8 (\<lambda>latency_class'. rbind r_ns (\<lambda>deadline'.
     rbind r_ns (\<lambda>per_token_target_ns'.
     rbind r_u64 (\<lambda>estimated_kv_growth_per_token'.
     rbind r_u64 (\<lambda>device_constraint'. rbind r_str (\<lambda>sampling_metadata'.
     rbind read_state (\<lambda>state'. rbind r_ns (\<lambda>arrival'.
     rpure \<lparr>
       rq_id = id', rq_initial_attempt = initial_attempt', rq_tenant = tenant',
       rq_model = model', rq_revision = revision', rq_adapter = adapter',
       rq_sequence = sequence', rq_prompt_length = prompt_length',
       rq_max_generation_length = max_generation_length', rq_pregenerated = pregenerated',
       rq_priority = priority', rq_tenant_weight = tenant_weight',
       rq_latency_class = LatencyClass_of latency_class', rq_deadline = deadline',
       rq_arrival = arrival', rq_per_token_target_ns = per_token_target_ns',
       rq_estimated_kv_growth_per_token = estimated_kv_growth_per_token',
       rq_device_constraint = device_constraint', rq_sampling_metadata = sampling_metadata',
       rq_state = state'\<rparr>))))))))))))))))))))"

definition decode_submit_request :: "bytes \<Rightarrow> DecodeRequest result" where
  "decode_submit_request bytes = run_reader read_submit_request bytes"

definition wf_submit_request :: "DecodeRequest \<Rightarrow> bool" where
  "wf_submit_request m \<longleftrightarrow>
     LatencyClass_ok (rq_latency_class m) \<and> small_bytes (rq_sampling_metadata m)"

interpretation submit_request_msg: codec encode_submit_request read_submit_request wf_submit_request
proof
  show "parses read_submit_request (encode_submit_request v) v" if w: "wf_submit_request v" for v
    unfolding read_submit_request_def encode_submit_request_def
    by (rule parses_intros state_msg.enc_dec | simp add: w [unfolded wf_submit_request_def])+
  show "extends read_submit_request"
    unfolding read_submit_request_def by (rule parses_intros state_msg.dec_extends)+
qed

subsection \<open>SubmitAck\<close>

record SubmitAck =
  sa_admitted :: bool
  sa_sequence :: u64
  sa_reason :: string

definition encode_submit_ack :: "SubmitAck \<Rightarrow> bytes" where
  "encode_submit_ack m =
     w_bool (sa_admitted m) @ w_u64 (sa_sequence m) @ w_str (sa_reason m)"

definition read_submit_ack :: "SubmitAck reader" where
  "read_submit_ack =
     rbind r_bool (\<lambda>admitted'. rbind r_u64 (\<lambda>sequence'.
     rbind r_str (\<lambda>reason'.
     rpure \<lparr>
       sa_admitted = admitted', sa_sequence = sequence', sa_reason = reason'\<rparr>)))"

definition decode_submit_ack :: "bytes \<Rightarrow> SubmitAck result" where
  "decode_submit_ack bytes = run_reader read_submit_ack bytes"

definition wf_submit_ack :: "SubmitAck \<Rightarrow> bool" where
  "wf_submit_ack m \<longleftrightarrow>
     small_bytes (sa_reason m)"

interpretation submit_ack_msg: codec encode_submit_ack read_submit_ack wf_submit_ack
proof
  show "parses read_submit_ack (encode_submit_ack v) v" if w: "wf_submit_ack v" for v
    unfolding read_submit_ack_def encode_submit_ack_def
    by (rule parses_intros | simp add: w [unfolded wf_submit_ack_def])+
  show "extends read_submit_ack"
    unfolding read_submit_ack_def by (rule parses_intros)+
qed

subsection \<open>StatusReply\<close>

record StatusReply =
  sr_active :: u32
  sr_ready :: u32
  sr_generated_tokens :: u64
  sr_decode_steps :: u64
  sr_groups :: u32
  sr_requests_admitted :: u64
  sr_stale_rejections :: u64
  sr_epoch :: u64

definition encode_status_reply :: "StatusReply \<Rightarrow> bytes" where
  "encode_status_reply m =
     w_u32 (sr_active m) @ w_u32 (sr_ready m) @ w_u64 (sr_generated_tokens m) @
     w_u64 (sr_decode_steps m) @ w_u32 (sr_groups m) @ w_u64 (sr_requests_admitted m) @
     w_u64 (sr_stale_rejections m) @ w_u64 (sr_epoch m)"

definition read_status_reply :: "StatusReply reader" where
  "read_status_reply =
     rbind r_u32 (\<lambda>active'. rbind r_u32 (\<lambda>ready'.
     rbind r_u64 (\<lambda>generated_tokens'. rbind r_u64 (\<lambda>decode_steps'.
     rbind r_u32 (\<lambda>groups'. rbind r_u64 (\<lambda>requests_admitted'.
     rbind r_u64 (\<lambda>stale_rejections'. rbind r_u64 (\<lambda>epoch'.
     rpure \<lparr>
       sr_active = active', sr_ready = ready', sr_generated_tokens = generated_tokens',
       sr_decode_steps = decode_steps', sr_groups = groups',
       sr_requests_admitted = requests_admitted', sr_stale_rejections = stale_rejections',
       sr_epoch = epoch'\<rparr>))))))))"

definition decode_status_reply :: "bytes \<Rightarrow> StatusReply result" where
  "decode_status_reply bytes = run_reader read_status_reply bytes"

interpretation status_reply_msg: codec encode_status_reply read_status_reply "\<lambda>_. True"
proof
  show "parses read_status_reply (encode_status_reply v) v" for v
    unfolding read_status_reply_def encode_status_reply_def
    by (rule parses_intros | simp)+
  show "extends read_status_reply"
    unfolding read_status_reply_def by (rule parses_intros)+
qed

subsection \<open>SnapshotReply\<close>

definition encode_snapshot_reply :: "string \<Rightarrow> bytes" where
  "encode_snapshot_reply json = w_str json"

definition decode_snapshot_reply :: "bytes \<Rightarrow> string result" where
  "decode_snapshot_reply bytes = run_reader r_str bytes"

interpretation snapshot_reply_msg: codec encode_snapshot_reply r_str small_bytes
proof
  show "parses r_str (encode_snapshot_reply v) v" if "small_bytes v" for v
    unfolding encode_snapshot_reply_def using that by (rule parses_str_small)
  show "extends r_str" by (rule extends_str)
qed

subsection \<open>Query\<close>

record QueryRequest =
  qr_request :: u64
  qr_sequence :: u64
  qr_want_snapshot :: bool

definition encode_query :: "QueryRequest \<Rightarrow> bytes" where
  "encode_query m =
     w_u64 (qr_request m) @ w_u64 (qr_sequence m) @ w_bool (qr_want_snapshot m)"

definition read_query :: "QueryRequest reader" where
  "read_query =
     rbind r_u64 (\<lambda>request'. rbind r_u64 (\<lambda>sequence'.
     rbind r_bool (\<lambda>want_snapshot'.
     rpure \<lparr>
       qr_request = request', qr_sequence = sequence', qr_want_snapshot = want_snapshot'\<rparr>)))"

definition decode_query :: "bytes \<Rightarrow> QueryRequest result" where
  "decode_query bytes = run_reader read_query bytes"

interpretation query_msg: codec encode_query read_query "\<lambda>_. True"
proof
  show "parses read_query (encode_query v) v" for v
    unfolding read_query_def encode_query_def
    by (rule parses_intros | simp)+
  show "extends read_query"
    unfolding read_query_def by (rule parses_intros)+
qed

subsection \<open>Explain\<close>

record ExplainRequest =
  xq_sequence :: u64
  xq_question :: string

definition encode_explain_request :: "ExplainRequest \<Rightarrow> bytes" where
  "encode_explain_request m =
     w_u64 (xq_sequence m) @ w_str (xq_question m)"

definition read_explain_request :: "ExplainRequest reader" where
  "read_explain_request =
     rbind r_u64 (\<lambda>sequence'. rbind r_str (\<lambda>question'.
     rpure \<lparr>
       xq_sequence = sequence', xq_question = question'\<rparr>))"

definition decode_explain_request :: "bytes \<Rightarrow> ExplainRequest result" where
  "decode_explain_request bytes = run_reader read_explain_request bytes"

definition wf_explain_request :: "ExplainRequest \<Rightarrow> bool" where
  "wf_explain_request m \<longleftrightarrow>
     small_bytes (xq_question m)"

interpretation explain_request_msg: codec encode_explain_request read_explain_request wf_explain_request
proof
  show "parses read_explain_request (encode_explain_request v) v" if w: "wf_explain_request v" for v
    unfolding read_explain_request_def encode_explain_request_def
    by (rule parses_intros | simp add: w [unfolded wf_explain_request_def])+
  show "extends read_explain_request"
    unfolding read_explain_request_def by (rule parses_intros)+
qed

record ExplainReply =
  xp_text :: string
  xp_json :: string

definition encode_explain_reply :: "ExplainReply \<Rightarrow> bytes" where
  "encode_explain_reply m =
     w_str (xp_text m) @ w_str (xp_json m)"

definition read_explain_reply :: "ExplainReply reader" where
  "read_explain_reply =
     rbind r_str (\<lambda>text'. rbind r_str (\<lambda>json'.
     rpure \<lparr>
       xp_text = text', xp_json = json'\<rparr>))"

definition decode_explain_reply :: "bytes \<Rightarrow> ExplainReply result" where
  "decode_explain_reply bytes = run_reader read_explain_reply bytes"

definition wf_explain_reply :: "ExplainReply \<Rightarrow> bool" where
  "wf_explain_reply m \<longleftrightarrow>
     small_bytes (xp_text m) \<and> small_bytes (xp_json m)"

interpretation explain_reply_msg: codec encode_explain_reply read_explain_reply wf_explain_reply
proof
  show "parses read_explain_reply (encode_explain_reply v) v" if w: "wf_explain_reply v" for v
    unfolding read_explain_reply_def encode_explain_reply_def
    by (rule parses_intros | simp add: w [unfolded wf_explain_reply_def])+
  show "extends read_explain_reply"
    unfolding read_explain_reply_def by (rule parses_intros)+
qed

subsection \<open>Authority\<close>

record GetAuthority =
  ga_sequence :: u64

definition encode_get_authority :: "GetAuthority \<Rightarrow> bytes" where
  "encode_get_authority m =
     w_u64 (ga_sequence m)"

definition read_get_authority :: "GetAuthority reader" where
  "read_get_authority =
     rbind r_u64 (\<lambda>sequence'.
     rpure \<lparr>
       ga_sequence = sequence'\<rparr>)"

definition decode_get_authority :: "bytes \<Rightarrow> GetAuthority result" where
  "decode_get_authority bytes = run_reader read_get_authority bytes"

interpretation get_authority_msg: codec encode_get_authority read_get_authority "\<lambda>_. True"
proof
  show "parses read_get_authority (encode_get_authority v) v" for v
    unfolding read_get_authority_def encode_get_authority_def
    by (rule parses_intros | simp)+
  show "extends read_get_authority"
    unfolding read_get_authority_def by (rule parses_intros)+
qed

record AuthorityReply =
  au_exists :: bool
  au_sequence :: u64
  au_dispatch :: u64
  au_epoch :: u64
  au_worker :: u64
  au_worker_boot :: u64
  au_attempt :: u64
  au_generation :: u64
  au_generated :: u64

definition encode_authority_reply :: "AuthorityReply \<Rightarrow> bytes" where
  "encode_authority_reply m =
     w_bool (au_exists m) @ w_u64 (au_sequence m) @ w_u64 (au_dispatch m) @
     w_u64 (au_epoch m) @ w_u64 (au_worker m) @ w_u64 (au_worker_boot m) @
     w_u64 (au_attempt m) @ w_u64 (au_generation m) @ w_u64 (au_generated m)"

definition read_authority_reply :: "AuthorityReply reader" where
  "read_authority_reply =
     rbind r_bool (\<lambda>exists'. rbind r_u64 (\<lambda>sequence'.
     rbind r_u64 (\<lambda>dispatch'. rbind r_u64 (\<lambda>epoch'.
     rbind r_u64 (\<lambda>worker'. rbind r_u64 (\<lambda>worker_boot'.
     rbind r_u64 (\<lambda>attempt'. rbind r_u64 (\<lambda>generation'.
     rbind r_u64 (\<lambda>generated'.
     rpure \<lparr>
       au_exists = exists', au_sequence = sequence', au_dispatch = dispatch',
       au_epoch = epoch', au_worker = worker', au_worker_boot = worker_boot',
       au_attempt = attempt', au_generation = generation', au_generated = generated'\<rparr>)))))))))"

definition decode_authority_reply :: "bytes \<Rightarrow> AuthorityReply result" where
  "decode_authority_reply bytes = run_reader read_authority_reply bytes"

interpretation authority_reply_msg: codec encode_authority_reply read_authority_reply "\<lambda>_. True"
proof
  show "parses read_authority_reply (encode_authority_reply v) v" for v
    unfolding read_authority_reply_def encode_authority_reply_def
    by (rule parses_intros | simp)+
  show "extends read_authority_reply"
    unfolding read_authority_reply_def by (rule parses_intros)+
qed

end
