(* ===== verification/Recovery.thy ===== *)
theory Recovery
  imports FabricProperties Messages
begin

text \<open>
  Durable state (\<^verbatim>\<open>src/fabric.cpp\<close>, \<^verbatim>\<open>Crc32\<close>, \<^verbatim>\<open>serialize_state\<close> and \<^verbatim>\<open>recover_state\<close>). The image is a body followed by its
  CRC-32. Recovery verifies the checksum, then loads records one by one into the fabric: when a record
  cannot be read it returns at once and keeps what it has loaded so far, which is why the loops thread
  the fabric next to the reader.
\<close>

section \<open>Checksum\<close>

definition crc_bit :: "u32 \<Rightarrow> u32" where
  "crc_bit crc = drop_bit 1 crc XOR (0xEDB88320 AND - (crc AND 1))"

definition crc_byte :: "u8 \<Rightarrow> u32 \<Rightarrow> u32" where
  "crc_byte b crc = (crc_bit ^^ 8) (crc XOR ucast b)"

definition crc_update :: "u32 \<Rightarrow> bytes \<Rightarrow> u32" where
  "crc_update crc p = fold crc_byte p crc"

definition body_crc :: "bytes \<Rightarrow> u32" where
  "body_crc body = NOT (crc_update 0xFFFFFFFF body)"

section \<open>Writing\<close>

definition kPersistenceVersion :: u32 where
  "kPersistenceVersion = 3"

definition persist_accepted :: "AcceptedGeneration \<Rightarrow> bytes" where
  "persist_accepted a = w_u64 (ag_idempotency_key a) @ w_u64 (ag_epoch a) @ w_u64 (ag_worker a) @
     w_u64 (ag_worker_boot a) @ w_u64 (ag_sequence a) @ w_u64 (ag_state a) @ w_u64 (ag_attempt a) @
     w_u64 (ag_generation a) @ w_u64 (ag_dispatch a) @ w_u64 (ag_committed_position_before a) @
     w_u64 (ag_committed_position_after a) @ w_u64 (ag_pre_state_digest a) @ w_u64 (ag_post_state_digest a) @
     w_u64 (ag_delta_digest a) @ w_bool (ag_terminal a) @ w_bool (ag_promotion_observed a)"

definition persist_seq :: "SequenceId \<times> Seq \<Rightarrow> bytes" where
  "persist_seq = (\<lambda>(k, s). w_u64 k @ w_u64 (rq_id (s_req s)) @ w_u64 (s_current_attempt s) @
     w_u64 (rq_tenant (s_req s)) @ w_u64 (rq_model (s_req s)) @ w_u64 (rq_revision (s_req s)) @
     w_u64 (rq_prompt_length (s_req s)) @ w_u64 (rq_max_generation_length (s_req s)) @
     w_u64 (tb_generated (s_budget s)) @ w_u64 (s_generation s) @ w_u64 (s_generated s) @
     w_u64 (s_committed s) @ w_u64 (s_current_length s) @ w_ns (rq_deadline (s_req s)) @
     w_u32 (rq_priority (s_req s)) @ w_u8 (LatencyClass_val (rq_latency_class (s_req s))) @
     w_u8 (SequenceState_val (s_machine s)) @ w_u64 (sd_id (s_state s)) @ w_u64 (sd_generation (s_state s)) @
     w_u64 (sd_bytes_held (s_state s)) @ w_u64 (sd_estimated_growth (s_state s)) @
     w_u64 (sd_owner_tag (s_state s)) @ w_u32 (s_attempt_count s) @ w_u64 (s_committed_state_digest s) @
     w_bool (s_state_digest_established s) @ w_bool (s_has_accepted s) @
     (if s_has_accepted s then persist_accepted (s_accepted s) else []))"

definition persist_terminal :: "SequenceId \<times> SequenceState \<Rightarrow> bytes" where
  "persist_terminal = (\<lambda>(k, st). w_u64 k @ w_u8 (SequenceState_val st))"

definition persist_receipt :: "MemberReceipt \<Rightarrow> bytes" where
  "persist_receipt rp = w_u64 (mr_receipt_id rp) @ w_u64 (mr_grant_id rp) @ w_u64 (mr_proposal rp) @
     w_u64 (mr_epoch rp) @ w_u64 (mr_worker rp) @ w_u64 (mr_worker_boot rp) @ w_u64 (mr_sequence rp) @
     w_u64 (mr_state rp) @ w_u64 (mr_attempt rp) @ w_u64 (mr_generation rp) @ w_u64 (mr_dispatch rp) @
     w_u64 (mr_committed_position_before rp) @ w_u64 (mr_committed_position_after rp) @
     w_u64 (mr_pre_state_digest rp) @ w_u64 (mr_post_state_digest rp) @ w_u64 (mr_delta_digest rp) @
     w_u8 (MemberOutcomeKind_val (mr_outcome_kind rp)) @ w_bool (mr_terminal rp) @
     w_u32 (mr_token_identifier rp) @ w_ns (mr_active_ns rp) @ w_ns (mr_committed_at rp)"

definition persist_grant :: "GrantRecord \<Rightarrow> bytes" where
  "persist_grant gr = (let g = gr_grant gr in
     w_u64 (cg_grant_id g) @ w_u64 (cg_proposal g) @ w_u64 (cg_epoch g) @ w_u64 (cg_worker g) @
     w_u64 (cg_worker_boot g) @ w_u64 (cg_sequence g) @ w_u64 (cg_state g) @ w_u64 (cg_attempt g) @
     w_u64 (cg_generation g) @ w_u64 (cg_dispatch g) @ w_u64 (cg_committed_position g) @
     w_u64 (cg_pre_state_digest g) @ w_u64 (cg_post_state_digest g) @ w_u64 (cg_delta_digest g) @
     w_u8 (MemberOutcomeKind_val (cg_outcome_kind g)) @ w_bool (cg_terminal g) @
     w_u32 (cg_token_identifier g) @ w_ns (cg_active_ns g) @ w_u32 (word_of_int (gr_status gr)) @
     w_bool (gr_has_receipt gr) @ (if gr_has_receipt gr then persist_receipt (gr_receipt gr) else []))"

definition state_magic :: bytes where
  "state_magic = map char_byte ''DFST''"

definition state_body :: "Fabric \<Rightarrow> bytes" where
  "state_body f = concat (map w_u8 state_magic) @ w_u32 kPersistenceVersion @ w_u64 (fb_epoch f) @
     w_u64 (fb_next_seq f) @ w_u64 (fb_next_dispatch f) @
     w_u64 (of_nat (length (fb_seqs f))) @ concat (map persist_seq (fb_seqs f)) @
     w_u64 (of_nat (length (fb_terminal_records f))) @ concat (map persist_terminal (fb_terminal_records f)) @
     w_u64 (of_nat (length (fb_grant_ledger f))) @ concat (map (\<lambda>kv. persist_grant (snd kv)) (fb_grant_ledger f)) @
     w_u64 (fb_receipt_count f)"

definition serialize_state :: "Fabric \<Rightarrow> bytes result" where
  "serialize_state f = (let body = state_body f in Inr (body @ w_u32 (body_crc body)))"

section \<open>Reading\<close>

text \<open>A failed read is reported as a truncation, named after the field.\<close>

definition labelled :: "string \<Rightarrow> 'a reader \<Rightarrow> 'a reader" where
  "labelled what p r = (case p r of Inl _ \<Rightarrow> failed EC_PersistenceTruncated what | Inr x \<Rightarrow> Inr x)"

definition load_accepted :: "AcceptedGeneration reader" where
  "load_accepted =
     rbind (labelled ''accepted key'' r_u64) (\<lambda>ik'.
     rbind (labelled ''accepted epoch'' r_u64) (\<lambda>ae'.
     rbind (labelled ''accepted worker'' r_u64) (\<lambda>aw'.
     rbind (labelled ''accepted boot'' r_u64) (\<lambda>ab'.
     rbind (labelled ''accepted seq'' r_u64) (\<lambda>sq'.
     rbind (labelled ''accepted state'' r_u64) (\<lambda>st2'.
     rbind (labelled ''accepted attempt'' r_u64) (\<lambda>a_at'.
     rbind (labelled ''accepted gen'' r_u64) (\<lambda>gn'.
     rbind (labelled ''accepted dispatch'' r_u64) (\<lambda>di'.
     rbind (labelled ''accepted cb'' r_u64) (\<lambda>cb'.
     rbind (labelled ''accepted ca'' r_u64) (\<lambda>ca'.
     rbind (labelled ''accepted pre'' r_u64) (\<lambda>pre'.
     rbind (labelled ''accepted post'' r_u64) (\<lambda>post'.
     rbind (labelled ''accepted delta'' r_u64) (\<lambda>dd'.
     rbind (labelled ''accepted terminal'' r_u8) (\<lambda>term'.
     rbind (labelled ''accepted promotion'' r_u8) (\<lambda>po'.
     rpure \<lparr>ag_idempotency_key = ik', ag_epoch = ae', ag_worker = aw', ag_worker_boot = ab',
       ag_sequence = sq', ag_state = st2', ag_attempt = a_at', ag_generation = gn',
       ag_dispatch = di', ag_committed_position_before = cb', ag_committed_position_after = ca',
       ag_pre_state_digest = pre', ag_post_state_digest = post', ag_delta_digest = dd',
       ag_terminal = (term' \<noteq> 0), ag_promotion_observed = (po' \<noteq> 0)\<rparr>))))))))))))))))"

text \<open>Work that was running is sent back to the queue; \<^verbatim>\<open>transition_to\<close> has the last word.\<close>

definition restore_machine :: "SequenceState \<Rightarrow> SequenceState" where
  "restore_machine st =
    (if st = ST_Dispatched \<or> st = ST_Running \<or> st = ST_Reserved \<or> st = ST_Grouped \<or> st = ST_StepCompleted \<or>
        st = ST_Cancelled \<or> st = ST_DeadlineExpired
     then sm_go ST_Waiting st else st)"

definition load_seq :: "(SequenceId \<times> Seq) reader" where
  "load_seq =
     rbind (labelled ''seq id'' r_u64) (\<lambda>s0'.
     rbind (labelled ''req id'' r_u64) (\<lambda>rq'.
     rbind (labelled ''attempt'' r_u64) (\<lambda>at'.
     rbind (labelled ''tenant'' r_u64) (\<lambda>t'.
     rbind (labelled ''model'' r_u64) (\<lambda>md'.
     rbind (labelled ''revision'' r_u64) (\<lambda>rv'.
     rbind (labelled ''prompt'' r_u64) (\<lambda>pl'.
     rbind (labelled ''maxlen'' r_u64) (\<lambda>ml'.
     rbind (labelled ''generated'' r_u64) (\<lambda>bg'.
     rbind (labelled ''generation'' r_u64) (\<lambda>gen'.
     rbind (labelled ''g'' r_u64) (\<lambda>gen_t'.
     rbind (labelled ''c'' r_u64) (\<lambda>comm'.
     rbind (labelled ''clen'' r_u64) (\<lambda>clen'.
     rbind (labelled ''deadline'' r_ns) (\<lambda>dl'.
     rbind (labelled ''priority'' r_u32) (\<lambda>pr'.
     rbind (labelled ''latency'' r_u8) (\<lambda>lc'.
     rbind (labelled ''state'' r_u8) (\<lambda>st'.
     rbind (labelled ''state id'' r_u64) (\<lambda>sid'.
     rbind (labelled ''state gen'' r_u64) (\<lambda>sg'.
     rbind (labelled ''bytes held'' r_u64) (\<lambda>bh'.
     rbind (labelled ''est growth'' r_u64) (\<lambda>eg'.
     rbind (labelled ''owner tag'' r_u64) (\<lambda>ot'.
     rbind (labelled ''attempt count'' r_u32) (\<lambda>ac'.
     rbind (labelled ''committed digest'' r_u64) (\<lambda>csd'.
     rbind (labelled ''digest established'' r_u8) (\<lambda>sde'.
     rbind (labelled ''accepted flag'' r_u8) (\<lambda>hac'.
     rbind (if hac' \<noteq> 0 then load_accepted else rpure default_AcceptedGeneration) (\<lambda>a.
     rpure (s0', default_Seq\<lparr>
       s_req := default_DecodeRequest\<lparr>rq_id := rq', rq_tenant := t', rq_model := md', rq_revision := rv',
         rq_prompt_length := pl', rq_max_generation_length := ml', rq_deadline := dl', rq_priority := pr',
         rq_latency_class := LatencyClass_of lc'\<rparr>,
       s_current_attempt := at', s_budget := budget_replay (unat bg') (new_budget ml'), s_generation := gen',
       s_generated := gen_t', s_committed := comm', s_current_length := clen',
       s_state := default_StateDescriptor\<lparr>sd_id := sid', sd_generation := sg', sd_bytes_held := bh',
         sd_estimated_growth := eg', sd_owner_tag := ot'\<rparr>,
       s_attempt_count := ac', s_committed_state_digest := csd', s_state_digest_established := sde' \<noteq> 0,
       s_has_accepted := hac' \<noteq> 0, s_accepted := a, s_has_inflight := False,
       s_in_flight_dispatch := id_null, s_has_inflight_grant := False, s_in_flight_grant := id_null,
       s_in_flight_proposal := id_null, s_machine := restore_machine (SequenceState_of st')\<rparr>))))))))))))))))))))))))))))"

definition load_terminal :: "(SequenceId \<times> SequenceState) reader" where
  "load_terminal =
     rbind (labelled ''t seq'' r_u64) (\<lambda>tseq'.
     rbind (labelled ''t state'' r_u8) (\<lambda>tst'.
     rpure (tseq', SequenceState_of tst')))"

definition load_receipt :: "MemberReceipt reader" where
  "load_receipt =
     rbind (labelled ''receipt id'' r_u64) (\<lambda>ra'.
     rbind (labelled ''receipt grant'' r_u64) (\<lambda>rb'.
     rbind (labelled ''receipt proposal'' r_u64) (\<lambda>rc'.
     rbind (labelled ''receipt epoch'' r_u64) (\<lambda>rd'.
     rbind (labelled ''receipt worker'' r_u64) (\<lambda>re'.
     rbind (labelled ''receipt boot'' r_u64) (\<lambda>rf'.
     rbind (labelled ''receipt seq'' r_u64) (\<lambda>rg'.
     rbind (labelled ''receipt state'' r_u64) (\<lambda>rh'.
     rbind (labelled ''receipt attempt'' r_u64) (\<lambda>ri'.
     rbind (labelled ''receipt gen'' r_u64) (\<lambda>rj'.
     rbind (labelled ''receipt dispatch'' r_u64) (\<lambda>rk'.
     rbind (labelled ''receipt cb'' r_u64) (\<lambda>la'.
     rbind (labelled ''receipt ca'' r_u64) (\<lambda>lb'.
     rbind (labelled ''receipt pre'' r_u64) (\<lambda>lc'.
     rbind (labelled ''receipt post'' r_u64) (\<lambda>ld'.
     rbind (labelled ''receipt delta'' r_u64) (\<lambda>le'.
     rbind (labelled ''receipt kind'' r_u8) (\<lambda>lf'.
     rbind (labelled ''receipt terminal'' r_u8) (\<lambda>lg'.
     rbind (labelled ''receipt token'' r_u32) (\<lambda>lh'.
     rbind (labelled ''receipt active'' r_ns) (\<lambda>li'.
     rbind (labelled ''receipt time'' r_ns) (\<lambda>lj'.
     rpure \<lparr>mr_receipt_id = ra', mr_grant_id = rb', mr_proposal = rc', mr_epoch = rd', mr_worker = re',
       mr_worker_boot = rf', mr_sequence = rg', mr_state = rh', mr_attempt = ri',
       mr_generation = rj', mr_dispatch = rk', mr_committed_position_before = la',
       mr_committed_position_after = lb', mr_pre_state_digest = lc', mr_post_state_digest = ld',
       mr_delta_digest = le', mr_outcome_kind = MemberOutcomeKind_of lf',
       mr_terminal = (lg' \<noteq> 0), mr_token_identifier = lh', mr_active_ns = li',
       mr_committed_at = lj'\<rparr>)))))))))))))))))))))"

definition load_grant :: "GrantRecord reader" where
  "load_grant =
     rbind (labelled ''grant id'' r_u64) (\<lambda>gid'.
     rbind (labelled ''grant proposal'' r_u64) (\<lambda>pro'.
     rbind (labelled ''grant epoch'' r_u64) (\<lambda>g_ep'.
     rbind (labelled ''grant worker'' r_u64) (\<lambda>wk'.
     rbind (labelled ''grant boot'' r_u64) (\<lambda>wb'.
     rbind (labelled ''grant seq'' r_u64) (\<lambda>sq'.
     rbind (labelled ''grant state'' r_u64) (\<lambda>st2'.
     rbind (labelled ''grant attempt'' r_u64) (\<lambda>at'.
     rbind (labelled ''grant generation'' r_u64) (\<lambda>gn'.
     rbind (labelled ''grant dispatch'' r_u64) (\<lambda>di'.
     rbind (labelled ''grant position'' r_u64) (\<lambda>cp'.
     rbind (labelled ''grant pre'' r_u64) (\<lambda>pre'.
     rbind (labelled ''grant post'' r_u64) (\<lambda>post'.
     rbind (labelled ''grant delta'' r_u64) (\<lambda>dd'.
     rbind (labelled ''grant ok'' r_u8) (\<lambda>ok'.
     rbind (labelled ''grant term'' r_u8) (\<lambda>term'.
     rbind (labelled ''grant token'' r_u32) (\<lambda>tok'.
     rbind (labelled ''grant active'' r_ns) (\<lambda>an'.
     rbind (labelled ''grant status'' r_u32) (\<lambda>status'.
     rbind (labelled ''grant has receipt'' r_u8) (\<lambda>has_rec'.
     (let g = \<lparr>cg_grant_id = gid', cg_proposal = pro', cg_epoch = g_ep', cg_worker = wk',
         cg_worker_boot = wb', cg_sequence = sq', cg_state = st2', cg_attempt = at',
         cg_generation = gn', cg_dispatch = di', cg_committed_position = cp',
         cg_pre_state_digest = pre', cg_post_state_digest = post', cg_delta_digest = dd',
         cg_outcome_kind = MemberOutcomeKind_of ok', cg_terminal = (term' \<noteq> 0),
         cg_token_identifier = tok', cg_active_ns = an'\<rparr>;
          status' = (if status' = 0 then 2 else sint status')
      in if has_rec' \<noteq> 0
         then rbind load_receipt (\<lambda>rp.
           rpure \<lparr>gr_grant = g, gr_status = status', gr_receipt = rp, gr_has_receipt = True\<rparr>)
         else rpure \<lparr>gr_grant = g, gr_status = status', gr_receipt = default_MemberReceipt,
           gr_has_receipt = False\<rparr>)))))))))))))))))))))"

definition load_header :: "(CoordinatorEpoch \<times> u64 \<times> u64) reader" where
  "load_header =
     rbind (labelled ''missing magic'' r_u8) (\<lambda>m0. rbind (labelled ''missing magic'' r_u8) (\<lambda>m1.
     rbind (labelled ''missing magic'' r_u8) (\<lambda>m2. rbind (labelled ''missing magic'' r_u8) (\<lambda>m3.
     if [m0, m1, m2, m3] \<noteq> state_magic then rfail EC_PersistenceCorrupt ''bad magic''
     else rbind (\<lambda>r. case r_u32 r of
            Inl _ \<Rightarrow> failed EC_PersistenceUnknownVersion ''bad persistence version''
          | Inr (ver, r') \<Rightarrow> if ver \<noteq> kPersistenceVersion
              then failed EC_PersistenceUnknownVersion ''bad persistence version'' else Inr (ver, r')) (\<lambda>ver.
     rbind (labelled ''epoch'' r_u64) (\<lambda>ep. rbind (labelled ''next_seq'' r_u64) (\<lambda>next_seq.
     rbind (labelled ''next_dispatch'' r_u64) (\<lambda>next_d. rpure (ep, next_seq, next_d)))))))))"

section \<open>Loading\<close>

text \<open>A loop that reads a record, returns at once when that fails, and otherwise stores it.\<close>

primrec load_loop :: "nat \<Rightarrow> 'a reader \<Rightarrow> ('a \<Rightarrow> Fabric \<Rightarrow> Fabric) \<Rightarrow> Reader \<times> Fabric \<Rightarrow> Reader result \<times> Fabric" where
  "load_loop 0 p store rf = (Inr (fst rf), snd rf)"
| "load_loop (Suc n) p store rf =
    (case p (fst rf) of
       Inl e \<Rightarrow> (Inl e, snd rf)
     | Inr (v, r) \<Rightarrow> load_loop n p store (r, store v (snd rf)))"

definition store_seq :: "SequenceId \<times> Seq \<Rightarrow> Fabric \<Rightarrow> Fabric" where
  "store_seq = (\<lambda>(k, s) f. f\<lparr>
     fb_seqs := (if umap_find (fb_seqs f) k = None then umap_set k s (fb_seqs f) else fb_seqs f),
     fb_req_to_seq := umap_set (rq_id (s_req s)) k (fb_req_to_seq f),
     fb_tenant_active := umap_set (rq_tenant (s_req s))
       (umap_get 0 (fb_tenant_active f) (rq_tenant (s_req s)) + 1) (fb_tenant_active f)\<rparr>)"

definition store_terminal :: "SequenceId \<times> SequenceState \<Rightarrow> Fabric \<Rightarrow> Fabric" where
  "store_terminal = (\<lambda>(k, st) f. f\<lparr>fb_terminal_records := umap_set k st (fb_terminal_records f)\<rparr>)"

definition store_grant :: "GrantRecord \<Rightarrow> Fabric \<Rightarrow> Fabric" where
  "store_grant gr f = f\<lparr>fb_grant_ledger := umap_set (cg_grant_id (gr_grant gr)) gr (fb_grant_ledger f)\<rparr>"

definition load_header_into :: "CoordinatorEpoch \<times> u64 \<times> u64 \<Rightarrow> Fabric \<Rightarrow> Fabric" where
  "load_header_into = (\<lambda>(ep, next_seq, next_d) f. f\<lparr>fb_epoch := ep, fb_next_seq := next_seq,
     fb_next_dispatch := next_d, fb_seqs := [], fb_req_to_seq := [], fb_terminal_records := [],
     fb_tenant_active := []\<rparr>)"

definition recount :: "Fabric \<Rightarrow> Fabric" where
  "recount f = bump (\<lambda>st. st\<lparr>
     st_generated_tokens := fold (\<lambda>(k, s) n. n + s_generated s) (fb_seqs f) 0,
     st_decode_steps := fold (\<lambda>(k, s) n. if s_generation s \<ge> 1 then n + (s_generation s - 1) else n) (fb_seqs f) 0,
     st_sequences_started := of_nat (length (fb_seqs f)),
     st_requests_admitted := of_nat (length (fb_req_to_seq f))\<rparr>) f"

definition load_grants :: "Reader \<times> Fabric \<Rightarrow> unit result \<times> Fabric" where
  "load_grants = (\<lambda>(r, f0).
    let f = f0\<lparr>fb_grant_ledger := [], fb_receipt_count := 0\<rparr> in
    case labelled ''grant count'' r_u64 r of
      Inl e \<Rightarrow> (Inl e, f)
    | Inr (gcnt, r1) \<Rightarrow>
        if gcnt > push_bit 22 1 then (failed EC_PersistenceInvalidField ''grant count too large'', f)
        else (case load_loop (unat gcnt) load_grant store_grant (r1, f) of
            (Inl e, f1) \<Rightarrow> (Inl e, f1)
          | (Inr r2, f1) \<Rightarrow>
             (case labelled ''receipt count'' r_u64 r2 of
                Inl e \<Rightarrow> (Inl e, f1)
              | Inr (rcnt, _) \<Rightarrow>
                  (Inr (), record_event EV_MemoryReconciled id_null id_null ''recovered''
                     (recount (f1\<lparr>fb_receipt_count := rcnt\<rparr>))))))"

definition load_terminals :: "Reader \<times> Fabric \<Rightarrow> unit result \<times> Fabric" where
  "load_terminals = (\<lambda>(r, f).
    case labelled ''terminal count'' r_u64 r of
      Inl e \<Rightarrow> (Inl e, f)
    | Inr (tcnt, r1) \<Rightarrow>
       (case load_loop (unat tcnt) load_terminal store_terminal (r1, f) of
          (Inl e, f1) \<Rightarrow> (Inl e, f1)
        | (Inr r2, f1) \<Rightarrow> load_grants (r2, f1)))"

definition load_sequences :: "Reader \<times> Fabric \<Rightarrow> unit result \<times> Fabric" where
  "load_sequences = (\<lambda>(r, f).
    case labelled ''seq count'' r_u64 r of
      Inl e \<Rightarrow> (Inl e, f)
    | Inr (cnt, r1) \<Rightarrow>
       (case load_loop (unat cnt) load_seq store_seq (r1, f) of
          (Inl e, f1) \<Rightarrow> (Inl e, f1)
        | (Inr r2, f1) \<Rightarrow> load_terminals (r2, f1)))"

definition stored_crc :: "bytes \<Rightarrow> u32" where
  "stored_crc bytes = (let n = length bytes in
     ucast (bytes ! (n - 4)) OR push_bit 8 (ucast (bytes ! (n - 3))) OR
     push_bit 16 (ucast (bytes ! (n - 2))) OR push_bit 24 (ucast (bytes ! (n - 1))))"

definition recover_state :: "bytes \<Rightarrow> Fabric \<Rightarrow> unit result \<times> Fabric" where
  "recover_state bytes f =
    (if length bytes < 5 then (failed EC_PersistenceTruncated ''state too short'', f)
     else if body_crc (take (length bytes - 4) bytes) \<noteq> stored_crc bytes
       then (failed EC_PersistenceChecksumMismatch ''state checksum mismatch'', f)
     else (case load_header (new_reader bytes) of
         Inl e \<Rightarrow> (Inl e, f)
       | Inr (h, r) \<Rightarrow> load_sequences (r, load_header_into h f)))"

section \<open>The checksum detects a changed byte\<close>

lemma crc_bit_eq: "crc_bit c = (if odd c then drop_bit 1 c XOR 0xEDB88320 else drop_bit 1 c)"
  by (cases "odd c") (simp_all add: crc_bit_def and_one_eq odd_iff_mod_2_eq_one even_iff_mod_2_eq_zero)

lemma crc_bit_top: "bit (crc_bit c) 31 \<longleftrightarrow> odd c"
  using bit_imp_le_length [of c 32] by (auto simp: crc_bit_eq bit_xor_iff bit_drop_bit_eq)

lemma xor_cancel:
  assumes "a XOR x = b XOR (x :: 'a::len word)"
  shows "a = b"
proof -
  have "(a XOR x) XOR x = (b XOR x) XOR x" using assms by simp
  then show ?thesis by (simp add: xor.assoc)
qed

lemma crc_bit_inj: "crc_bit a = crc_bit b \<Longrightarrow> a = b"
proof -
  assume eq: "crc_bit a = crc_bit b"
  then have o: "odd a \<longleftrightarrow> odd b" using crc_bit_top by metis
  have "drop_bit 1 a = drop_bit 1 b"
    using eq o by (auto simp: crc_bit_eq dest: xor_cancel split: if_splits)
  then have "bit a (Suc k) = bit b (Suc k)" for k 
    using bit_drop_bit_eq [of 1 a, THEN fun_cong, of k] bit_drop_bit_eq [of 1 b, THEN fun_cong, of k] by simp
  moreover have "bit a 0 = bit b 0" using o by (simp add: bit_0)
  ultimately have "bit a k = bit b k" for k by (cases k) simp_all
  then show "a = b" by (intro bit_word_eqI)
qed

lemma crc_bits_inj: "(crc_bit ^^ n) a = (crc_bit ^^ n) b \<Longrightarrow> a = b"
  by (induction n) (auto dest: crc_bit_inj)

lemma crc_byte_inj:
  "crc_byte b c = crc_byte b c' \<Longrightarrow> c = c'" "crc_byte b c = crc_byte b' c \<Longrightarrow> b = b'"
proof -
  show "c = c'" if "crc_byte b c = crc_byte b c'"
    using crc_bits_inj [OF that [unfolded crc_byte_def]] by (rule xor_cancel)
  show "b = b'" if "crc_byte b c = crc_byte b' c"
  proof -
    have "ucast b XOR c = ucast b' XOR c" using crc_bits_inj [OF that [unfolded crc_byte_def]] by (simp add: xor.commute)
    then have "(ucast b :: u32) = ucast b'" by (rule xor_cancel)
    moreover have "ucast (ucast v :: u32) = v" for v :: u8 by (rule bit_word_eqI) (simp add: bit_ucast_iff)
    ultimately show ?thesis by metis
  qed
qed

lemma crc_update_inj: "crc_update c p = crc_update c' p \<Longrightarrow> c = c'"
  unfolding crc_update_def by (induction p arbitrary: c c') (auto dest: crc_byte_inj)

lemma crc_update_byte:
  assumes "crc_update c (xs @ b # ys) = crc_update c (xs @ b' # ys)"
  shows "b = b'"
proof -
  have "crc_update (crc_byte b (crc_update c xs)) ys = crc_update (crc_byte b' (crc_update c xs)) ys"
    using assms by (simp add: crc_update_def)
  then show ?thesis by (intro crc_byte_inj(2)) (rule crc_update_inj)
qed

lemma body_crc_byte:
  assumes "i < length body" and "b \<noteq> body ! i"
  shows "body_crc (body[i := b]) \<noteq> body_crc body"
proof
  assume "body_crc (body[i := b]) = body_crc body"
  then have "crc_update 0xFFFFFFFF (take i body @ b # drop (Suc i) body) =
      crc_update 0xFFFFFFFF (take i body @ body ! i # drop (Suc i) body)"
    using assms(1) by (simp add: body_crc_def upd_conv_take_nth_drop id_take_nth_drop [symmetric])
  then show False using crc_update_byte assms(2) by blast
qed

lemma le_get_inj:
  assumes "le_get xs = (le_get ys :: 'a::len word)" and "length xs = length ys" and "8 * length xs \<le> LENGTH('a)"
  shows "xs = ys"
proof (rule nth_equalityI)
  fix i assume i: "i < length xs"
  show "xs ! i = ys ! i"
  proof (rule bit_word_eqI)
    fix k assume "k < LENGTH(8)"
    then have "(8 * i + k) div 8 = i" "(8 * i + k) mod 8 = k" "8 * i + k < LENGTH('a)" using i assms(3) by auto
    then show "bit (xs ! i) k = bit (ys ! i) k"
      using arg_cong [OF assms(1), of "\<lambda>w. bit w (8 * i + k)"] i assms(2) by (simp add: le_get_def bit_le_get_from)
  qed
qed (rule assms(2))

lemma stored_crc_get:
  assumes "length crc = 4"
  shows "stored_crc (body @ crc) = le_get crc"
proof -
  obtain a b c d where "crc = [a, b, c, d]" using assms by (auto simp: length_Suc_conv eval_nat_numeral)
  then show ?thesis by (simp add: stored_crc_def le_get_def Let_def nth_append or.assoc)
qed

lemma stored_crc_append [simp]: "stored_crc (body @ w_u32 c) = c"
  by (simp add: stored_crc_get w_u32_def le_get_put)

lemma length_state_body: "length (state_body f) \<ge> 5"
  by (simp add: state_body_def state_magic_def w_u8_def w_u32_def)

lemma changed_byte_checksum:
  assumes "i < length (body @ w_u32 (body_crc body))" and "b \<noteq> (body @ w_u32 (body_crc body)) ! i"
  shows "let bs = (body @ w_u32 (body_crc body))[i := b] in body_crc (take (length bs - 4) bs) \<noteq> stored_crc bs"
proof (cases "i < length body")
  case True
  then show ?thesis
    using body_crc_byte [OF True] assms(2) by (simp add: list_update_append nth_append Let_def w_u32_def stored_crc_get le_get_put)
next
  case False
  let ?crc = "(w_u32 (body_crc body))[i - length body := b]"
  have l: "length ?crc = 4" "i - length body < 4" using assms(1) False by (auto simp: w_u32_def)
  have "?crc \<noteq> w_u32 (body_crc body)" using assms(2) False l by (auto simp: nth_append dest: arg_cong [of _ _ "\<lambda>xs. xs ! (i - length body)"])
  then have "le_get ?crc \<noteq> (le_get (w_u32 (body_crc body)) :: u32)" using le_get_inj [where 'a = 32, of ?crc] l by auto
  then show ?thesis
    using False l(1) by (simp add: list_update_append Let_def stored_crc_get) (simp add: w_u32_def le_get_put)
qed

section \<open>What survives a restart\<close>

definition restored_seq :: "Seq \<Rightarrow> Seq" where
  "restored_seq s = default_Seq\<lparr>
     s_req := default_DecodeRequest\<lparr>rq_id := rq_id (s_req s), rq_tenant := rq_tenant (s_req s),
       rq_model := rq_model (s_req s), rq_revision := rq_revision (s_req s),
       rq_prompt_length := rq_prompt_length (s_req s),
       rq_max_generation_length := rq_max_generation_length (s_req s), rq_deadline := rq_deadline (s_req s),
       rq_priority := rq_priority (s_req s), rq_latency_class := rq_latency_class (s_req s)\<rparr>,
     s_current_attempt := s_current_attempt s,
     s_budget := budget_replay (unat (tb_generated (s_budget s))) (new_budget (rq_max_generation_length (s_req s))),
     s_generation := s_generation s, s_generated := s_generated s, s_committed := s_committed s,
     s_current_length := s_current_length s,
     s_state := default_StateDescriptor\<lparr>sd_id := sd_id (s_state s), sd_generation := sd_generation (s_state s),
       sd_bytes_held := sd_bytes_held (s_state s), sd_estimated_growth := sd_estimated_growth (s_state s),
       sd_owner_tag := sd_owner_tag (s_state s)\<rparr>,
     s_attempt_count := s_attempt_count s, s_committed_state_digest := s_committed_state_digest s,
     s_state_digest_established := s_state_digest_established s, s_has_accepted := s_has_accepted s,
     s_accepted := (if s_has_accepted s then s_accepted s else default_AcceptedGeneration),
     s_has_inflight := False, s_in_flight_dispatch := id_null, s_has_inflight_grant := False,
     s_in_flight_grant := id_null, s_in_flight_proposal := id_null,
     s_machine := restore_machine (s_machine s)\<rparr>"

definition restored_grant :: "GrantRecord \<Rightarrow> GrantRecord" where
  "restored_grant gr = gr\<lparr>gr_status := (if gr_status gr = 0 then 2 else gr_status gr),
     gr_receipt := (if gr_has_receipt gr then gr_receipt gr else default_MemberReceipt)\<rparr>"

definition seq_named :: "Seq \<Rightarrow> bool" where
  "seq_named s \<longleftrightarrow> SequenceState_ok (s_machine s) \<and> LatencyClass_ok (rq_latency_class (s_req s))"

definition grant_named :: "GrantRecord \<Rightarrow> bool" where
  "grant_named gr \<longleftrightarrow> MemberOutcomeKind_ok (cg_outcome_kind (gr_grant gr)) \<and> gr_status gr \<in> {0, 1, 2} \<and>
     (gr_has_receipt gr \<longrightarrow> MemberOutcomeKind_ok (mr_outcome_kind (gr_receipt gr)))"

lemma parses_labelled [parses_intros]: "parses p bs v \<Longrightarrow> parses (labelled m p) bs v"
  by (simp add: parses_def labelled_def)

lemma parses_flag: "parses r_u8 (w_bool b) (if b then 1 else 0)"
  unfolding w_bool_def by (rule parses_u8)

lemma parses_then: "c \<Longrightarrow> parses p bs v \<Longrightarrow> parses (if c then p else q) bs v"
  by simp

lemma parses_else: "\<not> c \<Longrightarrow> parses q bs v \<Longrightarrow> parses (if c then p else q) bs v"
  by simp

lemma parses_accepted: "parses load_accepted (persist_accepted a) a"
  unfolding load_accepted_def persist_accepted_def by (rule parses_intros parses_flag | simp)+

lemma parses_receipt: "MemberOutcomeKind_ok (mr_outcome_kind rp) \<Longrightarrow> parses load_receipt (persist_receipt rp) rp"
  unfolding load_receipt_def persist_receipt_def by (rule parses_intros parses_flag | simp)+

lemma parses_terminal: "SequenceState_ok (snd kv) \<Longrightarrow> parses load_terminal (persist_terminal kv) kv"
  unfolding load_terminal_def persist_terminal_def by (cases kv) (simp, (rule parses_intros | simp)+)

lemma parses_seq:
  assumes "seq_named s"
  shows "parses load_seq (persist_seq (k, s)) (k, restored_seq s)"
proof -
  have acc: "parses (if (if s_has_accepted s then 1 else 0 :: u8) \<noteq> 0 then load_accepted else rpure default_AcceptedGeneration)
      (if s_has_accepted s then persist_accepted (s_accepted s) else [])
      (if s_has_accepted s then s_accepted s else default_AcceptedGeneration)"
    by (simp add: parses_accepted parses_pure)
  show ?thesis
    unfolding load_seq_def persist_seq_def prod.case
    by (rule parses_intros parses_flag acc
      | simp add: assms [unfolded seq_named_def] restored_seq_def)+
qed

lemma parses_grant:
  assumes "grant_named gr"
  shows "parses load_grant (persist_grant gr) (restored_grant gr)"
proof -
  have status: "(if word_of_int (gr_status gr) = (0 :: u32) then 2 else sint (word_of_int (gr_status gr) :: u32)) =
      (if gr_status gr = 0 then 2 else gr_status gr)"
    using assms by (auto simp: grant_named_def)
  have kind: "MemberOutcomeKind_ok (cg_outcome_kind (gr_grant gr))" using assms by (simp add: grant_named_def)
  show ?thesis
  proof (cases "gr_has_receipt gr")
    case True
    then have "MemberOutcomeKind_ok (mr_outcome_kind (gr_receipt gr))" using assms by (simp add: grant_named_def)
    note rp = parses_receipt [OF this]
    show ?thesis
      unfolding load_grant_def persist_grant_def Let_def
      by (simp only: True if_True, (rule parses_intros parses_flag parses_then rp
        | simp add: kind True restored_grant_def status)+)
  next
    case False
    show ?thesis
      unfolding load_grant_def persist_grant_def Let_def
      by (simp only: False if_False append_Nil2, (rule parses_intros parses_flag parses_else
        | simp add: kind False restored_grant_def status)+)
  qed
qed

section \<open>Recovering an image\<close>

text \<open>A reader between what it has consumed and what is left.\<close>

definition reader_at :: "bytes \<Rightarrow> bytes \<Rightarrow> Reader" where
  "reader_at pre rest = \<lparr>in_data = pre @ rest, in_pos = length pre\<rparr>"

lemma parses_at: "parses p bs v \<Longrightarrow> p (reader_at pre (bs @ rest)) = Inr (v, reader_at (pre @ bs) rest)"
  by (simp add: parses_def reader_at_def)

lemma load_loop_at:
  assumes "\<And>v. v \<in> set vs \<Longrightarrow> parses p (enc v) (img v)"
  shows "load_loop (length vs) p store (reader_at pre (concat (map enc vs) @ rest), f) =
    (Inr (reader_at (pre @ concat (map enc vs)) rest), fold store (map img vs) f)"
  using assms
proof (induction vs arbitrary: pre f)
  case (Cons v vs)
  then have "p (reader_at pre (enc v @ concat (map enc vs) @ rest)) =
      Inr (img v, reader_at (pre @ enc v) (concat (map enc vs) @ rest))"
    by (intro parses_at) simp
  then show ?case using Cons.IH [of "pre @ enc v" "store (img v) f"] Cons.prems by simp
qed simp

lemma parses_header:
  "parses load_header (concat (map w_u8 state_magic) @ w_u32 kPersistenceVersion @ w_u64 ep @ w_u64 ns @ w_u64 nd)
     (ep, ns, nd)"
proof -
  have m: "concat (map w_u8 state_magic) = w_u8 (char_byte CHR ''D'') @ w_u8 (char_byte CHR ''F'') @
      w_u8 (char_byte CHR ''S'') @ w_u8 (char_byte CHR ''T'')"
    by (simp add: state_magic_def)
  have ver: "parses (\<lambda>r. case r_u32 r of Inl _ \<Rightarrow> failed EC_PersistenceUnknownVersion ''bad persistence version''
      | Inr (ver, r') \<Rightarrow> if ver \<noteq> kPersistenceVersion
          then failed EC_PersistenceUnknownVersion ''bad persistence version'' else Inr (ver, r'))
      (w_u32 kPersistenceVersion) kPersistenceVersion"
    using parses_u32 [of kPersistenceVersion] by (simp add: parses_def)
  show ?thesis
    unfolding m load_header_def append_assoc
    by (rule parses_intros parses_else ver | simp add: state_magic_def)+
qed

lemma umap_set_new: "k \<notin> set (map fst m) \<Longrightarrow> umap_set k v m = m @ [(k, v)]"
  unfolding umap_set_def by (induction m) auto

lemma fold_frame: "(\<And>x g. P (store x g) = P g) \<Longrightarrow> P (fold store xs f) = P f"
  by (induction xs arbitrary: f) simp_all

lemma fold_store_seq:
  "distinct (map fst (fb_seqs f @ kvs)) \<Longrightarrow> fb_seqs (fold store_seq kvs f) = fb_seqs f @ kvs"
proof (induction kvs arbitrary: f)
  case (Cons kv kvs)
  obtain k s where kv: "kv = (k, s)" by force
  have "k \<notin> set (map fst (fb_seqs f))" using Cons.prems by (auto simp: kv)
  then have "fb_seqs (store_seq kv f) = fb_seqs f @ [kv]"
    by (simp add: store_seq_def kv umap_set_new umap_find_None_iff)
  then show ?case using Cons.IH [of "store_seq kv f"] Cons.prems by simp
qed simp

lemma fold_store_terminal:
  "distinct (map fst (fb_terminal_records f @ kvs)) \<Longrightarrow>
     fb_terminal_records (fold store_terminal kvs f) = fb_terminal_records f @ kvs"
proof (induction kvs arbitrary: f)
  case (Cons kv kvs)
  obtain k st where kv: "kv = (k, st)" by force
  have "k \<notin> set (map fst (fb_terminal_records f))" using Cons.prems by (auto simp: kv)
  then have "fb_terminal_records (store_terminal kv f) = fb_terminal_records f @ [kv]"
    by (simp add: store_terminal_def kv umap_set_new)
  then show ?case using Cons.IH [of "store_terminal kv f"] Cons.prems by simp
qed simp

lemma fold_store_grant:
  "distinct (map fst (fb_grant_ledger f) @ map (cg_grant_id \<circ> gr_grant) grs) \<Longrightarrow>
     fb_grant_ledger (fold store_grant grs f) = fb_grant_ledger f @ map (\<lambda>gr. (cg_grant_id (gr_grant gr), gr)) grs"
proof (induction grs arbitrary: f)
  case (Cons gr grs)
  have "cg_grant_id (gr_grant gr) \<notin> set (map fst (fb_grant_ledger f))" using Cons.prems by auto
  then have "fb_grant_ledger (store_grant gr f) = fb_grant_ledger f @ [(cg_grant_id (gr_grant gr), gr)]"
    by (simp add: store_grant_def umap_set_new)
  then show ?case using Cons.IH [of "store_grant gr f"] Cons.prems by simp
qed simp

lemma store_frames:
  "fb_epoch (fold store_seq kvs f) = fb_epoch f" "fb_next_seq (fold store_seq kvs f) = fb_next_seq f"
  "fb_next_dispatch (fold store_seq kvs f) = fb_next_dispatch f"
  "fb_terminal_records (fold store_seq kvs f) = fb_terminal_records f"
  "fb_next_grant (fold store_seq kvs f) = fb_next_grant f"
  "fb_epoch (fold store_terminal ts f) = fb_epoch f" "fb_next_seq (fold store_terminal ts f) = fb_next_seq f"
  "fb_next_dispatch (fold store_terminal ts f) = fb_next_dispatch f"
  "fb_seqs (fold store_terminal ts f) = fb_seqs f" "fb_next_grant (fold store_terminal ts f) = fb_next_grant f"
  "fb_epoch (fold store_grant gs f) = fb_epoch f" "fb_next_seq (fold store_grant gs f) = fb_next_seq f"
  "fb_next_dispatch (fold store_grant gs f) = fb_next_dispatch f" "fb_seqs (fold store_grant gs f) = fb_seqs f"
  "fb_terminal_records (fold store_grant gs f) = fb_terminal_records f"
  "fb_next_grant (fold store_grant gs f) = fb_next_grant f"
  by (rule fold_frame, auto simp: store_seq_def store_terminal_def store_grant_def)+

text \<open>A fabric that can be written faithfully: keys are unique, the ledger is keyed by its grants, every
  enumerator is a named one, and the counts fit their fields.\<close>

definition persistable :: "Fabric \<Rightarrow> bool" where
  "persistable f \<longleftrightarrow> umap_ok (fb_seqs f) \<and> umap_ok (fb_terminal_records f) \<and> umap_ok (fb_grant_ledger f) \<and>
     list_all (\<lambda>(k, s). seq_named s) (fb_seqs f) \<and>
     list_all (\<lambda>(k, st). SequenceState_ok st) (fb_terminal_records f) \<and>
     list_all (\<lambda>(i, gr). cg_grant_id (gr_grant gr) = i \<and> grant_named gr) (fb_grant_ledger f) \<and>
     length (fb_seqs f) < 2 ^ 64 \<and> length (fb_terminal_records f) < 2 ^ 64 \<and> length (fb_grant_ledger f) \<le> 2 ^ 22"

lemma load_grants_image:
  assumes "umap_ok ledger" and "list_all (\<lambda>(i, gr). cg_grant_id (gr_grant gr) = i \<and> grant_named gr) ledger"
    and "length ledger \<le> 2 ^ 22"
  shows "\<exists>g. load_grants (reader_at pre (w_u64 (of_nat (length ledger)) @ concat (map (\<lambda>kv. persist_grant (snd kv)) ledger) @
      w_u64 rc @ rest), f) = (Inr (), g) \<and>
    fb_grant_ledger g = map (\<lambda>(i, gr). (i, restored_grant gr)) ledger \<and> fb_receipt_count g = rc \<and>
    fb_seqs g = fb_seqs f \<and> fb_terminal_records g = fb_terminal_records f \<and> fb_epoch g = fb_epoch f \<and>
    fb_next_seq g = fb_next_seq f \<and> fb_next_dispatch g = fb_next_dispatch f \<and> fb_next_grant g = fb_next_grant f"
proof -
  let ?n = "of_nat (length ledger) :: u64" and ?body = "concat (map (\<lambda>kv. persist_grant (snd kv)) ledger)"
  let ?f = "f\<lparr>fb_grant_ledger := [], fb_receipt_count := 0\<rparr>"
  let ?grs = "map (\<lambda>kv. restored_grant (snd kv)) ledger"
  have n: "unat ?n = length ledger" "\<not> ?n > push_bit 22 1"
    using assms(3) by (simp_all add: unat_of_nat word_less_nat_alt push_bit_eq_mult)
  have key: "cg_grant_id (gr_grant (restored_grant (snd kv))) = fst kv" if "kv \<in> set ledger" for kv
    using assms(2) that by (auto simp: list_all_iff restored_grant_def)
  have "map (cg_grant_id \<circ> gr_grant) ?grs = map fst ledger" using key by simp
  then have "distinct (map fst (fb_grant_ledger ?f) @ map (cg_grant_id \<circ> gr_grant) ?grs)"
    using assms(1) by (simp only: umap_ok_def) simp
  from fold_store_grant [OF this]
  have "fb_grant_ledger (fold store_grant ?grs ?f) = map (\<lambda>gr. (cg_grant_id (gr_grant gr), gr)) ?grs" by simp
  also have "\<dots> = map (\<lambda>(i, gr). (i, restored_grant gr)) ledger" using key by auto
  finally have led: "fb_grant_ledger (fold store_grant ?grs ?f) = map (\<lambda>(i, gr). (i, restored_grant gr)) ledger" .
  have 1: "labelled ''grant count'' r_u64 (reader_at pre (w_u64 ?n @ ?body @ w_u64 rc @ rest)) =
      Inr (?n, reader_at (pre @ w_u64 ?n) (?body @ w_u64 rc @ rest))"
    by (intro parses_at parses_intros)
  have 2: "load_loop (length ledger) load_grant store_grant (reader_at (pre @ w_u64 ?n) (?body @ w_u64 rc @ rest), ?f) =
      (Inr (reader_at ((pre @ w_u64 ?n) @ ?body) (w_u64 rc @ rest)), fold store_grant ?grs ?f)"
    using assms(2) by (intro load_loop_at parses_grant) (auto simp: list_all_iff)
  have 3: "labelled ''receipt count'' r_u64 (reader_at ((pre @ w_u64 ?n) @ ?body) (w_u64 rc @ rest)) =
      Inr (rc, reader_at (((pre @ w_u64 ?n) @ ?body) @ w_u64 rc) rest)"
    by (intro parses_at parses_intros)
  show ?thesis
    unfolding load_grants_def prod.case Let_def 1 sum.case n(1) 2 3
    using n(2) led by (simp add: record_event_def tick_def recount_def bump_def store_frames Let_def)
qed

text \<open>The image of a fabric, section by section.\<close>

definition grants_image :: "Fabric \<Rightarrow> bytes" where
  "grants_image f = w_u64 (of_nat (length (fb_grant_ledger f))) @
     concat (map (\<lambda>kv. persist_grant (snd kv)) (fb_grant_ledger f)) @ w_u64 (fb_receipt_count f)"

definition terminals_image :: "Fabric \<Rightarrow> bytes" where
  "terminals_image f = w_u64 (of_nat (length (fb_terminal_records f))) @
     concat (map persist_terminal (fb_terminal_records f)) @ grants_image f"

definition seqs_image :: "Fabric \<Rightarrow> bytes" where
  "seqs_image f = w_u64 (of_nat (length (fb_seqs f))) @ concat (map persist_seq (fb_seqs f)) @ terminals_image f"

definition restored_from :: "Fabric \<Rightarrow> Fabric \<Rightarrow> bool" where
  "restored_from f g \<longleftrightarrow> fb_grant_ledger g = map (\<lambda>(i, gr). (i, restored_grant gr)) (fb_grant_ledger f) \<and>
     fb_receipt_count g = fb_receipt_count f"

lemma load_terminals_image:
  assumes "persistable f" and "fb_terminal_records g = []"
  shows "\<exists>g'. load_terminals (reader_at pre (terminals_image f @ rest), g) = (Inr (), g') \<and> restored_from f g' \<and>
    fb_terminal_records g' = fb_terminal_records f \<and> fb_seqs g' = fb_seqs g \<and> fb_epoch g' = fb_epoch g \<and>
    fb_next_seq g' = fb_next_seq g \<and> fb_next_dispatch g' = fb_next_dispatch g \<and> fb_next_grant g' = fb_next_grant g"
proof -
  let ?ts = "fb_terminal_records f"
  let ?n = "of_nat (length ?ts) :: u64" and ?body = "concat (map persist_terminal ?ts)"
  have ok: "umap_ok ?ts" "list_all (\<lambda>(k, st). SequenceState_ok st) ?ts" and n: "unat ?n = length ?ts"
    using assms(1) by (simp_all add: persistable_def unat_of_nat)
  have 1: "labelled ''terminal count'' r_u64 (reader_at pre (w_u64 ?n @ ?body @ grants_image f @ rest)) =
      Inr (?n, reader_at (pre @ w_u64 ?n) (?body @ grants_image f @ rest))"
    by (intro parses_at parses_intros)
  have 2: "load_loop (length ?ts) load_terminal store_terminal (reader_at (pre @ w_u64 ?n) (?body @ grants_image f @ rest), g) =
      (Inr (reader_at ((pre @ w_u64 ?n) @ ?body) (grants_image f @ rest)), fold store_terminal (map (\<lambda>kv. kv) ?ts) g)"
    using ok(2) by (intro load_loop_at parses_terminal) (auto simp: list_all_iff)
  obtain g' where g': "load_grants (reader_at ((pre @ w_u64 ?n) @ ?body) (grants_image f @ rest), fold store_terminal ?ts g) = (Inr (), g')"
    "restored_from f g'" "fb_terminal_records g' = fb_terminal_records (fold store_terminal ?ts g)"
    "fb_seqs g' = fb_seqs g" "fb_epoch g' = fb_epoch g" "fb_next_seq g' = fb_next_seq g"
    "fb_next_dispatch g' = fb_next_dispatch g" "fb_next_grant g' = fb_next_grant g"
    using load_grants_image [of "fb_grant_ledger f" "(pre @ w_u64 ?n) @ ?body" "fb_receipt_count f" rest "fold store_terminal ?ts g"]
      assms(1) by (auto simp: persistable_def grants_image_def restored_from_def store_frames)
  have "load_terminals (reader_at pre (terminals_image f @ rest), g) = (Inr (), g')"
    unfolding load_terminals_def terminals_image_def append_assoc prod.case 1 sum.case n 2 using g'(1) by simp
  moreover have "fb_terminal_records g' = ?ts"
    using g'(3) fold_store_terminal [of g ?ts] assms(2) ok(1) by (simp add: umap_ok_def)
  ultimately show ?thesis using g' by blast
qed

lemma load_sequences_image:
  assumes "persistable f" and "fb_terminal_records g = []" and "fb_seqs g = []"
  shows "\<exists>g'. load_sequences (reader_at pre (seqs_image f @ rest), g) = (Inr (), g') \<and> restored_from f g' \<and>
    fb_terminal_records g' = fb_terminal_records f \<and> fb_seqs g' = map (\<lambda>(k, s). (k, restored_seq s)) (fb_seqs f) \<and>
    fb_epoch g' = fb_epoch g \<and> fb_next_seq g' = fb_next_seq g \<and> fb_next_dispatch g' = fb_next_dispatch g \<and>
    fb_next_grant g' = fb_next_grant g"
proof -
  let ?kvs = "fb_seqs f" and ?img = "\<lambda>(k, s). (k, restored_seq s)"
  let ?n = "of_nat (length ?kvs) :: u64" and ?body = "concat (map persist_seq ?kvs)"
  let ?g = "fold store_seq (map ?img ?kvs) g"
  have ok: "umap_ok ?kvs" "list_all (\<lambda>(k, s). seq_named s) ?kvs" and n: "unat ?n = length ?kvs"
    using assms(1) by (simp_all add: persistable_def unat_of_nat)
  have 1: "labelled ''seq count'' r_u64 (reader_at pre (w_u64 ?n @ ?body @ terminals_image f @ rest)) =
      Inr (?n, reader_at (pre @ w_u64 ?n) (?body @ terminals_image f @ rest))"
    by (intro parses_at parses_intros)
  have 2: "load_loop (length ?kvs) load_seq store_seq (reader_at (pre @ w_u64 ?n) (?body @ terminals_image f @ rest), g) =
      (Inr (reader_at ((pre @ w_u64 ?n) @ ?body) (terminals_image f @ rest)), ?g)"
    using ok(2) by (intro load_loop_at) (auto simp: list_all_iff intro: parses_seq)
  have "fb_terminal_records ?g = []" using assms(2) by (simp add: store_frames)
  from load_terminals_image [OF assms(1) this, of "(pre @ w_u64 ?n) @ ?body" rest]
  obtain g' where g': "load_terminals (reader_at ((pre @ w_u64 ?n) @ ?body) (terminals_image f @ rest), ?g) = (Inr (), g')"
    "restored_from f g'" "fb_terminal_records g' = fb_terminal_records f" "fb_seqs g' = fb_seqs ?g"
    "fb_epoch g' = fb_epoch g" "fb_next_seq g' = fb_next_seq g" "fb_next_dispatch g' = fb_next_dispatch g"
    "fb_next_grant g' = fb_next_grant g"
    by (auto simp: store_frames)
  have keys: "map fst (map ?img ?kvs) = map fst ?kvs" by auto
  have "distinct (map fst (fb_seqs g @ map ?img ?kvs))"
    unfolding assms(3) append_Nil keys using ok(1) unfolding umap_ok_def .
  from fold_store_seq [OF this] have "fb_seqs g' = map ?img ?kvs" using g'(4) assms(3) by simp
  moreover have "load_sequences (reader_at pre (seqs_image f @ rest), g) = (Inr (), g')"
    unfolding load_sequences_def seqs_image_def append_assoc prod.case 1 sum.case n 2 using g'(1) by simp
  ultimately show ?thesis using g' by blast
qed

lemma recover_image:
  assumes "persistable f" and "serialize_state f = Inr bs"
  shows "\<exists>g'. recover_state bs g = (Inr (), g') \<and> restored_from f g' \<and>
    fb_terminal_records g' = fb_terminal_records f \<and> fb_seqs g' = map (\<lambda>(k, s). (k, restored_seq s)) (fb_seqs f) \<and>
    fb_epoch g' = fb_epoch f \<and> fb_next_seq g' = fb_next_seq f \<and> fb_next_dispatch g' = fb_next_dispatch f \<and>
    fb_next_grant g' = fb_next_grant g"
proof -
  let ?h = "concat (map w_u8 state_magic) @ w_u32 kPersistenceVersion @ w_u64 (fb_epoch f) @ w_u64 (fb_next_seq f) @
    w_u64 (fb_next_dispatch f)"
  let ?crc = "w_u32 (body_crc (state_body f))"
  have body: "state_body f = ?h @ seqs_image f"
    by (simp add: state_body_def seqs_image_def terminals_image_def grants_image_def)
  have bs: "bs = state_body f @ ?crc" using assms(2) by (simp add: serialize_state_def Let_def)
  have r: "new_reader bs = reader_at [] (?h @ seqs_image f @ ?crc)"
    by (simp add: new_reader_def reader_at_def bs body)
  have h: "load_header (new_reader bs) = Inr ((fb_epoch f, fb_next_seq f, fb_next_dispatch f), reader_at ([] @ ?h) (seqs_image f @ ?crc))"
    unfolding r by (rule parses_at [OF parses_header])
  have "length bs \<ge> 5" "take (length bs - 4) bs = state_body f" "stored_crc bs = body_crc (state_body f)"
    using length_state_body [of f] by (simp_all add: bs) (simp add: w_u32_def)
  then have "recover_state bs g = load_sequences (reader_at ([] @ ?h) (seqs_image f @ ?crc),
      load_header_into (fb_epoch f, fb_next_seq f, fb_next_dispatch f) g)"
    unfolding recover_state_def h by simp
  then show ?thesis
    using load_sequences_image [OF assms(1), of "load_header_into (fb_epoch f, fb_next_seq f, fb_next_dispatch f) g" "[] @ ?h" ?crc]
    by (simp add: load_header_into_def)
qed

section \<open>No authority survives\<close>

text \<open>\<open>yields p P\<close>: whatever a successful read returns satisfies \<open>P\<close>.\<close>

definition yields :: "'a reader \<Rightarrow> ('a \<Rightarrow> bool) \<Rightarrow> bool" where
  "yields p P \<longleftrightarrow> (\<forall>r v r'. p r = Inr (v, r') \<longrightarrow> P v)"

lemma yields_bind: "(\<And>v. yields (f v) P) \<Longrightarrow> yields (rbind p f) P"
  by (auto simp: yields_def rbind_def split: sum.splits)

lemma yields_pure: "P v \<Longrightarrow> yields (rpure v) P"
  by (simp add: yields_def rpure_def)

lemma yields_if: "yields p P \<Longrightarrow> yields q P \<Longrightarrow> yields (if c then p else q) P"
  by simp

lemmas yields_intros = yields_bind yields_pure yields_if

definition idle_seq :: "Seq \<Rightarrow> bool" where
  "idle_seq s \<longleftrightarrow> \<not> s_has_inflight s \<and> s_in_flight_dispatch s = 0 \<and> \<not> s_has_inflight_grant s"

lemma load_seq_idle: "yields load_seq (\<lambda>(k, s). idle_seq s)"
  unfolding load_seq_def by (rule yields_intros)+ (simp add: idle_seq_def id_null_def)

lemma load_grant_settled: "yields load_grant (\<lambda>gr. gr_status gr \<noteq> 0)"
proof -
  have "(if w = (0 :: u32) then 2 else sint w) \<noteq> 0" for w by (simp add: signed_eq_0_iff)
  then show ?thesis unfolding load_grant_def Let_def by (intro yields_intros) simp_all
qed

lemma load_loop_keeps:
  assumes "load_loop n p store (r, f) = (res, g)" and "yields p P" and "Q f"
    and "\<And>v f. P v \<Longrightarrow> Q f \<Longrightarrow> Q (store v f)"
  shows "Q g"
  using assms(1,3)
proof (induction n arbitrary: r f)
  case (Suc n)
  show ?case
  proof (cases "p r")
    case (Inr x)
    obtain v r' where x: "x = (v, r')" by force
    have "P v" using assms(2) Inr x unfolding yields_def by blast
    then show ?thesis using Suc.IH [of r' "store v f"] Suc.prems Inr x assms(4) by simp
  qed (use Suc.prems in simp)
qed simp

definition quiesced :: "Fabric \<Rightarrow> bool" where
  "quiesced f \<longleftrightarrow> list_all (\<lambda>(k, s). idle_seq s) (fb_seqs f)"

definition settled :: "Fabric \<Rightarrow> bool" where
  "settled f \<longleftrightarrow> list_all (\<lambda>(i, gr). gr_status gr \<noteq> 0) (fb_grant_ledger f)"

lemma list_all_umap_set: "list_all (\<lambda>(k, v). P v) m \<Longrightarrow> P v \<Longrightarrow> list_all (\<lambda>(k, v). P v) (umap_set k v m)"
  unfolding umap_set_def by (induction m) auto

lemma load_grants_settled:
  assumes "load_grants (r, f) = (Inr (), g)"
  shows "settled g" and "fb_seqs g = fb_seqs f"
proof -
  let ?f = "f\<lparr>fb_grant_ledger := [], fb_receipt_count := 0\<rparr>"
  obtain n r1 r2 f1 rc where l: "load_loop n load_grant store_grant (r1, ?f) = (Inr r2, f1)"
    and g: "g = record_event EV_MemoryReconciled id_null id_null ''recovered'' (recount (f1\<lparr>fb_receipt_count := rc\<rparr>))"
    using assms by (auto simp: load_grants_def Let_def split: sum.splits if_splits prod.splits)
  have "settled f1"
    by (rule load_loop_keeps [OF l load_grant_settled]) (auto simp: settled_def store_grant_def intro: list_all_umap_set)
  moreover have "fb_seqs f1 = fb_seqs f"
    by (rule load_loop_keeps [OF l load_grant_settled]) (auto simp: store_grant_def)
  ultimately show "settled g" "fb_seqs g = fb_seqs f"
    by (simp_all add: g settled_def record_event_def tick_def recount_def bump_def Let_def)
qed

lemma recover_state_quiet:
  assumes "recover_state bs f = (Inr (), g)"
  shows "quiesced g" and "settled g"
proof -
  obtain h r where s: "load_sequences (r, load_header_into h f) = (Inr (), g)"
    using assms by (auto simp: recover_state_def split: if_splits sum.splits)
  obtain n r1 r2 f1 where l: "load_loop n load_seq store_seq (r1, load_header_into h f) = (Inr r2, f1)"
    and t: "load_terminals (r2, f1) = (Inr (), g)"
    using s by (auto simp: load_sequences_def split: sum.splits prod.splits)
  obtain m r3 r4 f2 where l2: "load_loop m load_terminal store_terminal (r3, f1) = (Inr r4, f2)"
    and gr: "load_grants (r4, f2) = (Inr (), g)"
    using t by (auto simp: load_terminals_def split: sum.splits prod.splits)
  have "quiesced f1"
    by (rule load_loop_keeps [OF l load_seq_idle])
      (auto simp: quiesced_def store_seq_def load_header_into_def intro: list_all_umap_set split: prod.splits)
  moreover have "fb_seqs f2 = fb_seqs f1"
    by (rule load_loop_keeps [OF l2, of "\<lambda>_. True"]) (auto simp: yields_def store_terminal_def)
  ultimately show "quiesced g" "settled g" using load_grants_settled [OF gr] by (simp_all add: quiesced_def)
qed

section \<open>Properties\<close>

text \<open>What a run does not provide by itself: the enumerators that clients and executors supply are named ones, as are
  the terminal records, and the counts fit their fields.\<close>

definition writable :: "Fabric \<Rightarrow> bool" where
  "writable f \<longleftrightarrow> list_all (\<lambda>(k, s). LatencyClass_ok (rq_latency_class (s_req s))) (fb_seqs f) \<and>
     list_all (\<lambda>(k, st). SequenceState_ok st) (fb_terminal_records f) \<and>
     list_all (\<lambda>(i, gr). MemberOutcomeKind_ok (cg_outcome_kind (gr_grant gr)) \<and>
       (gr_has_receipt gr \<longrightarrow> MemberOutcomeKind_ok (mr_outcome_kind (gr_receipt gr)))) (fb_grant_ledger f) \<and>
     length (fb_seqs f) < 2 ^ 64 \<and> length (fb_terminal_records f) < 2 ^ 64 \<and> length (fb_grant_ledger f) \<le> 2 ^ 22"

lemma run_persistable:
  assumes "fab_run cfg clock f" and "writable f"
  shows "persistable f"
proof -
  note T = lifecycle.run_invariant [OF assms(1)]
  have B: "books_ok f" using T by (simp add: typed_def)
  have "seq_named s" if "(k, s) \<in> set (fb_seqs f)" for k s
    using T assms(2) that umap_find_eq_Some [OF books_okD(1) [OF B]] reached_named
    by (auto simp: typed_def writable_def seq_named_def list_all_iff)
  moreover have "cg_grant_id (gr_grant gr) = i \<and> grant_named gr" if "(i, gr) \<in> set (fb_grant_ledger f)" for i gr
    using ledger_okD(1) [OF books_okD(4) [OF B]] assms(2) that umap_find_eq_Some [OF books_okD(2) [OF B]]
    by (auto simp: grants_wf_def writable_def grant_named_def list_all_iff)
  ultimately show ?thesis
    using assms(2) books_okD(1,2) [OF B] history.run_invariant [OF assms(1)]
    by (auto simp: persistable_def writable_def history_ok_def list_all_iff)
qed

lemma token_ok_budget:
  assumes "token_ok s"
  shows "budget_replay (unat (tb_generated (s_budget s))) (new_budget (rq_max_generation_length (s_req s))) = s_budget s"
proof -
  have "tb_generated (s_budget s) = s_committed s" using assms by (simp add: token_ok_def)
  then show ?thesis using arg_cong [OF rebase_ok(1) [OF assms], of s_budget] by (simp add: rebase_def)
qed

text \<open>C5: A restart loses no token. Whatever run a fabric has been through, its image is read back: into any
  fabric, recovery succeeds and restores the epoch, the id counters of sequences and dispatches, the
  terminal records, the receipt count, every sequence with its account (budget, tokens, generation, length),
  committed digest and accepted generation, and every grant with its receipt, the pending ones aborted.\<close>

theorem recovery_round_trip:
  assumes "fab_run cfg clock f" and "writable f"
  shows "\<exists>bs g'. serialize_state f = Inr bs \<and> recover_state bs g = (Inr (), g') \<and> fb_epoch g' = fb_epoch f \<and>
    fb_next_seq g' = fb_next_seq f \<and> fb_next_dispatch g' = fb_next_dispatch f \<and>
    fb_terminal_records g' = fb_terminal_records f \<and> fb_receipt_count g' = fb_receipt_count f \<and>
    map fst (fb_seqs g') = map fst (fb_seqs f) \<and>
    (\<forall>k s. umap_find (fb_seqs f) k = Some s \<longrightarrow> (\<exists>s'. umap_find (fb_seqs g') k = Some s' \<and>
      s_budget s' = s_budget s \<and> s_committed s' = s_committed s \<and> s_generated s' = s_generated s \<and>
      s_generation s' = s_generation s \<and> s_current_length s' = s_current_length s \<and>
      s_committed_state_digest s' = s_committed_state_digest s \<and> s_has_accepted s' = s_has_accepted s \<and>
      (s_has_accepted s \<longrightarrow> s_accepted s' = s_accepted s) \<and> s_machine s' = restore_machine (s_machine s))) \<and>
    (\<forall>i. umap_find (fb_grant_ledger g') i = map_option restored_grant (umap_find (fb_grant_ledger f) i))"
proof -
  obtain bs where bs: "serialize_state f = Inr bs" by (simp add: serialize_state_def Let_def)
  obtain g' where g': "recover_state bs g = (Inr (), g')" "restored_from f g'"
    "fb_terminal_records g' = fb_terminal_records f" "fb_seqs g' = map (\<lambda>(k, s). (k, restored_seq s)) (fb_seqs f)"
    "fb_epoch g' = fb_epoch f" "fb_next_seq g' = fb_next_seq f" "fb_next_dispatch g' = fb_next_dispatch f"
    using recover_image [OF run_persistable [OF assms] bs, of g] by blast
  have "map fst (fb_seqs g') = map fst (fb_seqs f)" unfolding g'(4) by auto
  moreover have find: "umap_find (map (\<lambda>(k, v). (k, h v)) m) k = map_option h (umap_find m k)" for h m k
    by (simp add: umap_find_def map_of_map)
  moreover have "s_budget (restored_seq s) = s_budget s" if "umap_find (fb_seqs f) k = Some s" for k s
    using token_ok_budget [OF books_okD(3) [OF books.run_invariant [OF assms(1)] that]] by (simp add: restored_seq_def)
  ultimately show ?thesis
    using bs g'(1,2,3,5,6,7) unfolding restored_from_def
    by (intro exI [of _ bs] exI [of _ g']) (simp add: g'(4) find restored_seq_def)
qed

lemma sc_granted_writable: "writable sc_granted"
  by (simp add: writable_def sc_granted_eq fresh_grant_def sc_grant_def member_grant_def sc_member_def sc_granted_seq_def
      sc_dispatched_simps sc_request_def default_DecodeRequest_def default_MemberOutcome_def)

lemma sc_granted_image:
  obtains bs g where "serialize_state sc_granted = Inr bs" "recover_state bs sc_start = (Inr (), g)"
    "fb_next_grant g = 1" "fb_grant_ledger g = [(1, restored_grant (fresh_grant sc_grant))]"
proof -
  obtain bs where bs: "serialize_state sc_granted = Inr bs" by (simp add: serialize_state_def Let_def)
  from recover_image [OF run_persistable [OF sc_reaches(3) sc_granted_writable] bs, of sc_start] bs that show ?thesis
    by (auto simp: restored_from_def sc_granted_eq sc_start_def new_Fabric_def)
qed

theorem recovery_round_trip_witness:
  "\<exists>bs g'. serialize_state sc_granted = Inr bs \<and> recover_state bs sc_start = (Inr (), g') \<and>
     (\<exists>s. umap_find (fb_seqs g') 21 = Some s \<and> s_committed s = 0 \<and> s_budget s = s_budget sc_granted_seq) \<and>
     map_option gr_status (umap_find (fb_grant_ledger g') 1) = Some 2"
proof -
  have "umap_find (fb_seqs sc_granted) 21 = Some sc_granted_seq" "umap_find (fb_grant_ledger sc_granted) 1 = Some (fresh_grant sc_grant)"
    "s_committed sc_granted_seq = 0"
    by (simp_all add: sc_granted_eq umap_find_def sc_granted_seq_def sc_dispatched_simps)
  then show ?thesis
    using recovery_round_trip [OF sc_reaches(3) sc_granted_writable, of sc_start]
    by (fastforce simp: restored_grant_def fresh_grant_def)
qed

text \<open>C32: A changed byte never goes unnoticed: an image in which any one byte differs, in the body or in the
  checksum, is refused with a checksum error and the recovering fabric is left as it was.\<close>

theorem changed_byte_refused:
  assumes "serialize_state f = Inr bs" and "i < length bs" and "b \<noteq> bs ! i"
  shows "recover_state (bs[i := b]) g = (failed EC_PersistenceChecksumMismatch ''state checksum mismatch'', g)"
proof -
  have bs: "bs = state_body f @ w_u32 (body_crc (state_body f))" using assms(1) by (simp add: serialize_state_def Let_def)
  have "length (bs[i := b]) \<ge> 5" using length_state_body [of f] by (simp add: bs)
  moreover have "body_crc (take (length (bs[i := b]) - 4) (bs[i := b])) \<noteq> stored_crc (bs[i := b])"
    using changed_byte_checksum [of i "state_body f" b] assms(2,3) unfolding bs Let_def by blast
  ultimately show ?thesis by (simp add: recover_state_def)
qed

theorem changed_byte_refused_witness:
  "\<exists>bs. serialize_state sc_start = Inr bs \<and>
     recover_state (bs[0 := 0]) sc_start = (failed EC_PersistenceChecksumMismatch ''state checksum mismatch'', sc_start)"
proof -
  obtain bs where bs: "serialize_state sc_start = Inr bs" by (simp add: serialize_state_def Let_def)
  then have "0 < length bs" "0 \<noteq> bs ! 0"
    by (auto simp: serialize_state_def Let_def state_body_def state_magic_def w_u8_def char_byte_def)
  from changed_byte_refused [OF bs this] bs show ?thesis by blast
qed

text \<open>C14: No authority survives a restart. After recovery from any image, no sequence has work or a grant in
  flight and no grant is pending: whatever receipt arrives moves no sequence and no grant, and no prepared
  member of an earlier dispatch is granted.\<close>

theorem recovery_revokes_authority:
  assumes "recover_state bs f = (Inr (), g)"
  shows "(\<forall>(k, s) \<in> set (fb_seqs g). \<not> s_has_inflight s \<and> \<not> s_has_inflight_grant s) \<and>
    (\<forall>(i, gr) \<in> set (fb_grant_ledger g). gr_status gr \<noteq> 0) \<and>
    (\<forall>rec. fb_seqs (apply_receipt rec g) = fb_seqs g \<and> fb_grant_ledger (apply_receipt rec g) = fb_grant_ledger g) \<and>
    (\<forall>pd pm. pm_dispatch pm \<noteq> 0 \<longrightarrow> \<not> ga_has_grant (fst (authorize_member pd pm g)))"
proof -
  have q: "idle_seq s" if "umap_find (fb_seqs g) k = Some s" for k s
    using recover_state_quiet(1) [OF assms] umap_find_Some_in [OF that] by (auto simp: quiesced_def list_all_iff)
  have p: "gr_status gr \<noteq> 0" if "umap_find (fb_grant_ledger g) i = Some gr" for i gr
    using recover_state_quiet(2) [OF assms] umap_find_Some_in [OF that] by (auto simp: settled_def list_all_iff)
  have "fb_seqs (apply_receipt rec g) = fb_seqs g \<and> fb_grant_ledger (apply_receipt rec g) = fb_grant_ledger g" for rec
    using q [unfolded idle_seq_def] p by (simp add: apply_receipt_def Let_def split: option.split)
  moreover have "\<not> ga_has_grant (fst (authorize_member pd pm g))" if "pm_dispatch pm \<noteq> 0" for pd pm
    using authorize_refused [of g pm pd] q that
    by (auto simp: granted_def authority_fault_None_iff idle_seq_def case_prod_beta)
  ultimately show ?thesis
    using recover_state_quiet [OF assms] by (auto simp: quiesced_def settled_def idle_seq_def list_all_iff)
qed

theorem recovery_revokes_authority_witness:
  "\<exists>bs g. serialize_state sc_granted = Inr bs \<and> recover_state bs sc_start = (Inr (), g) \<and>
     fb_seqs (apply_receipt sc_receipt g) = fb_seqs g \<and> \<not> ga_has_grant (fst (authorize_member sc_prepared sc_member g))"
proof -
  obtain bs g where g: "serialize_state sc_granted = Inr bs" "recover_state bs sc_start = (Inr (), g)"
    by (rule sc_granted_image)
  have "pm_dispatch sc_member \<noteq> 0" by (simp add: sc_member_def)
  with recovery_revokes_authority [OF g(2)] g show ?thesis by blast
qed

section \<open>Where recovery falls short\<close>

text \<open>A sequence that was dispatched when the coordinator stopped is meant to be queued again, but the
  lifecycle has no edge from there to waiting: it stays dispatched, holds no dispatch, and is no candidate
  for any later cycle.\<close>

theorem recovered_dispatch_is_stuck:
  "restore_machine ST_Dispatched = ST_Dispatched \<and> \<not> is_candidate_state (restore_machine ST_Dispatched)"
  by (simp add: restore_machine_def sm_go_eq can_transition_def is_candidate_state_def)

text \<open>The grant counter is not part of the image: a recovered fabric issues the ids of its own ledger again,
  and the next grant replaces the record of an earlier one.\<close>

theorem recovered_grant_id_reused:
  "\<exists>bs g. serialize_state sc_granted = Inr bs \<and> recover_state bs sc_start = (Inr (), g) \<and>
     umap_find (fb_grant_ledger g) (fb_next_grant g) \<noteq> None"
proof -
  obtain bs g where "serialize_state sc_granted = Inr bs" "recover_state bs sc_start = (Inr (), g)"
    "fb_next_grant g = 1" "fb_grant_ledger g = [(1, restored_grant (fresh_grant sc_grant))]"
    by (rule sc_granted_image)
  then show ?thesis by (intro exI [of _ bs] exI [of _ g]) (simp add: umap_find_def)
qed

end
