(* ===== verification/Persistence.thy ===== *)
theory Persistence
  imports Recovery
begin

text \<open>
  The file store of records (\<^verbatim>\<open>src/persistence.cpp\<close>). A file system is the map from the paths of regular files to their
  contents, in the order a directory lists them. What the operating system decides in a call is an argument:
  whether the temporary file opens, how many bytes of it reach the disk and whether the stream notices, and which of
  the rename and remove calls fail. A missing directory shows as an open that fails. A process that dies inside
  \<^verbatim>\<open>write\<close> leaves the state some of these faults leave: dying before the rename is a noticed write error, dying
  between the two renames is a second rename that fails.
\<close>

section \<open>The file system\<close>

type_synonym Files = "(string, bytes) umap"

record WriteFaults =
  wf_open :: bool
  wf_stored :: nat
  wf_noticed :: bool
  wf_rename :: bool
  wf_remove :: bool
  wf_rename_again :: bool

definition fs_rename :: "string \<Rightarrow> string \<Rightarrow> Files \<Rightarrow> Files" where
  "fs_rename a b fs = (case umap_find fs a of None \<Rightarrow> fs | Some c \<Rightarrow> umap_set b c (umap_erase a fs))"

section \<open>FilePersistence\<close>

definition sanitize_char :: "char \<Rightarrow> char" where
  "sanitize_char c =
    (let n = of_char c :: nat in
     if 97 \<le> n \<and> n \<le> 122 \<or> 65 \<le> n \<and> n \<le> 90 \<or> 48 \<le> n \<and> n \<le> 57 \<or>
        c = CHR ''_'' \<or> c = CHR ''-'' \<or> c = CHR ''.''
     then c else CHR ''_'')"

definition sanitize :: "string \<Rightarrow> string" where
  "sanitize s = map sanitize_char s"

definition path_prefix :: "string \<Rightarrow> string" where
  "path_prefix dir = (if dir = [] \<or> last dir = CHR ''/'' then dir else dir @ ''/'')"

definition record_path :: "string \<Rightarrow> string \<Rightarrow> string" where
  "record_path dir scope = path_prefix dir @ sanitize scope @ ''.rec''"

definition write_record :: "WriteFaults \<Rightarrow> string \<Rightarrow> string \<Rightarrow> bytes \<Rightarrow> Files \<Rightarrow> unit result \<times> Files" where
  "write_record os dir scope bs fs =
    (let path = record_path dir scope; tmp = path @ ''.tmp'' in
     if wf_open os then (failed EC_PersistenceIoError ''cannot open write temp'', fs)
     else
       let fs1 = umap_set tmp (take (wf_stored os) bs) fs in
       if bs \<noteq> [] \<and> wf_noticed os then (failed EC_PersistenceIoError ''cannot write record'', fs1)
       else if \<not> wf_rename os then (Inr (), fs_rename tmp path fs1)
       else
         let fs2 = (if wf_remove os then fs1 else umap_erase path fs1) in
         if wf_rename_again os then (failed EC_PersistenceIoError ''cannot commit record'', fs2)
         else (Inr (), fs_rename tmp path fs2))"

text \<open>\<open>lost\<close> is how many bytes the stream fails to deliver; a short read is not noticed and leaves zeros.\<close>

definition read_record :: "bool \<Rightarrow> nat \<Rightarrow> string \<Rightarrow> string \<Rightarrow> Files \<Rightarrow> bytes result" where
  "read_record unreadable lost dir scope fs =
    (case umap_find fs (record_path dir scope) of
       None \<Rightarrow> failed EC_PersistenceIoError ''record not found''
     | Some c \<Rightarrow> if unreadable then failed EC_PersistenceIoError ''record not found''
                 else Inr (take (length c - lost) c @ replicate (min lost (length c)) 0))"

definition exists_record :: "string \<Rightarrow> string \<Rightarrow> Files \<Rightarrow> bool result" where
  "exists_record dir scope fs = Inr (umap_find fs (record_path dir scope) \<noteq> None)"

definition remove_record :: "bool \<Rightarrow> string \<Rightarrow> string \<Rightarrow> Files \<Rightarrow> unit result \<times> Files" where
  "remove_record fails dir scope fs =
     (Inr (), if fails then fs else umap_erase (record_path dir scope) fs)"

text \<open>\<^verbatim>\<open>path::extension\<close> and \<^verbatim>\<open>path::stem\<close>: the last dot splits the name, unless it is the first character.\<close>

definition after_dot :: "string \<Rightarrow> string" where
  "after_dot name = rev (takeWhile (\<lambda>c. c \<noteq> CHR ''.'') (rev name))"

definition extension :: "string \<Rightarrow> string" where
  "extension name =
    (if CHR ''.'' \<in> set name \<and> length (after_dot name) + 1 < length name \<and> name \<noteq> ''..''
     then CHR ''.'' # after_dot name else [])"

definition stem :: "string \<Rightarrow> string" where
  "stem name = take (length name - length (extension name)) name"

definition directory_iterator :: "string \<Rightarrow> Files \<Rightarrow> string list" where
  "directory_iterator dir fs =
    (if dir = [] then []
     else let p = path_prefix dir in
       filter (\<lambda>n. CHR ''/'' \<notin> set n)
         (map (drop (length p)) (filter (\<lambda>q. take (length p) q = p) (map fst fs))))"

definition list_records :: "string \<Rightarrow> Files \<Rightarrow> string list result" where
  "list_records dir fs = Inr (map stem (filter (\<lambda>n. extension n = ''.rec'') (directory_iterator dir fs)))"

section \<open>Names and paths\<close>

lemma sanitize_char_idem [simp]: "sanitize_char (sanitize_char c) = sanitize_char c"
  by (simp add: sanitize_char_def Let_def)

lemma sanitize_idem [simp]: "sanitize (sanitize s) = sanitize s"
  by (simp add: sanitize_def)

lemma sanitize_no_slash: "CHR ''/'' \<notin> set (sanitize s)"
  by (auto simp: sanitize_def sanitize_char_def Let_def split: if_splits)

lemma record_path_eq [simp]: "record_path dir a = record_path dir b \<longleftrightarrow> sanitize a = sanitize b"
  by (simp add: record_path_def)

lemma temp_is_no_record [simp]: "record_path dir a @ ''.tmp'' \<noteq> record_path dir b" "record_path dir b \<noteq> record_path dir a @ ''.tmp''"
proof -
  have "last (record_path dir a @ ''.tmp'') \<noteq> last (record_path dir b)" by (simp add: record_path_def)
  then show "record_path dir a @ ''.tmp'' \<noteq> record_path dir b" "record_path dir b \<noteq> record_path dir a @ ''.tmp''" by metis+
qed

lemma find_rename [simp]:
  "umap_find (fs_rename a b fs) p =
    (case umap_find fs a of None \<Rightarrow> umap_find fs p | Some c \<Rightarrow> if p = b then Some c else if p = a then None else umap_find fs p)"
  by (simp add: fs_rename_def split: option.split)

section \<open>The store as a map of names\<close>

text \<open>What a record store promises: a map from names to contents, where the scopes of one name share a record.\<close>

locale record_store =
  fixes name :: "'k \<Rightarrow> 'n"
    and records :: "'s \<Rightarrow> 'n \<Rightarrow> 'b option"
    and put :: "'k \<Rightarrow> 'b \<Rightarrow> 's \<Rightarrow> 's"
    and del :: "'k \<Rightarrow> 's \<Rightarrow> 's"
  assumes records_put: "records (put k b s) = (records s)(name k \<mapsto> b)"
    and records_del: "records (del k s) = (records s)(name k := None)"
begin

lemma puts_map:
  "records (fold (\<lambda>(k, b). put k b) kbs s) = records s ++ map_of (rev (map (\<lambda>(k, b). (name k, b)) kbs))"
  by (induction kbs arbitrary: s) (auto simp: records_put map_add_def fun_eq_iff split: option.split)

lemma put_del_other: "name k \<noteq> name j \<Longrightarrow> records (del j (put k b s)) (name k) = Some b"
  by (simp add: records_put records_del)

end

definition no_faults :: "bytes \<Rightarrow> WriteFaults" where
  "no_faults bs = \<lparr>wf_open = False, wf_stored = length bs, wf_noticed = False, wf_rename = False, wf_remove = False,
     wf_rename_again = False\<rparr>"

definition records_in :: "string \<Rightarrow> Files \<Rightarrow> string \<Rightarrow> bytes option" where
  "records_in dir fs n = umap_find fs (path_prefix dir @ n @ ''.rec'')"

definition put_record :: "string \<Rightarrow> string \<Rightarrow> bytes \<Rightarrow> Files \<Rightarrow> Files" where
  "put_record dir scope bs fs = snd (write_record (no_faults bs) dir scope bs fs)"

definition del_record :: "string \<Rightarrow> string \<Rightarrow> Files \<Rightarrow> Files" where
  "del_record dir scope fs = snd (remove_record False dir scope fs)"

lemma record_path_name: "path_prefix dir @ n @ ''.rec'' = record_path dir scope \<longleftrightarrow> n = sanitize scope"
  by (simp add: record_path_def)

lemma temp_is_no_name: "path_prefix dir @ n @ ''.rec'' \<noteq> record_path dir scope @ ''.tmp''"
proof -
  have "last (path_prefix dir @ n @ ''.rec'') \<noteq> last (record_path dir scope @ ''.tmp'')" by simp
  then show ?thesis by metis
qed

lemma records_of_scope: "umap_find fs (record_path dir scope) = records_in dir fs (sanitize scope)"
  by (simp add: records_in_def record_path_def)

lemma write_records:
  "records_in dir (snd (write_record os dir scope bs fs)) =
    (case fst (write_record os dir scope bs fs) of
       Inr _ \<Rightarrow> (records_in dir fs)(sanitize scope \<mapsto> take (wf_stored os) bs)
     | Inl _ \<Rightarrow> if \<not> wf_open os \<and> \<not> (bs \<noteq> [] \<and> wf_noticed os) \<and> \<not> wf_remove os
               then (records_in dir fs)(sanitize scope := None) else records_in dir fs)"
  by (simp add: fun_eq_iff records_in_def write_record_def Let_def failed_def record_path_name temp_is_no_name)

interpretation file_store: record_store sanitize "records_in dir" "put_record dir" "del_record dir" for dir
proof
  show "records_in dir (put_record dir k b s) = (records_in dir s)(sanitize k \<mapsto> b)" for k b s
    unfolding put_record_def write_records by (simp add: no_faults_def write_record_def Let_def)
  show "records_in dir (del_record dir k s) = (records_in dir s)(sanitize k := None)" for k s
    by (simp add: del_record_def remove_record_def records_in_def fun_eq_iff record_path_name)
qed

section \<open>Properties\<close>

text \<open>C31: The file store refines a map from names to records. After any sequence of writes, each scope reads as the
  bytes last written under its name, or as what was there before; a removed one reads as missing; and
  \<^verbatim>\<open>exists\<close> agrees with \<^verbatim>\<open>read\<close>.\<close>

theorem store_refines_map:
  "(let fs' = fold (\<lambda>(k, b). put_record dir k b) kbs fs in
    read_record False 0 dir scope fs' =
       (case (records_in dir fs ++ map_of (rev (map (\<lambda>(k, b). (sanitize k, b)) kbs))) (sanitize scope) of
          None \<Rightarrow> failed EC_PersistenceIoError ''record not found''
        | Some c \<Rightarrow> Inr c) \<and>
    exists_record dir scope fs' = Inr (\<not> isl (read_record False 0 dir scope fs')) \<and>
    read_record False 0 dir scope (del_record dir scope fs') = failed EC_PersistenceIoError ''record not found'')"
proof -
  have r: "read_record False 0 dir scope fs' = (case records_in dir fs' (sanitize scope) of
      None \<Rightarrow> failed EC_PersistenceIoError ''record not found'' | Some c \<Rightarrow> Inr c)" for fs'
    by (simp add: read_record_def records_of_scope split: option.split)
  show ?thesis
    unfolding r exists_record_def records_of_scope Let_def file_store.puts_map file_store.records_del
    by (auto simp: failed_def map_add_Some_iff split: option.split)
qed

text \<open>C30: A record is replaced as a whole. Unless bytes are lost unnoticed or the file system refuses to rename over
  a record, a write under any fault leaves either the old record and an error, or all the new bytes and
  success; the records of other names are what they were.\<close>

theorem write_is_atomic:
  assumes "\<not> wf_rename os" and "wf_noticed os \<or> length bs \<le> wf_stored os"
  shows "records_in dir (snd (write_record os dir scope bs fs)) =
    (if isl (fst (write_record os dir scope bs fs)) then records_in dir fs else (records_in dir fs)(sanitize scope \<mapsto> bs))"
  unfolding write_records using assms by (auto simp: write_record_def Let_def failed_def)

theorem write_is_atomic_witness:
  "records_in ''d'' (snd (write_record \<lparr>wf_open = False, wf_stored = 1, wf_noticed = True, wf_rename = False,
      wf_remove = False, wf_rename_again = False\<rparr> ''d'' ''a/b'' [1, 2] [(''d/a_b.rec'', [9])])) ''a_b'' = Some [9]"
proof -
  let ?os = "\<lparr>wf_open = False, wf_stored = 1, wf_noticed = True, wf_rename = False, wf_remove = False, wf_rename_again = False\<rparr>"
  have "\<not> wf_rename ?os" "wf_noticed ?os \<or> length [1, 2 :: u8] \<le> wf_stored ?os" by simp_all
  from write_is_atomic [OF this, of "''d''" "''a/b''" "[(''d/a_b.rec'', [9])]"] show ?thesis
    by (simp add: write_record_def failed_def records_in_def path_prefix_def umap_find_def)
qed

text \<open>The image of \<open>f\<close> restores its sequences, records and grants into \<open>g\<close>.\<close>

definition restores :: "Fabric \<Rightarrow> Fabric \<Rightarrow> bool" where
  "restores f g \<longleftrightarrow> fb_seqs g = map (\<lambda>(k, s). (k, restored_seq s)) (fb_seqs f) \<and> fb_terminal_records g = fb_terminal_records f \<and>
     restored_from f g \<and> fb_epoch g = fb_epoch f"

lemma recover_restores:
  assumes "fab_run cfg clock f" and "writable f" and "serialize_state f = Inr bs"
  shows "\<exists>g'. recover_state bs g = (Inr (), g') \<and> restores f g'"
  using recover_image [OF run_persistable [OF assms(1,2)] assms(3), of g] by (auto simp: restores_def)



lemma after_dot_split:
  assumes "CHR ''.'' \<in> set n"
  shows "\<exists>m. n = m @ CHR ''.'' # after_dot n"
proof -
  obtain ys zs where n: "rev n = ys @ CHR ''.'' # zs" "CHR ''.'' \<notin> set ys"
    using assms split_list_first [of "CHR ''.''" "rev n"] by auto
  have "takeWhile (\<lambda>c. c \<noteq> CHR ''.'') ys = ys" using n(2) by (auto simp: takeWhile_eq_all_conv)
  then have "after_dot n = rev ys" using n by (auto simp: after_dot_def takeWhile_append)
  moreover have "n = rev zs @ CHR ''.'' # rev ys" using arg_cong [OF n(1), of rev] by simp
  ultimately show ?thesis by auto
qed

lemma stem_extension: "stem n @ extension n = n"
proof (cases "extension n = []")
  case False
  then have "CHR ''.'' \<in> set n" and e: "extension n = CHR ''.'' # after_dot n"
    by (auto simp: extension_def split: if_splits)
  with after_dot_split [of n] obtain m where m: "n = m @ extension n" unfolding e by blast
  have "length n = length m + length (extension n)" using arg_cong [OF m, of length] by (simp only: length_append)
  then have "stem n = take (length m) n" by (simp add: stem_def)
  also have "\<dots> = m" using arg_cong [OF m, of "take (length m)"] by (simp only: append_eq_conv_conj [symmetric] take_append) simp
  finally show ?thesis using m by (simp only:)
qed (simp add: stem_def)

lemma after_dot_rec [simp]: "after_dot (n @ ''.rec'') = ''rec''"
  by (simp add: after_dot_def)

lemma extension_rec: "n \<noteq> [] \<Longrightarrow> extension (n @ ''.rec'') = ''.rec''"
  by (auto simp: extension_def dest: arg_cong [where f = length])

lemma listed_iff:
  assumes "n \<noteq> []"
  shows "n \<in> stem ` {m \<in> M. extension m = ''.rec''} \<longleftrightarrow> n @ ''.rec'' \<in> M"
proof
  assume "n \<in> stem ` {m \<in> M. extension m = ''.rec''}"
  then obtain m where "m \<in> M" "extension m = ''.rec''" "n = stem m" by blast
  then show "n @ ''.rec'' \<in> M" using stem_extension [of m] by simp
next
  assume "n @ ''.rec'' \<in> M"
  moreover have "stem (n @ ''.rec'') = n" using extension_rec [OF assms] by (simp add: stem_def)
  ultimately show "n \<in> stem ` {m \<in> M. extension m = ''.rec''}" using extension_rec [OF assms] by force
qed

lemma in_directory:
  assumes "dir \<noteq> []"
  shows "n \<in> set (directory_iterator dir fs) \<longleftrightarrow> CHR ''/'' \<notin> set n \<and> path_prefix dir @ n \<in> set (map fst fs)"
proof -
  let ?p = "path_prefix dir"
  have eq: "take (length ?p) q = ?p \<and> n = drop (length ?p) q \<longleftrightarrow> q = ?p @ n" for q
    by (metis append_eq_conv_conj)
  have "n \<in> drop (length ?p) ` {q \<in> Q. take (length ?p) q = ?p} \<longleftrightarrow>
      (\<exists>q \<in> Q. take (length ?p) q = ?p \<and> n = drop (length ?p) q)" for Q
    by auto
  then have "n \<in> drop (length ?p) ` {q \<in> Q. take (length ?p) q = ?p} \<longleftrightarrow> ?p @ n \<in> Q" for Q
    unfolding eq by simp
  then show ?thesis using assms by (simp add: directory_iterator_def Let_def conj_commute)
qed

text \<open>C40: Listing finds what was stored: a scope with a non-empty name is listed, under its sanitised name, exactly when
  its record exists.\<close>

theorem listed_iff_exists:
  assumes "dir \<noteq> []" and "scope \<noteq> []"
  shows "\<exists>ns. list_records dir fs = Inr ns \<and> exists_record dir scope fs = Inr (sanitize scope \<in> set ns)"
proof -
  have n: "sanitize scope \<noteq> []" using assms(2) by (simp add: sanitize_def)
  have "CHR ''/'' \<notin> set (sanitize scope @ ''.rec'')" using sanitize_no_slash by simp
  then have "sanitize scope @ ''.rec'' \<in> set (directory_iterator dir fs) \<longleftrightarrow> umap_find fs (record_path dir scope) \<noteq> None"
    unfolding in_directory [OF assms(1)] umap_find_None_iff record_path_def by simp
  then show ?thesis
    using listed_iff [OF n, of "set (directory_iterator dir fs)"] by (auto simp: list_records_def exists_record_def)
qed

theorem listed_iff_exists_witness:
  "\<exists>ns. list_records ''d'' [(''d/a_b.rec'', [1])] = Inr ns \<and> exists_record ''d'' ''a/b'' [(''d/a_b.rec'', [1])] = Inr (''a_b'' \<in> set ns)"
proof -
  have "''d'' \<noteq> []" "''a/b'' \<noteq> []" by simp_all
  from listed_iff_exists [OF this, of "[(''d/a_b.rec'', [1])]"] show ?thesis by (simp add: sanitize_def sanitize_char_def)
qed

section \<open>Divergences\<close>

text \<open>Two scopes can share a record, a record of the empty scope is not listed, and a write whose two renames fail
  removes the old record.\<close>

lemma scopes_collide: "sanitize ''a/b'' = sanitize ''a_b''"
  by (simp add: sanitize_def sanitize_char_def)

lemma empty_scope_unlisted: "exists_record ''d'' [] [(''d/.rec'', c)] = Inr True \<and> list_records ''d'' [(''d/.rec'', c)] = Inr []"
  by (simp add: exists_record_def list_records_def directory_iterator_def extension_def after_dot_def record_path_def path_prefix_def
      sanitize_def umap_find_def)

lemma failed_commit_loses_record:
  assumes "\<not> wf_open os" "\<not> wf_noticed os" "wf_rename os" "\<not> wf_remove os" "wf_rename_again os"
  shows "records_in dir (snd (write_record os dir scope bs fs)) (sanitize scope) = None"
  unfolding write_records using assms by (simp add: write_record_def Let_def failed_def)

end
