(* ===== verification/Observability.thy ===== *)
theory Observability
  imports FabricProperties
begin

text \<open>
  The read-only side of the fabric (\<^verbatim>\<open>src/fabric.cpp\<close>: \<^verbatim>\<open>snapshot\<close>, \<^verbatim>\<open>stats\<close>, \<^verbatim>\<open>events\<close>, \<^verbatim>\<open>explain\<close> and the counters) and
  the text and JSON forms of \<^verbatim>\<open>src/core.cpp\<close>. Each query runs under the shared lock and returns a copy.
\<close>

section \<open>Queries\<close>

record Snapshot =
  sn_epoch :: CoordinatorEpoch
  sn_sequence_states :: "SequenceState list"
  sn_admitted :: u64
  sn_active :: u64
  sn_ready :: u64
  sn_grouped :: u64
  sn_running :: u64
  sn_completed :: u64
  sn_cancelled :: u64
  sn_expired :: u64
  sn_groups :: "DecodeGroup list"
  sn_reservations :: "Reservation list"
  sn_workers :: "WorkerDescriptor list"
  sn_per_tenant_tokens :: "string list"
  sn_stats :: Stats

definition default_Snapshot :: Snapshot where
  "default_Snapshot = \<lparr>sn_epoch = 0, sn_sequence_states = [], sn_admitted = 0, sn_active = 0, sn_ready = 0,
     sn_grouped = 0, sn_running = 0, sn_completed = 0, sn_cancelled = 0, sn_expired = 0, sn_groups = [],
     sn_reservations = [], sn_workers = [], sn_per_tenant_tokens = [], sn_stats = default_Stats\<rparr>"

definition snapshot_count :: "SequenceState \<Rightarrow> Snapshot \<Rightarrow> Snapshot" where
  "snapshot_count st sn =
    (if st = ST_Admitted then sn\<lparr>sn_admitted := sn_admitted sn + 1\<rparr>
     else if st = ST_Waiting then sn\<lparr>sn_admitted := sn_admitted sn + 1\<rparr>
     else if is_candidate_state st then sn\<lparr>sn_ready := sn_ready sn + 1\<rparr>
     else if st = ST_Grouped \<or> st = ST_Reserved then sn\<lparr>sn_grouped := sn_grouped sn + 1\<rparr>
     else if st = ST_Dispatched \<or> st = ST_Running then sn\<lparr>sn_running := sn_running sn + 1\<rparr>
     else if st = ST_Completed then sn\<lparr>sn_completed := sn_completed sn + 1\<rparr>
     else if st = ST_Cancelled then sn\<lparr>sn_cancelled := sn_cancelled sn + 1\<rparr>
     else if st = ST_DeadlineExpired then sn\<lparr>sn_expired := sn_expired sn + 1\<rparr>
     else if \<not> is_terminal st then sn\<lparr>sn_active := sn_active sn + 1\<rparr>
     else sn)"

definition tenant_line :: "TenantId \<times> u64 \<Rightarrow> string" where
  "tenant_line kv = ''tenant='' @ dec_u64 (fst kv) @ '' tokens='' @ dec_u64 (snd kv)"

definition snapshot :: "Fabric \<Rightarrow> Snapshot" where
  "snapshot f =
    (let sn = fold (\<lambda>kv. snapshot_count (s_machine (snd kv))) (fb_seqs f)
                (default_Snapshot\<lparr>sn_epoch := fb_epoch f, sn_stats := fb_stats f\<rparr>)
     in sn\<lparr>sn_active := fold (\<lambda>kv n. if \<not> is_terminal (s_machine (snd kv)) then n + 1 else n) (fb_seqs f) 0,
           sn_reservations := map snd (fb_reservations f), sn_workers := map snd (fb_workers f),
           sn_per_tenant_tokens := map tenant_line (fb_tenant_tokens f)\<rparr>)"

definition stats :: "Fabric \<Rightarrow> Stats" where
  "stats f = fb_stats f"

definition events :: "Fabric \<Rightarrow> Event list" where
  "events f = fb_events f"

record Explain =
  xp_sequence :: SequenceId
  xp_request :: RequestId
  xp_question :: string
  xp_answer :: string
  xp_facts :: "string list"
  xp_factors :: "string list"

definition explain :: "SequenceId \<Rightarrow> string \<Rightarrow> Fabric \<Rightarrow> Explain" where
  "explain seq q f =
    (case umap_find (fb_seqs f) seq of
       None \<Rightarrow> \<lparr>xp_sequence = seq, xp_request = id_null, xp_question = q, xp_answer = ''unknown sequence'',
                 xp_facts = [''unknown_sequence''], xp_factors = []\<rparr>
     | Some s \<Rightarrow>
        let st = state_to_string (s_machine s);
            facts = [''state='' @ st, ''generated='' @ dec_u64 (s_generated s),
                     ''budget='' @ dec_u64 (budget_remaining (s_budget s))];
            (answer, factors) =
              (if q = ''why_waiting''
                 then (''sequence has '' @ st @ ''; lacking a compatible worker/group or memory headroom'',
                       [''no_compatible_worker'', ''no_memory_headroom''])
               else if q = ''why_ready'' then (''sequence is eligible for the next decode iteration'', [''ready''])
               else if q = ''why_grouped''
                 then (''sequence shares a compatibility key with its group'', [''compatible_key''])
               else (''sequence in state '' @ st, []))
        in \<lparr>xp_sequence = seq, xp_request = rq_id (s_req s), xp_question = q, xp_answer = answer,
            xp_facts = facts @ [''key='' @ key_to_string (key_for_model f (s_req s))], xp_factors = factors\<rparr>)"

definition active_sequences :: "Fabric \<Rightarrow> u32" where
  "active_sequences f = fold (\<lambda>kv n. if \<not> is_terminal (s_machine (snd kv)) then n + 1 else n) (fb_seqs f) 0"

definition ready_sequences :: "Fabric \<Rightarrow> u32" where
  "ready_sequences f = fold (\<lambda>kv n. if is_candidate_state (s_machine (snd kv)) then n + 1 else n) (fb_seqs f) 0"

record DispatchAuthority =
  da_exists :: bool
  da_dispatch :: DispatchId
  da_epoch :: CoordinatorEpoch
  da_worker :: WorkerId
  da_worker_boot :: WorkerBootId
  da_attempt :: AttemptId
  da_generation :: DecodeGeneration
  da_generated :: u64

definition default_DispatchAuthority :: DispatchAuthority where
  "default_DispatchAuthority = \<lparr>da_exists = False, da_dispatch = 0, da_epoch = 0, da_worker = 0,
     da_worker_boot = 0, da_attempt = 0, da_generation = 0, da_generated = 0\<rparr>"

definition in_flight_authority :: "SequenceId \<Rightarrow> Fabric \<Rightarrow> DispatchAuthority" where
  "in_flight_authority seq f =
    (case umap_find (fb_seqs f) seq of
       None \<Rightarrow> default_DispatchAuthority
     | Some s \<Rightarrow>
        if s_has_inflight s \<and> id_is_valid (s_in_flight_dispatch s)
        then \<lparr>da_exists = True, da_dispatch = s_in_flight_dispatch s, da_epoch = s_in_flight_epoch s,
              da_worker = s_in_flight_worker s, da_worker_boot = s_in_flight_worker_boot s,
              da_attempt = s_current_attempt s, da_generation = s_in_flight_generation s,
              da_generated = s_generated s\<rparr>
        else default_DispatchAuthority)"

definition stale_rejections :: "Fabric \<Rightarrow> u64" where
  "stale_rejections f = st_stale_rejections (fb_stats f)"

definition sequence_generated :: "SequenceId \<Rightarrow> Fabric \<Rightarrow> u64" where
  "sequence_generated seq f = (case umap_find (fb_seqs f) seq of None \<Rightarrow> 0 | Some s \<Rightarrow> s_generated s)"

definition sequence_state :: "SequenceId \<Rightarrow> Fabric \<Rightarrow> SequenceState" where
  "sequence_state seq f = (case umap_find (fb_seqs f) seq of None \<Rightarrow> ST_Admitted | Some s \<Rightarrow> s_machine s)"

definition current_epoch :: "Fabric \<Rightarrow> CoordinatorEpoch" where
  "current_epoch f = fb_epoch f"

section \<open>Printing doubles\<close>

text \<open>\<^verbatim>\<open>ostream << double\<close> in its default format: six significant digits, rounded to nearest from the exact
  value, fixed notation for decimal exponents from \<open>-4\<close> to \<open>5\<close>, trailing zeros dropped. The decimal
  exponent of a finite double is between \<open>-324\<close> and \<open>308\<close>, so 400 steps find it.\<close>

primrec dec_exponent :: "nat \<Rightarrow> int \<Rightarrow> int \<Rightarrow> int" where
  "dec_exponent 0 num den = 0"
| "dec_exponent (Suc n) num den =
    (if num \<ge> 10 * den then 1 + dec_exponent n num (10 * den)
     else if num < den then dec_exponent n (10 * num) den - 1
     else 0)"

definition round_half_even :: "int \<Rightarrow> int \<Rightarrow> int" where
  "round_half_even num den =
    (let q = num div den; r = num mod den in if 2 * r > den \<or> (2 * r = den \<and> odd q) then q + 1 else q)"

definition six_digits :: "int \<Rightarrow> int \<Rightarrow> int \<times> int" where
  "six_digits num den =
    (let x = dec_exponent 400 num den;
         n = (if x \<le> 5 then round_half_even (num * 10 ^ nat (5 - x)) den
              else round_half_even num (den * 10 ^ nat (x - 5)))
     in if n = 1000000 then (100000, x + 1) else (n, x))"

definition strip_zeros :: "string \<Rightarrow> string" where
  "strip_zeros s = rev (dropWhile (\<lambda>c. c = CHR ''0'') (rev s))"

definition fraction_part :: "string \<Rightarrow> string" where
  "fraction_part s = (if strip_zeros s = [] then [] else ''.'' @ strip_zeros s)"

definition dec_exp_text :: "int \<Rightarrow> string" where
  "dec_exp_text x = (if x < 0 then ''-'' else ''+'') @
     (if \<bar>x\<bar> < 10 then ''0'' else []) @ dec_u64 (of_int \<bar>x\<bar>)"

definition print_double :: "double \<Rightarrow> string" where
  "print_double b =
    (let sign = (if f64_sign b then ''-'' else []) in
     if f64_is_nan b then sign @ ''nan''
     else if f64_is_inf b then sign @ ''inf''
     else if f64_int b = 0 then sign @ ''0''
     else (case six_digits (shl \<bar>f64_int b\<bar> (f64_scale b)) (shl 1 (- f64_scale b)) of (n, x) \<Rightarrow>
       let ds = dec_u64 (of_int n) in
       sign @
       (if - 4 \<le> x \<and> x < 0 then ''0.'' @ replicate (nat (- x - 1)) (CHR ''0'') @ strip_zeros ds
        else if 0 \<le> x \<and> x < 6 then take (nat x + 1) ds @ fraction_part (drop (nat x + 1) ds)
        else take 1 ds @ fraction_part (drop 1 ds) @ ''e'' @ dec_exp_text x)))"

section \<open>Text and JSON\<close>

definition quoted :: "string \<Rightarrow> string" where
  "quoted s = [CHR 0x22] @ s @ [CHR 0x22]"

fun commas :: "string list \<Rightarrow> string" where
  "commas [] = []"
| "commas [x] = x"
| "commas (x # xs) = x @ '','' @ commas xs"

definition json_member :: "string \<Rightarrow> string \<Rightarrow> string" where
  "json_member name v = quoted name @ '':'' @ v"

definition json_id :: "u64 \<Rightarrow> string" where
  "json_id v = dec_u64 v"

definition decision_to_json :: "CompatibilityDecision \<Rightarrow> string" where
  "decision_to_json d = ''{'' @
     commas [json_member ''compatible'' (if cd_compatible d then ''true'' else ''false''),
             json_member ''key'' (quoted (key_to_string (cd_key d))), json_member ''reason'' (quoted (cd_reason d)),
             json_member ''matched'' (''['' @ commas (map quoted (cd_matched d)) @ '']''),
             json_member ''mismatched'' (''['' @ commas (map quoted (cd_mismatched d)) @ '']'')] @ ''}''"

record DecodePlan =
  dp_sequence :: SequenceId
  dp_scheduled :: bool
  dp_primary_reason :: string
  dp_factors :: "string list"
  dp_components :: SchedulingComponents

definition plan_to_string :: "DecodePlan \<Rightarrow> string" where
  "plan_to_string p = ''plan[seq='' @ dec_u64 (dp_sequence p) @ '',scheduled='' @
     (if dp_scheduled p then ''true'' else ''false'') @ '',reason='' @ dp_primary_reason p @ '']''"

definition event_text :: "Event \<Rightarrow> string" where
  "event_text e = ''event[time='' @ dec_s64 (ev_time e) @ '',kind='' @ event_to_string (ev_kind e) @
     '',request='' @ dec_u64 (ev_request e) @ '',sequence='' @ dec_u64 (ev_sequence e) @ '',detail='' @ ev_detail e @ '']''"

definition group_to_json :: "DecodeGroup \<Rightarrow> string" where
  "group_to_json g = ''{'' @ commas [json_member ''id'' (json_id (dg_id g)),
     json_member ''members'' (dec_u64 (of_nat (length (dg_members g)))),
     json_member ''key'' (quoted (key_to_string (dg_key g)))] @ ''}''"

definition snapshot_to_json :: "Snapshot \<Rightarrow> string" where
  "snapshot_to_json sn = ''{'' @ commas
     [json_member ''epoch'' (json_id (sn_epoch sn)), json_member ''admitted'' (dec_u64 (sn_admitted sn)),
      json_member ''active'' (dec_u64 (sn_active sn)), json_member ''ready'' (dec_u64 (sn_ready sn)),
      json_member ''grouped'' (dec_u64 (sn_grouped sn)), json_member ''running'' (dec_u64 (sn_running sn)),
      json_member ''completed'' (dec_u64 (sn_completed sn)), json_member ''cancelled'' (dec_u64 (sn_cancelled sn)),
      json_member ''expired'' (dec_u64 (sn_expired sn)),
      json_member ''groups'' (''['' @ commas (map group_to_json (sn_groups sn)) @ '']''),
      json_member ''reservations'' (dec_u64 (of_nat (length (sn_reservations sn)))),
      json_member ''workers'' (dec_u64 (of_nat (length (sn_workers sn)))),
      json_member ''per_tenant_tokens'' (''['' @ commas (map quoted (sn_per_tenant_tokens sn)) @ '']''),
      json_member ''stats'' (''{'' @ commas
        [json_member ''requests_admitted'' (dec_u64 (st_requests_admitted (sn_stats sn))),
         json_member ''decode_steps'' (dec_u64 (st_decode_steps (sn_stats sn))),
         json_member ''generated_tokens'' (dec_u64 (st_generated_tokens (sn_stats sn))),
         json_member ''cancellations'' (dec_u64 (st_cancellations (sn_stats sn))),
         json_member ''retries'' (dec_u64 (st_retries (sn_stats sn))),
         json_member ''stale_rejections'' (dec_u64 (st_stale_rejections (sn_stats sn))),
         json_member ''tokens_per_second'' (print_double (st_tokens_per_second (sn_stats sn)))] @ ''}'')] @ ''}''"

definition explain_to_json :: "Explain \<Rightarrow> string" where
  "explain_to_json e = ''{'' @ commas
     [json_member ''sequence'' (json_id (xp_sequence e)), json_member ''request'' (json_id (xp_request e)),
      json_member ''question'' (quoted (xp_question e)), json_member ''answer'' (quoted (xp_answer e)),
      json_member ''facts'' (''['' @ commas (map quoted (xp_facts e)) @ '']'')] @ ''}''"

section \<open>A snapshot counts what is there\<close>

definition sequences_in :: "(SequenceState \<Rightarrow> bool) \<Rightarrow> Fabric \<Rightarrow> nat" where
  "sequences_in P f = length (filter (\<lambda>kv. P (s_machine (snd kv))) (fb_seqs f))"

lemma fold_count:
  "fold (\<lambda>kv n. if P (s_machine (snd kv)) then n + 1 else n) xs (n :: 'a::comm_semiring_1) =
     n + of_nat (length (filter (\<lambda>kv. P (s_machine (snd kv))) xs))"
  by (induction xs arbitrary: n) (auto simp: algebra_simps)

lemma snapshot_fold:
  fixes xs :: "('k \<times> Seq) list"
  assumes "\<And>st sn. c (snapshot_count st sn) = (if P st then c sn + 1 else (c sn :: u64))"
  shows "c (fold (\<lambda>kv. snapshot_count (s_machine (snd kv))) xs sn) = c sn + of_nat (length (filter (\<lambda>kv. P (s_machine (snd kv))) xs))"
  by (induction xs arbitrary: sn) (auto simp: assms algebra_simps)

lemma snapshot_counters:
  "sn_admitted (snapshot_count st sn) = (if st = ST_Admitted \<or> st = ST_Waiting then sn_admitted sn + 1 else sn_admitted sn)"
  "sn_ready (snapshot_count st sn) = (if is_candidate_state st \<and> st \<noteq> ST_Waiting then sn_ready sn + 1 else sn_ready sn)"
  "sn_grouped (snapshot_count st sn) = (if st = ST_Grouped \<or> st = ST_Reserved then sn_grouped sn + 1 else sn_grouped sn)"
  "sn_running (snapshot_count st sn) = (if st = ST_Dispatched \<or> st = ST_Running then sn_running sn + 1 else sn_running sn)"
  "sn_completed (snapshot_count st sn) = (if st = ST_Completed then sn_completed sn + 1 else sn_completed sn)"
  "sn_cancelled (snapshot_count st sn) = (if st = ST_Cancelled then sn_cancelled sn + 1 else sn_cancelled sn)"
  "sn_expired (snapshot_count st sn) = (if st = ST_DeadlineExpired then sn_expired sn + 1 else sn_expired sn)"
  by (auto simp: snapshot_count_def is_candidate_state_def)

lemmas snapshot_folds = snapshot_counters [THEN snapshot_fold]


end
