(* ===== verification/SchedulerSafety.thy ===== *)
theory SchedulerSafety
  imports Scenario
begin

text \<open>
  What a scheduling cycle hands out: every sequence in at most one dispatch, groups of one compatibility
  key within the size limit, fresh dispatch ids, a healthy worker that supports the group's model, and
  in-flight authority recorded for exactly the dispatched sequences.
\<close>

section \<open>Candidates\<close>

text \<open>The workers of one fabric are those of another up to their load.\<close>

definition same_fleet :: "Fabric \<Rightarrow> Fabric \<Rightarrow> bool" where
  "same_fleet f h \<longleftrightarrow> (\<forall>w \<in> snd ` set (fb_workers h). \<exists>w0 \<in> snd ` set (fb_workers f). \<exists>n. w = w0\<lparr>wd_active_reservations := n\<rparr>)"

lemma same_fleetE:
  assumes "same_fleet f h" and "w \<in> snd ` set (fb_workers h)"
  obtains w0 n where "w0 \<in> snd ` set (fb_workers f)" "w = w0\<lparr>wd_active_reservations := n\<rparr>"
  using assms unfolding same_fleet_def by blast

lemma same_fleet_same: "fb_workers h = fb_workers f \<Longrightarrow> same_fleet f h"
  unfolding same_fleet_def
proof
  fix w assume "fb_workers h = fb_workers f" and w: "w \<in> snd ` set (fb_workers h)"
  then show "\<exists>w0 \<in> snd ` set (fb_workers f). \<exists>n. w = w0\<lparr>wd_active_reservations := n\<rparr>"
    by (intro bexI [of _ w] exI [of _ "wd_active_reservations w"]) simp_all
qed

lemma same_fleet_trans:
  assumes "same_fleet f g" and "same_fleet g h"
  shows "same_fleet f h"
  unfolding same_fleet_def
proof
  fix w assume "w \<in> snd ` set (fb_workers h)"
  with assms(2) obtain w1 n where w1: "w1 \<in> snd ` set (fb_workers g)" "w = w1\<lparr>wd_active_reservations := n\<rparr>"
    by (rule same_fleetE)
  from assms(1) w1(1) obtain w0 m where w0: "w0 \<in> snd ` set (fb_workers f)" "w1 = w0\<lparr>wd_active_reservations := m\<rparr>"
    by (rule same_fleetE)
  have "w = w0\<lparr>wd_active_reservations := n\<rparr>" by (simp add: w1(2) w0(2))
  with w0(1) show "\<exists>w0 \<in> snd ` set (fb_workers f). \<exists>n. w = w0\<lparr>wd_active_reservations := n\<rparr>" by blast
qed

text \<open>What a phase leaves alone outside a set of sequences.\<close>

definition spares :: "SequenceId set \<Rightarrow> Fabric \<Rightarrow> Fabric \<Rightarrow> bool" where
  "spares M f h \<longleftrightarrow> map fst (fb_seqs h) = map fst (fb_seqs f) \<and> (\<forall>j. j \<notin> M \<longrightarrow> seq_at h j = seq_at f j) \<and>
     (\<forall>j. s_req (seq_at h j) = s_req (seq_at f j) \<and> s_budget (seq_at h j) = s_budget (seq_at f j)) \<and>
     fb_epoch h = fb_epoch f \<and> fb_cfg h = fb_cfg f \<and> same_fleet f h"

lemma sparesD:
  assumes "spares M f h"
  shows "map fst (fb_seqs h) = map fst (fb_seqs f)" "j \<notin> M \<Longrightarrow> seq_at h j = seq_at f j"
    "s_req (seq_at h j) = s_req (seq_at f j)" "s_budget (seq_at h j) = s_budget (seq_at f j)"
    "fb_epoch h = fb_epoch f" "fb_cfg h = fb_cfg f" "same_fleet f h"
  using assms by (simp_all add: spares_def)

lemma spares_refl [simp]: "spares M f f"
  by (simp add: spares_def same_fleet_same)

lemma spares_trans: "spares M f g \<Longrightarrow> spares N g h \<Longrightarrow> spares (M \<union> N) f h"
  by (simp add: spares_def same_fleet_trans [of f g h])

lemma spares_mono: "spares M f h \<Longrightarrow> M \<subseteq> N \<Longrightarrow> spares N f h"
  by (auto simp: spares_def)

lemma spares_same:
  "fb_seqs h = fb_seqs f \<Longrightarrow> fb_epoch h = fb_epoch f \<Longrightarrow> fb_cfg h = fb_cfg f \<Longrightarrow> fb_workers h = fb_workers f \<Longrightarrow> spares M f h"
  by (simp add: spares_def seq_at_def same_fleet_same)

lemma spares_upd:
  "(\<And>s. s_req (g s) = s_req s \<and> s_budget (g s) = s_budget s) \<Longrightarrow> k \<in> M \<Longrightarrow> spares M f (upd_seq k g f)"
  by (auto simp: spares_def seq_at_upd same_fleet_same)

lemma spares_go: "k \<in> M \<Longrightarrow> spares M f (go k st f)"
  unfolding go_def by (rule spares_upd) simp_all

lemma spares_fold: "(\<And>x g. x \<in> set xs \<Longrightarrow> spares M g (h x g)) \<Longrightarrow> spares M f (fold h xs f)"
proof (induction xs arbitrary: f)
  case (Cons x xs)
  have "spares M f (h x f)" by (rule Cons.prems) simp
  moreover have "spares M (h x f) (fold h xs (h x f))" using Cons.prems by (intro Cons.IH) simp
  ultimately show ?case using spares_trans [of M f "h x f" M] by simp
qed simp

lemma frame_workers [simp]:
  "fb_workers (set_terminal k st f) = fb_workers f" "fb_workers (drop_tenant t f) = fb_workers f"
  "fb_workers (bump g f) = fb_workers f" "fb_epoch (set_terminal k st f) = fb_epoch f"
  "fb_epoch (drop_tenant t f) = fb_epoch f" "fb_epoch (bump g f) = fb_epoch f"
  "fb_workers (releasing k f) = fb_workers f" "fb_epoch (releasing k f) = fb_epoch f"
  by (simp_all add: set_terminal_def drop_tenant_def bump_def releasing_def release_reservation_def free_device_def Let_def
      split: option.split)

lemma spares_releasing: "k \<in> M \<Longrightarrow> spares M f (releasing k f)"
  by (auto simp: spares_def seq_at_def umap_get_def same_fleet_same split: option.split)


lemma spares_after:
  "spares M f g \<Longrightarrow> fb_seqs h = fb_seqs g \<Longrightarrow> fb_epoch h = fb_epoch g \<Longrightarrow> fb_cfg h = fb_cfg g \<Longrightarrow> fb_workers h = fb_workers g \<Longrightarrow>
   spares M f h"
  using spares_trans [of M f g M h] spares_same [of h g M] by simp

lemma spares_leave: "k \<in> M \<Longrightarrow> spares M f (go k st (releasing k f))"
  using spares_trans [OF spares_releasing spares_go, of k M k M] by simp

lemma spares_schedule_pass: "spares UNIV f (schedule_pass tn k f)"
proof -
  have "spares UNIV f (expire_now k f)" for f
    unfolding expire_now_def Let_def by (rule spares_after [OF spares_leave [of k UNIV f ST_DeadlineExpired]]) simp_all
  moreover have "spares UNIV f (cancel_now k f)" for f
    unfolding cancel_now_def Let_def by (rule spares_after [OF spares_leave [of k UNIV f ST_Cancelled]]) simp_all
  ultimately have "spares UNIV f (expire_now k f)" "spares UNIV f (cancel_now k f)" for f by blast+
  from this(1) [of f] this(2) spares_trans [OF this(1) [of f] this(2)] show ?thesis
    by (auto simp: schedule_pass_def Let_def)
qed

lemma schedule_pass_workers: "fb_workers (schedule_pass tn k f) = fb_workers f"
  by (simp add: schedule_pass_def expire_now_def cancel_now_def Let_def go_def)

text \<open>The candidates: one per sequence, each with the key its request asks for.\<close>

lemma key_for_model_cong: "fb_workers g = fb_workers f \<Longrightarrow> key_for_model g req = key_for_model f req"
  by (simp add: key_for_model_def)

lemma collect_workers: "fb_workers (snd (collect_candidate tn k (cs, f))) = fb_workers f"
  by (simp add: collect_candidate_def Let_def go_def)

lemma collect_spares: "spares {k} f (snd (collect_candidate tn k (cs, f)))"
proof -
  have "spares {k} f (record_event a b c d (bump g (set_terminal k ST_Completed (go k ST_Completed (releasing k f)))))" for a b c d g
    by (rule spares_after [OF spares_leave [of k "{k}" f ST_Completed]]) simp_all
  then show ?thesis by (simp add: collect_candidate_def Let_def)
qed

definition candidates_ok :: "Candidate list \<Rightarrow> SequenceId set \<Rightarrow> Fabric \<Rightarrow> bool" where
  "candidates_ok cs K f \<longleftrightarrow> distinct (map cand_seq cs) \<and> cand_seq ` set cs \<subseteq> K \<and>
     (\<forall>c \<in> set cs. cand_key c = key_for_model f (s_req (seq_at f (cand_seq c))))"

lemma candidates_ok_cong:
  "fb_workers g = fb_workers f \<Longrightarrow> (\<And>j. s_req (seq_at g j) = s_req (seq_at f j)) \<Longrightarrow> candidates_ok cs K g = candidates_ok cs K f"
  by (simp add: candidates_ok_def key_for_model_cong [of g f])

lemma collect_one:
  assumes "candidates_ok cs K f" and "k \<notin> K"
  shows "candidates_ok (fst (collect_candidate tn k (cs, f))) (insert k K) f"
  using assms by (auto simp: candidates_ok_def collect_candidate_def Let_def)

lemma collect_safe:
  assumes "fold (collect_candidate tn) ks (cs, f) = (cs', g)" and "distinct ks" and "K \<inter> set ks = {}"
    and "candidates_ok cs K f"
  shows "spares UNIV f g \<and> fb_workers g = fb_workers f \<and> candidates_ok cs' (K \<union> set ks) f"
  using assms
proof (induction ks arbitrary: cs f K)
  case (Cons k ks)
  obtain cs1 f1 where one: "collect_candidate tn k (cs, f) = (cs1, f1)" by force
  have f1: "spares {k} f f1" "fb_workers f1 = fb_workers f"
    using collect_spares [of k f tn cs] collect_workers [of tn k cs f] one by simp_all
  note cong = candidates_ok_cong [OF f1(2) sparesD(3) [OF f1(1)]]
  have "candidates_ok cs1 (insert k K) f1"
    unfolding cong using collect_one [OF Cons.prems(4), of k tn] Cons.prems(3) one by simp
  then have "spares UNIV f1 g \<and> fb_workers g = fb_workers f1 \<and> candidates_ok cs' (insert k K \<union> set ks) f1"
    using Cons.prems one by (intro Cons.IH) auto
  then show ?case
    unfolding cong using f1 spares_trans [OF f1(1), of UNIV g] by simp
qed (simp add: candidates_ok_def)

lemma candidates_safe:
  assumes "candidates tn f = (cs, g)" and "umap_ok (fb_seqs f)"
  shows "spares UNIV f g" "fb_workers g = fb_workers f" "candidates_ok cs (set (map fst (fb_seqs f))) f"
proof -
  let ?f1 = "fold (schedule_pass tn) (map fst (fb_seqs f)) f"
  have s1: "spares UNIV f ?f1" by (rule spares_fold) (rule spares_schedule_pass)
  have w1: "fb_workers (fold (schedule_pass tn) ks h) = fb_workers h" for ks h
    by (induction ks arbitrary: h) (simp_all add: schedule_pass_workers)
  note keys = sparesD(1) [OF s1]
  have "fold (collect_candidate tn) (map fst (fb_seqs f)) ([], ?f1) = (cs, g)"
    using assms(1) by (simp add: candidates_def Let_def keys)
  from collect_safe [OF this, of "{}"] assms(2)
  have c: "spares UNIV ?f1 g" "fb_workers g = fb_workers ?f1" "candidates_ok cs (set (map fst (fb_seqs f))) ?f1"
    by (simp_all add: umap_ok_def candidates_ok_def)
  show "spares UNIV f g" using spares_trans [OF s1 c(1)] by simp
  show "fb_workers g = fb_workers f" by (simp add: c(2) w1)
  show "candidates_ok cs (set (map fst (fb_seqs f))) f"
    using c(3) candidates_ok_cong [OF w1 sparesD(3) [OF s1]] by simp
qed

section \<open>Groups\<close>

definition group_members :: "Formed list \<Rightarrow> SequenceId list" where
  "group_members fs = concat (map fm_members fs)"

definition group_fits :: "Config \<Rightarrow> Candidate set \<Rightarrow> Formed \<Rightarrow> bool" where
  "group_fits cfg C g \<longleftrightarrow> length (fm_members g) \<le> max 1 (unat (gl_max_sequences (cf_group_limits cfg))) \<and>
     (\<forall>m \<in> set (fm_members g). \<exists>c \<in> C. cand_seq c = m \<and> key_to_string (cand_key c) = key_to_string (fm_key g))"

definition index_ok :: "(string, nat) umap \<Rightarrow> Formed list \<Rightarrow> bool" where
  "index_ok gi fs \<longleftrightarrow> (\<forall>t i. umap_find gi t = Some i \<longrightarrow> i < length fs \<and> key_to_string (fm_key (fs ! i)) = t)"

definition groups_ok :: "(string, nat) umap \<Rightarrow> Formed list \<Rightarrow> Candidate set \<Rightarrow> Config \<Rightarrow> bool" where
  "groups_ok gi fs C cfg \<longleftrightarrow> distinct (group_members fs) \<and> set (group_members fs) \<subseteq> cand_seq ` C \<and> index_ok gi fs \<and>
     (\<forall>g \<in> set fs. group_fits cfg C g)"

lemma group_fits_mono: "group_fits cfg C g \<Longrightarrow> C \<subseteq> D \<Longrightarrow> group_fits cfg D g"
  unfolding group_fits_def by blast

lemma group_fits_add:
  assumes "group_fits cfg C g" and "key_to_string (fm_key g) = key_to_string (cand_key c)"
    and "fm_members g \<noteq> [] \<Longrightarrow> length (fm_members g) < unat (gl_max_sequences (cf_group_limits cfg))"
  shows "group_fits cfg (insert c C) (g\<lparr>fm_members := fm_members g @ [cand_seq c]\<rparr>)"
  using assms by (cases "fm_members g = []") (auto simp: group_fits_def)

lemma group_members_update:
  "i < length fs \<Longrightarrow> mset (group_members (fs[i := (fs ! i)\<lparr>fm_members := fm_members (fs ! i) @ [k]\<rparr>])) =
     add_mset k (mset (group_members fs))"
proof (induction fs arbitrary: i)
  case (Cons g fs)
  then show ?case by (cases i) (simp_all add: group_members_def)
qed simp

lemma group_slot_ok:
  assumes "groups_ok gi fs C cfg" and "group_slot c (gi, fs) = (i, gi', fs')"
  shows "groups_ok gi' fs' C cfg" "i < length fs'" "key_to_string (fm_key (fs' ! i)) = key_to_string (cand_key c)"
proof -
  have "groups_ok gi' fs' C cfg \<and> i < length fs' \<and> key_to_string (fm_key (fs' ! i)) = key_to_string (cand_key c)"
  proof (cases "umap_find gi (key_to_string (cand_key c))")
    case None
    then have eq: "i = length fs" "gi' = umap_set (key_to_string (cand_key c)) (length fs) gi"
      "fs' = fs @ [\<lparr>fm_key = cand_key c, fm_members = []\<rparr>]"
      using assms(2) by (auto simp: group_slot_def)
    have "group_members fs' = group_members fs" by (simp add: eq group_members_def)
    moreover have "index_ok gi' fs'"
      using assms(1) by (auto simp: groups_ok_def index_ok_def eq nth_append less_Suc_eq)
    moreover have "group_fits cfg C \<lparr>fm_key = cand_key c, fm_members = []\<rparr>" by (simp add: group_fits_def)
    ultimately show ?thesis using assms(1) by (simp add: groups_ok_def eq)
  next
    case (Some j)
    then show ?thesis using assms by (auto simp: group_slot_def groups_ok_def index_ok_def)
  qed
  then show "groups_ok gi' fs' C cfg" "i < length fs'" "key_to_string (fm_key (fs' ! i)) = key_to_string (cand_key c)" by blast+
qed

lemma groups_ok_add:
  assumes "groups_ok gi fs C cfg" and "i < length fs" and "cand_seq c \<notin> cand_seq ` C"
    and "key_to_string (fm_key (fs ! i)) = key_to_string (cand_key c)"
    and "fm_members (fs ! i) \<noteq> [] \<Longrightarrow> length (fm_members (fs ! i)) < unat (gl_max_sequences (cf_group_limits cfg))"
  shows "groups_ok gi (fs[i := (fs ! i)\<lparr>fm_members := fm_members (fs ! i) @ [cand_seq c]\<rparr>]) (insert c C) cfg"
proof -
  let ?g = "(fs ! i)\<lparr>fm_members := fm_members (fs ! i) @ [cand_seq c]\<rparr>"
  have m: "mset (group_members (fs[i := ?g])) = mset (cand_seq c # group_members fs)"
    using group_members_update [OF assms(2)] by simp
  have "cand_seq c \<notin> set (group_members fs)" using assms(1,3) by (auto simp: groups_ok_def)
  then have "distinct (group_members (fs[i := ?g]))"
    using mset_eq_imp_distinct_iff [OF m] assms(1) by (simp add: groups_ok_def)
  moreover have "set (group_members (fs[i := ?g])) \<subseteq> cand_seq ` insert c C"
    using mset_eq_setD [OF m] assms(1) by (auto simp: groups_ok_def)
  moreover have "fm_key (fs[i := ?g] ! j) = fm_key (fs ! j)" for j using assms(2) by (cases "j = i") simp_all
  then have "index_ok gi (fs[i := ?g])"
    using assms(1) by (simp add: groups_ok_def index_ok_def)
  moreover have "group_fits cfg (insert c C) g" if "g \<in> set (fs[i := ?g])" for g
  proof -
    have fits: "\<And>h. h \<in> set fs \<Longrightarrow> group_fits cfg C h" using assms(1) by (simp add: groups_ok_def)
    have "g \<in> set fs \<or> g = ?g" using that set_update_subset_insert [of fs i ?g] by blast
    then show ?thesis
      using fits group_fits_mono [of cfg C g "insert c C"] group_fits_add [OF fits assms(4,5)] assms(2) by auto
  qed
  ultimately show ?thesis unfolding groups_ok_def by blast
qed

lemma form_spares: "spares UNIV f (snd (snd (form_candidate tn c (gi, fs, f))))"
proof -
  have "spares UNIV f (upd_seq k (\<lambda>s. s\<lparr>s_last_grouped_at := tn, s_ready_at := tn\<rparr>) (go k ST_Grouped f))" for k
  proof -
    have "spares UNIV (go k ST_Grouped f) (upd_seq k (\<lambda>s. s\<lparr>s_last_grouped_at := tn, s_ready_at := tn\<rparr>) (go k ST_Grouped f))"
      by (rule spares_upd) simp_all
    with spares_go [of k UNIV f ST_Grouped] show ?thesis using spares_trans by fastforce
  qed
  then show ?thesis by (simp add: form_candidate_def case_prod_beta Let_def)
qed

lemma form_one:
  assumes "groups_ok gi fs C (fb_cfg f)" and "cand_seq c \<notin> cand_seq ` C" and "form_candidate tn c (gi, fs, f) = (gi', fs', f')"
  shows "groups_ok gi' fs' (insert c C) (fb_cfg f)"
proof -
  obtain i gi1 fs1 where slot: "group_slot c (gi, fs) = (i, gi1, fs1)" using prod_cases3 by blast
  note s = group_slot_ok [OF assms(1) slot]
  show ?thesis
  proof (cases "group_accepts f (cand_seq c) (fm_members (fs1 ! i))")
    case True
    then have "groups_ok gi1 (fs1[i := (fs1 ! i)\<lparr>fm_members := fm_members (fs1 ! i) @ [cand_seq c]\<rparr>]) (insert c C) (fb_cfg f)"
      using s assms(2) by (intro groups_ok_add) (auto simp: group_accepts_def Let_def)
    then show ?thesis using assms(3) True by (simp add: form_candidate_def slot Let_def)
  next
    case False
    then have "gi' = gi1" "fs' = fs1" using assms(3) by (simp_all add: form_candidate_def slot Let_def)
    then show ?thesis
      using s(1) by (auto simp: groups_ok_def intro: group_fits_mono)
  qed
qed

lemma form_safe:
  assumes "fold (form_candidate tn) cs (gi, fs, f) = (gi', fs', g)" and "groups_ok gi fs C (fb_cfg f)"
    and "distinct (map cand_seq cs)" and "cand_seq ` set cs \<inter> cand_seq ` C = {}"
  shows "groups_ok gi' fs' (C \<union> set cs) (fb_cfg f) \<and> spares UNIV f g"
  using assms
proof (induction cs arbitrary: gi fs f C)
  case (Cons c cs)
  obtain gi1 fs1 f1 where one: "form_candidate tn c (gi, fs, f) = (gi1, fs1, f1)" using prod_cases3 by blast
  have sp: "spares UNIV f f1" using form_spares [of f tn c gi fs] one by simp
  have "groups_ok gi1 fs1 (insert c C) (fb_cfg f1)"
    unfolding sparesD(6) [OF sp] using Cons.prems(4) by (intro form_one [OF Cons.prems(2) _ one]) auto
  then have "groups_ok gi' fs' (insert c C \<union> set cs) (fb_cfg f1) \<and> spares UNIV f1 g"
    using Cons.prems one by (intro Cons.IH) auto
  then show ?case using sp spares_trans [OF sp, of UNIV g] sparesD(6) [OF sp] by simp
qed simp

lemma mset_stable_insert [simp]: "mset (stable_insert prec x xs) = add_mset x (mset xs)"
  by (induction xs) auto

lemma mset_stable_sort [simp]: "mset (stable_sort prec xs) = mset xs"
  by (induction xs) (auto simp: stable_sort_def)

lemma form_groups_safe:
  assumes "form_groups tn cs f = (fs, g)" and "distinct (map cand_seq cs)"
  shows "\<exists>gi. groups_ok gi fs (set cs) (fb_cfg f)" and "spares UNIV f g"
proof -
  obtain gi fs' g' where r: "fold (form_candidate tn) (stable_sort candidate_before cs) ([], [], f) = (gi, fs', g')"
    using prod_cases3 by blast
  with assms(1) have eq: "fs' = fs" "g' = g" by (simp_all add: form_groups_def)
  have "mset (map cand_seq (stable_sort candidate_before cs)) = mset (map cand_seq cs)" by simp
  from mset_eq_imp_distinct_iff [OF this] assms(2) have "distinct (map cand_seq (stable_sort candidate_before cs))" by simp
  from form_safe [OF r, of "{}"] this show "\<exists>gi. groups_ok gi fs (set cs) (fb_cfg f)" "spares UNIV f g"
    by (auto simp: groups_ok_def group_members_def index_ok_def eq)
qed

section \<open>Dispatches\<close>

lemma dispatch_seq_members [simp]: "dispatch_seq (d\<lparr>di_members := ms\<rparr>) tn = dispatch_seq d tn"
  by (simp add: dispatch_seq_def fun_eq_iff)

lemma dispatch_seq_req [simp]: "s_req (dispatch_seq d tn s) = s_req s" "s_budget (dispatch_seq d tn s) = s_budget s"
  by (simp_all add: dispatch_seq_def)

lemma dispatch_safe:
  assumes "fold (dispatch_member tn) ms (d, f) = (d', g)" and "distinct ms" and "set ms \<subseteq> set (map fst (fb_seqs f))"
  shows "spares (set ms) f g \<and> fb_next_dispatch g = fb_next_dispatch f \<and>
    d' = d\<lparr>di_members := di_members d @ map (\<lambda>m. member_spec m (seq_at f m)) ms\<rparr> \<and>
    (\<forall>m \<in> set ms. seq_at g m = dispatch_seq d tn (seq_at f m))"
  using assms
proof (induction ms arbitrary: d f)
  case (Cons m ms)
  let ?d = "d\<lparr>di_members := di_members d @ [member_spec m (seq_at f m)]\<rparr>"
  let ?f = "record_event EV_SequenceGrouped (rq_id (s_req (seq_at f m))) m ''grouped'' (upd_seq m (dispatch_seq d tn) f)"
  have step: "dispatch_member tn m (d, f) = (?d, ?f)" by (simp add: dispatch_member_def)
  have "spares {m} f (upd_seq m (dispatch_seq d tn) f)" by (rule spares_upd) simp_all
  then have sp: "spares {m} f ?f" by (rule spares_after) simp_all
  have IH: "spares (set ms) ?f g \<and> fb_next_dispatch g = fb_next_dispatch ?f \<and>
    d' = ?d\<lparr>di_members := di_members ?d @ map (\<lambda>m. member_spec m (seq_at ?f m)) ms\<rparr> \<and>
    (\<forall>m \<in> set ms. seq_at g m = dispatch_seq ?d tn (seq_at ?f m))"
    using Cons.prems step by (intro Cons.IH) auto
  have at: "seq_at ?f j = seq_at f j" if "j \<in> set ms" for j
    using sparesD(2) [OF sp, of j] that Cons.prems(2) by auto
  then have "map (\<lambda>m. member_spec m (seq_at ?f m)) ms = map (\<lambda>m. member_spec m (seq_at f m)) ms" by simp
  moreover have "seq_at g m = seq_at ?f m" using IH sparesD(2) [of "set ms" ?f g m] Cons.prems(2) by auto
  moreover have "umap_find (fb_seqs f) m \<noteq> None" using Cons.prems(3) umap_find_None_iff [of "fb_seqs f" m] by auto
  then have "seq_at ?f m = dispatch_seq d tn (seq_at f m)" by (simp add: seq_at_upd)
  ultimately show ?case
    using IH at spares_trans [OF sp, of "set ms" g] by simp
qed simp

lemma set_umap_upd: "x \<in> set (umap_upd k g m) \<Longrightarrow> x \<in> set m \<or> (\<exists>p \<in> set m. snd x = g (snd p))"
  unfolding umap_upd_def by (induction m) (auto split: if_splits)

lemma same_fleet_load:
  assumes "fb_workers h = umap_upd wid (\<lambda>w. w\<lparr>wd_active_reservations := load w\<rparr>) (fb_workers f)"
  shows "same_fleet f h"
  unfolding same_fleet_def assms
proof
  fix w assume "w \<in> snd ` set (umap_upd wid (\<lambda>w. w\<lparr>wd_active_reservations := load w\<rparr>) (fb_workers f))"
  then have "w \<in> snd ` set (fb_workers f) \<or> (\<exists>w0 \<in> snd ` set (fb_workers f). w = w0\<lparr>wd_active_reservations := load w0\<rparr>)"
    by (auto dest: set_umap_upd)
  moreover have "w = w\<lparr>wd_active_reservations := wd_active_reservations w\<rparr>" by simp
  ultimately show "\<exists>w0 \<in> snd ` set (fb_workers f). \<exists>n. w = w0\<lparr>wd_active_reservations := n\<rparr>" by blast
qed

lemma issue_safe:
  assumes "issue_dispatch tn g wid w res f = (d, h)" and "distinct (fm_members g)"
    and "set (fm_members g) \<subseteq> set (map fst (fb_seqs f))"
  shows "spares (set (fm_members g)) f h" "fb_next_dispatch h = fb_next_dispatch f + 1"
    "di_id d = fb_next_dispatch f" "di_epoch d = fb_epoch f" "di_key d = fm_key g" "di_worker d = wd_id w"
    "di_device d = wd_device w" "di_members d = map (\<lambda>m. member_spec m (seq_at f m)) (fm_members g)"
    "\<And>m. m \<in> set (fm_members g) \<Longrightarrow> seq_at h m = dispatch_seq d tn (seq_at f m)"
proof -
  let ?d0 = "\<lparr>di_id = fb_next_dispatch f, di_group = rv_group res, di_epoch = fb_epoch f,
               di_worker = wd_id w, di_worker_boot = umap_get 0 (fb_worker_current_boot f) (wd_id w),
               di_reservation = rv_id res, di_key = fm_key g, di_device = wd_device w,
               di_issued_at = tn, di_members = []\<rparr>"
  let ?f1 = "f\<lparr>fb_next_dispatch := fb_next_dispatch f + 1,
     fb_worker_current_boot := (if umap_find (fb_worker_current_boot f) (wd_id w) = None
                  then umap_set (wd_id w) 0 (fb_worker_current_boot f) else fb_worker_current_boot f)\<rparr>"
  obtain d' f2 where fold: "fold (dispatch_member tn) (fm_members g) (?d0, ?f1) = (d', f2)" by force
  have at: "seq_at ?f1 m = seq_at f m" for m by (simp add: seq_at_def)
  from dispatch_safe [OF fold assms(2)] assms(3)
  have sp: "spares (set (fm_members g)) ?f1 f2" and n: "fb_next_dispatch f2 = fb_next_dispatch f + 1"
    and d': "d' = ?d0\<lparr>di_members := map (\<lambda>m. member_spec m (seq_at f m)) (fm_members g)\<rparr>"
    and at2: "\<And>m. m \<in> set (fm_members g) \<Longrightarrow> seq_at f2 m = dispatch_seq ?d0 tn (seq_at f m)"
    by (simp_all add: at)
  have eq: "d = d'" "h = record_event EV_DispatchIssued id_null id_null (dispatch_to_string d')
      (bump (\<lambda>st. st\<lparr>st_dispatch_issued := st_dispatch_issued st + 1\<rparr>)
        (f2\<lparr>fb_workers := umap_upd wid
           (\<lambda>w. w\<lparr>wd_active_reservations := wd_active_reservations w + 1\<rparr>) (fb_workers f2)\<rparr>))"
    using assms(1) fold by (auto simp: issue_dispatch_def Let_def)
  have same: "seq_at h j = seq_at f2 j" for j by (simp add: eq(2)) (simp add: seq_at_def)
  show "di_id d = fb_next_dispatch f" "di_epoch d = fb_epoch f" "di_key d = fm_key g" "di_worker d = wd_id w"
    "di_device d = wd_device w" "di_members d = map (\<lambda>m. member_spec m (seq_at f m)) (fm_members g)"
    by (simp_all add: eq(1) d')
  have "dispatch_seq d tn = dispatch_seq ?d0 tn" unfolding eq(1) d' by (rule dispatch_seq_members)
  then show "seq_at h m = dispatch_seq d tn (seq_at f m)" if "m \<in> set (fm_members g)" for m
    using at2 [OF that] by (simp add: same)
  show "fb_next_dispatch h = fb_next_dispatch f + 1" by (simp add: eq(2) n)
  have "same_fleet f2 h" by (rule same_fleet_load) (simp add: eq(2))
  then have "spares (set (fm_members g)) f2 h"
    by (simp add: spares_def same) (simp add: eq(2))
  moreover have "spares (set (fm_members g)) f ?f1" by (rule spares_same) simp_all
  ultimately show "spares (set (fm_members g)) f h"
    using spares_trans [OF spares_trans [OF _ sp]] by fastforce
qed

text \<open>The group a dispatch carries out, seen from the fabric before (\<open>f\<close>) and after (\<open>h\<close>) placement.\<close>

definition served :: "Fabric \<Rightarrow> Dispatch \<Rightarrow> bool" where
  "served f d \<longleftrightarrow> (\<exists>w \<in> snd ` set (fb_workers f). wd_id w = di_worker d \<and> wd_device w = di_device d \<and> wd_health w = WH_Healthy \<and>
     list_ex (\<lambda>mk. ck_model mk = ck_model (di_key d) \<and> ck_revision mk = ck_revision (di_key d) \<and>
                    ck_device mk = ck_device (di_key d)) (wd_supported_models w))"

definition placed :: "Fabric \<Rightarrow> Fabric \<Rightarrow> Formed \<Rightarrow> Dispatch \<Rightarrow> bool" where
  "placed f h g d \<longleftrightarrow> map ms_sequence (di_members d) = fm_members g \<and> fm_members g \<noteq> [] \<and> di_key d = fm_key g \<and>
     di_epoch d = fb_epoch f \<and> served f d \<and>
     (\<forall>m \<in> set (fm_members g). s_has_inflight (seq_at h m) \<and> s_in_flight_dispatch (seq_at h m) = di_id d \<and>
        s_in_flight_worker (seq_at h m) = di_worker d)"

lemma served_before:
  assumes "served f1 d" and "same_fleet f f1"
  shows "served f d"
proof -
  obtain w where w: "w \<in> snd ` set (fb_workers f1)" "wd_id w = di_worker d" "wd_device w = di_device d" "wd_health w = WH_Healthy"
    "list_ex (\<lambda>mk. ck_model mk = ck_model (di_key d) \<and> ck_revision mk = ck_revision (di_key d) \<and>
                       ck_device mk = ck_device (di_key d)) (wd_supported_models w)"
    using assms(1) unfolding served_def by blast
  obtain w0 n where w0: "w0 \<in> snd ` set (fb_workers f)" "w = w0\<lparr>wd_active_reservations := n\<rparr>"
    by (rule same_fleetE [OF assms(2) w(1)])
  show ?thesis unfolding served_def using w by (intro bexI [OF _ w0(1)]) (simp add: w0(2))
qed

lemma placed_before: "placed f1 h g d \<Longrightarrow> fb_epoch f1 = fb_epoch f \<Longrightarrow> same_fleet f f1 \<Longrightarrow> placed f h g d"
  unfolding placed_def using served_before by auto

lemma placed_after: "placed f h1 g d \<Longrightarrow> (\<And>m. m \<in> set (fm_members g) \<Longrightarrow> seq_at h m = seq_at h1 m) \<Longrightarrow> placed f h g d"
  unfolding placed_def by simp

lemma revert_spares: "spares (set ms) f (revert_members ms f)"
  unfolding revert_members_def by (rule spares_fold) (rule spares_go)

lemma revert_next: "fb_next_dispatch (revert_members ms f) = fb_next_dispatch f"
  using revert_calm [of f ms] by (simp add: calm_def)

lemma place_one:
  assumes "place_group tn g (out, f) = (out', h)" and "distinct (fm_members g)"
    and "set (fm_members g) \<subseteq> set (map fst (fb_seqs f))"
  shows "spares (set (fm_members g)) f h \<and> (out' = out \<and> fb_next_dispatch h = fb_next_dispatch f \<or>
    (\<exists>d. out' = out @ [d] \<and> fb_next_dispatch h = fb_next_dispatch f + 1 \<and> di_id d = fb_next_dispatch f \<and> placed f h g d))"
proof (cases "fm_members g = [] \<or> choose_worker (fm_key g) f = None")
  case True
  then show ?thesis
    using assms(1) revert_spares [of "fm_members g" f] revert_next [of "fm_members g" f]
    by (auto simp: place_group_def split: if_splits)
next
  case False
  then obtain wid w where w: "choose_worker (fm_key g) f = Some (wid, w)" and ne: "fm_members g \<noteq> []" by auto
  let ?growth = "group_growth f (fm_members g)" and ?dev = "dd_id (wd_device w)"
  let ?f1 = "f\<lparr>fb_dev_mem := (if umap_find (fb_dev_mem f) ?dev = None
     then umap_set ?dev default_DevMem (fb_dev_mem f) else fb_dev_mem f)\<rparr>"
  have s1: "spares (set (fm_members g)) f ?f1" by (rule spares_same) simp_all
  show ?thesis
  proof (cases "memory_refused (umap_get default_DevMem (fb_dev_mem f) ?dev) ?growth")
    case True
    then have eq: "out' = out" "h = record_event EV_BackpressureApplied id_null id_null ''memory_headroom''
        (revert_members (fm_members g) ?f1)"
      using assms(1) w ne by (simp_all add: place_group_def Let_def)
    have "spares (set (fm_members g)) f (revert_members (fm_members g) ?f1)"
      using spares_trans [OF s1 revert_spares [of "fm_members g" ?f1]] by (simp only: Un_absorb)
    then have "spares (set (fm_members g)) f h" by (rule spares_after) (simp_all add: eq(2))
    then show ?thesis by (simp add: eq revert_next)
  next
    case ok: False
    obtain res f2 where res: "reserve_group tn w ?growth ?f1 = (res, f2)" by force
    obtain d f3 where iss: "issue_dispatch tn g wid w res f2 = (d, f3)" by force
    have h: "h = f3" "out' = out @ [d]" using assms(1) w ne ok res iss by (simp_all add: place_group_def Let_def)
    have f2: "fb_seqs f2 = fb_seqs f" "fb_epoch f2 = fb_epoch f" "fb_workers f2 = fb_workers f" "fb_cfg f2 = fb_cfg f"
      "fb_next_dispatch f2 = fb_next_dispatch f"
      using res by (auto simp: reserve_group_def Let_def)
    have s2: "spares (set (fm_members g)) f f2" by (rule spares_same) (simp_all add: f2)
    have "set (fm_members g) \<subseteq> set (map fst (fb_seqs f2))" using assms(3) by (simp add: f2)
    note I = issue_safe [OF iss assms(2) this]
    have "wd_health w = WH_Healthy \<and> list_ex (\<lambda>mk. ck_model mk = ck_model (fm_key g) \<and> ck_revision mk = ck_revision (fm_key g) \<and>
                    ck_device mk = ck_device (fm_key g)) (wd_supported_models w)" "w \<in> snd ` set (fb_workers f)"
      using choose_worker_mem [OF w] by (auto simp: worker_eligible_def image_iff intro: bexI [of _ "(wid, w)"])
    moreover have "map ms_sequence (di_members d) = fm_members g" by (simp add: I(8) member_spec_def comp_def)
    ultimately have "placed f h g d"
      unfolding placed_def served_def h(1) using I ne by (auto simp: f2 dispatch_seq_def)
    then show ?thesis using I spares_trans [OF s2 I(1)] by (simp add: h f2)
  qed
qed

definition sequences_of :: "Dispatch list \<Rightarrow> SequenceId list" where
  "sequences_of ds = concat (map (\<lambda>d. map ms_sequence (di_members d)) ds)"

lemma place_safe:
  assumes "fold (place_group tn) gs (out, f) = (out', h)" and "distinct (group_members gs)"
    and "set (group_members gs) \<subseteq> set (map fst (fb_seqs f))" and "unat (fb_next_dispatch f) + length gs < 2 ^ 64"
  shows "\<exists>ds. out' = out @ ds \<and> spares (set (group_members gs)) f h \<and> distinct (sequences_of ds) \<and>
    set (sequences_of ds) \<subseteq> set (group_members gs) \<and> unat (fb_next_dispatch h) = unat (fb_next_dispatch f) + length ds \<and>
    map (\<lambda>d. unat (di_id d)) ds = [unat (fb_next_dispatch f) ..< unat (fb_next_dispatch h)] \<and>
    (\<forall>d \<in> set ds. \<exists>g \<in> set gs. placed f h g d)"
  using assms
proof (induction gs arbitrary: out f)
  case Nil
  then show ?case by (simp add: group_members_def sequences_of_def)
next
  case (Cons g gs)
  obtain out1 f1 where one: "place_group tn g (out, f) = (out1, f1)" by force
  have gm: "group_members (g # gs) = fm_members g @ group_members gs" by (simp add: group_members_def)
  have P: "spares (set (fm_members g)) f f1" "out1 = out \<and> fb_next_dispatch f1 = fb_next_dispatch f \<or>
    (\<exists>d. out1 = out @ [d] \<and> fb_next_dispatch f1 = fb_next_dispatch f + 1 \<and> di_id d = fb_next_dispatch f \<and> placed f f1 g d)"
    using place_one [OF one] Cons.prems(2,3) by (auto simp: gm)
  have up: "unat (fb_next_dispatch f + 1) = unat (fb_next_dispatch f) + 1"
    using Cons.prems(4) by (simp add: unat_word_ariths)
  have room: "unat (fb_next_dispatch f1) + length gs < 2 ^ 64" using P(2) Cons.prems(4) up by auto
  have "fold (place_group tn) gs (out1, f1) = (out', h)" "distinct (group_members gs)"
    "set (group_members gs) \<subseteq> set (map fst (fb_seqs f1))"
    using Cons.prems(1-3) one by (auto simp: gm sparesD(1) [OF P(1)])
  from Cons.IH [OF this room] obtain ds where
    ds: "out' = out1 @ ds" "spares (set (group_members gs)) f1 h" "distinct (sequences_of ds)"
    "set (sequences_of ds) \<subseteq> set (group_members gs)" "unat (fb_next_dispatch h) = unat (fb_next_dispatch f1) + length ds"
    "map (\<lambda>d. unat (di_id d)) ds = [unat (fb_next_dispatch f1) ..< unat (fb_next_dispatch h)]"
    "\<forall>d \<in> set ds. \<exists>g \<in> set gs. placed f1 h g d" by blast
  have sp: "spares (set (group_members (g # gs))) f h"
    using spares_trans [OF P(1) ds(2)] by (simp add: gm)
  have later: "\<forall>d \<in> set ds. \<exists>g' \<in> set (g # gs). placed f h g' d"
    using ds(7) placed_before [OF _ sparesD(5) [OF P(1)] sparesD(7) [OF P(1)]] by (meson list.set_intros(2))
  from P(2) show ?case
  proof
    assume "out1 = out \<and> fb_next_dispatch f1 = fb_next_dispatch f"
    with ds sp later show ?thesis by (auto simp: gm)
  next
    assume "\<exists>d. out1 = out @ [d] \<and> fb_next_dispatch f1 = fb_next_dispatch f + 1 \<and> di_id d = fb_next_dispatch f \<and> placed f f1 g d"
    then obtain d where d: "out1 = out @ [d]" "fb_next_dispatch f1 = fb_next_dispatch f + 1" "di_id d = fb_next_dispatch f"
      "placed f f1 g d" by blast
    have "placed f h g d"
      using d(4) by (rule placed_after) (use sparesD(2) [OF ds(2)] Cons.prems(2) in \<open>auto simp: gm\<close>)
    moreover have "map ms_sequence (di_members d) = fm_members g" using d(4) by (simp add: placed_def)
    then have sq: "sequences_of (d # ds) = fm_members g @ sequences_of ds" by (simp add: sequences_of_def)
    moreover have "map (\<lambda>d. unat (di_id d)) (d # ds) = [unat (fb_next_dispatch f) ..< unat (fb_next_dispatch h)]"
      using ds(5,6) d(2,3) up upt_conv_Cons [of "unat (fb_next_dispatch f)" "unat (fb_next_dispatch h)"]
      by (simp del: upt.simps)
    ultimately show ?thesis
      using ds sp later d up Cons.prems(2) by (intro exI [of _ "d # ds"]) (auto simp: gm)
  qed
qed

section \<open>The scheduling cycle\<close>

text \<open>The three phases of a cycle: collecting candidates, forming groups, placing them.\<close>

definition phases :: "TimePoint \<Rightarrow> Fabric \<Rightarrow> Candidate list \<Rightarrow> Formed list \<Rightarrow> Fabric \<Rightarrow> Dispatch list \<Rightarrow> Fabric \<Rightarrow> bool" where
  "phases tn f cs fs f2 out f3 \<longleftrightarrow> (\<exists>f1. candidates tn f = (cs, f1) \<and> form_groups tn cs f1 = (fs, f2) \<and>
     fold (place_group tn) fs ([], f2) = (out, f3))"

lemma schedule_phases:
  obtains cs fs f2 out f3 where "phases tn f cs fs f2 out f3" "schedule tn f = (out, refresh_derived_stats f3)"
proof -
  obtain cs f1 where c: "candidates tn f = (cs, f1)" by force
  obtain fs f2 where g: "form_groups tn cs f1 = (fs, f2)" by force
  obtain out f3 where p: "fold (place_group tn) fs ([], f2) = (out, f3)" by force
  have "phases tn f cs fs f2 out f3" using c g p by (auto simp: phases_def)
  moreover have "schedule tn f = (out, refresh_derived_stats f3)" by (simp add: schedule_def c g p)
  ultimately show ?thesis by (rule that)
qed

lemma phases_safe:
  assumes ph: "phases tn f cs fs f2 out f3" and run: "fab_run cfg clock f" and room: "permitted (Schedule tn) f"
  shows "\<exists>gi. groups_ok gi fs (set cs) (fb_cfg f)" "spares UNIV f f2" "spares UNIV f f3" "calm f f2"
    "set (group_members fs) \<subseteq> set (map fst (fb_seqs f))" "distinct (sequences_of out)"
    "set (sequences_of out) \<subseteq> set (group_members fs)"
    "map (\<lambda>d. unat (di_id d)) out = [unat (fb_next_dispatch f) ..< unat (fb_next_dispatch f3)]"
    "\<And>d. d \<in> set out \<Longrightarrow> \<exists>g \<in> set fs. placed f2 f3 g d"
    "\<And>cd. cd \<in> set cs \<Longrightarrow> \<not> budget_exhausted (s_budget (seq_at f (cand_seq cd))) \<and>
       cand_key cd = key_for_model f (s_req (seq_at f (cand_seq cd)))"
proof -
  obtain f1 where c: "candidates tn f = (cs, f1)" and g: "form_groups tn cs f1 = (fs, f2)"
    and p: "fold (place_group tn) fs ([], f2) = (out, f3)" using ph by (auto simp: phases_def)
  note C = candidates_safe [OF c books_okD(1) [OF books.run_invariant [OF run]]]
  have "distinct (map cand_seq cs)" using C(3) by (simp add: candidates_ok_def)
  note G = form_groups_safe [OF g this]
  show gok: "\<exists>gi. groups_ok gi fs (set cs) (fb_cfg f)" using G(1) sparesD(6) [OF C(1)] by auto
  show s2: "spares UNIV f f2" using spares_trans [OF C(1) G(2)] by simp
  show calm: "calm f f2" using candidates_reach(2) [OF c] form_groups_reach(2) [OF g] by (rule calm_trans)
  have "length fs \<le> length (fb_seqs f)" using candidates_reach(3) [OF c] form_groups_reach(3) [OF g] by linarith
  then have "unat (fb_next_dispatch f2) + length fs < 2 ^ 64" using room calm by (simp add: calm_def)
  moreover show keys: "set (group_members fs) \<subseteq> set (map fst (fb_seqs f))"
    using gok C(3) by (auto simp: groups_ok_def candidates_ok_def)
  moreover have "distinct (group_members fs)" using gok by (auto simp: groups_ok_def)
  ultimately have P: "spares (set (group_members fs)) f2 f3 \<and> distinct (sequences_of out) \<and>
      set (sequences_of out) \<subseteq> set (group_members fs) \<and>
      map (\<lambda>d. unat (di_id d)) out = [unat (fb_next_dispatch f2) ..< unat (fb_next_dispatch f3)] \<and>
      (\<forall>d \<in> set out. \<exists>g \<in> set fs. placed f2 f3 g d)"
    using place_safe [OF p] sparesD(1) [OF s2] by auto
  then show "distinct (sequences_of out)" "set (sequences_of out) \<subseteq> set (group_members fs)"
    "\<And>d. d \<in> set out \<Longrightarrow> \<exists>g \<in> set fs. placed f2 f3 g d"
    "map (\<lambda>d. unat (di_id d)) out = [unat (fb_next_dispatch f) ..< unat (fb_next_dispatch f3)]"
    using calm by (simp_all add: calm_def)
  show "spares UNIV f f3" using spares_trans [OF s2 conjunct1 [OF P]] by simp
  fix cd assume cd: "cd \<in> set cs"
  show "\<not> budget_exhausted (s_budget (seq_at f (cand_seq cd))) \<and>
       cand_key cd = key_for_model f (s_req (seq_at f (cand_seq cd)))"
    using candidates_reach(4) [OF c cd] sparesD(4) [OF C(1), of "cand_seq cd"] C(3) cd by (auto simp: candidates_ok_def)
qed

lemma phases_member:
  assumes "phases tn f cs fs f2 out f3" and "fab_run cfg clock f" and "permitted (Schedule tn) f"
    and d: "placed f2 f3 gr d" "gr \<in> set fs" "m \<in> set (fm_members gr)"
  shows "\<exists>s. umap_find (fb_seqs f3) m = Some s \<and> s_has_inflight s \<and> s_in_flight_dispatch s = di_id d \<and>
      s_in_flight_worker s = di_worker d \<and> \<not> budget_exhausted (s_budget s) \<and>
      key_to_string (key_for_model f (s_req s)) = key_to_string (di_key d)"
proof -
  note P = phases_safe [OF assms(1-3)]
  have "m \<in> set (map fst (fb_seqs f3))"
    using d(2,3) P(5) unfolding sparesD(1) [OF P(3)] by (auto simp: group_members_def)
  then obtain s where s: "umap_find (fb_seqs f3) m = Some s" using umap_find_key by metis
  note at = seq_at_find [OF s]
  obtain cd where cd: "cd \<in> set cs" "cand_seq cd = m" "key_to_string (cand_key cd) = key_to_string (fm_key gr)"
    using P(1) d(2,3) unfolding groups_ok_def group_fits_def by blast
  have "s_budget s = s_budget (seq_at f m)" "s_req s = s_req (seq_at f m)"
    using sparesD(3,4) [OF P(3), of m] by (simp_all add: at)
  moreover have "s_has_inflight s \<and> s_in_flight_dispatch s = di_id d \<and> s_in_flight_worker s = di_worker d"
    "di_key d = fm_key gr"
    using d at by (auto simp: placed_def)
  ultimately show ?thesis using s P(10) [OF cd(1)] cd(2,3) by simp
qed

lemma phases_dispatch:
  assumes "phases tn f cs fs f2 out f3" and "fab_run cfg clock f" and "permitted (Schedule tn) f"
    and d: "placed f2 f3 gr d" "gr \<in> set fs"
  shows "di_members d \<noteq> [] \<and> di_epoch d = fb_epoch f \<and>
      length (di_members d) \<le> max 1 (unat (gl_max_sequences (cf_group_limits (fb_cfg f)))) \<and> served f d"
proof -
  note P = phases_safe [OF assms(1-3)]
  have len: "map ms_sequence (di_members d) = fm_members gr" using d(1) by (simp add: placed_def)
  have "group_fits (fb_cfg f) (set cs) gr" using P(1) d(2) by (auto simp: groups_ok_def)
  moreover have "served f d" using d(1) served_before [OF _ sparesD(7) [OF P(2)]] by (simp add: placed_def)
  ultimately show ?thesis
    using d(1) sparesD(5) [OF P(2)] length_map [of ms_sequence "di_members d", unfolded len]
    by (auto simp: placed_def group_fits_def)
qed

lemma sequences_of_length: "length (sequences_of ds) = sum_list (map (\<lambda>d. length (di_members d)) ds)"
  by (induction ds) (simp_all add: sequences_of_def)

lemma schedule_members:
  assumes "schedule tn f = (ds, f')" and "fab_run cfg clock f" and "permitted (Schedule tn) f"
  shows "sum_list (map (\<lambda>d. length (di_members d)) ds) \<le> length (fb_seqs f)"
    and "d \<in> set ds \<Longrightarrow> unat (fb_next_dispatch f) \<le> unat (di_id d)"
proof -
  obtain cs fs f2 out f3 where ph: "phases tn f cs fs f2 out f3" and sch: "schedule tn f = (out, refresh_derived_stats f3)"
    by (rule schedule_phases)
  note P = phases_safe [OF ph assms(2,3)]
  have ds: "ds = out" using sch assms(1) by simp
  have "length (sequences_of ds) \<le> card (set (map fst (fb_seqs f)))"
    unfolding ds distinct_card [OF P(6), symmetric] using P(5,7) by (intro card_mono) auto
  also have "\<dots> \<le> length (fb_seqs f)" using card_length [of "map fst (fb_seqs f)"] by simp
  finally show "sum_list (map (\<lambda>d. length (di_members d)) ds) \<le> length (fb_seqs f)" by (simp add: sequences_of_length)
  assume "d \<in> set ds"
  then have "unat (di_id d) \<in> set (map (\<lambda>d. unat (di_id d)) out)" by (simp add: ds)
  then show "unat (fb_next_dispatch f) \<le> unat (di_id d)" unfolding P(8) by simp
qed

text \<open>C8: In every run, a scheduling cycle is safe. No sequence is dispatched twice, neither in two groups
  nor in one. The dispatches get consecutive fresh ids. Each carries at least one member and no more
  than the group limit, all asking for the same compatibility key; it goes to a registered healthy worker
  that supports the key's model, revision and device; and every member is marked in flight under this
  dispatch, with tokens left in its budget.\<close>

theorem schedule_sound:
  assumes "fab_run cfg clock f" and "permitted (Schedule tn) f"
  shows "case schedule tn f of (ds, f') \<Rightarrow>
    distinct (concat (map (\<lambda>d. map ms_sequence (di_members d)) ds)) \<and>
    map (\<lambda>d. unat (di_id d)) ds = [unat (fb_next_dispatch f) ..< unat (fb_next_dispatch f')] \<and>
    (\<forall>d \<in> set ds. di_members d \<noteq> [] \<and> di_epoch d = fb_epoch f \<and>
      length (di_members d) \<le> max 1 (unat (gl_max_sequences (cf_group_limits (fb_cfg f)))) \<and>
      (\<exists>w \<in> snd ` set (fb_workers f). wd_id w = di_worker d \<and> wd_device w = di_device d \<and> wd_health w = WH_Healthy \<and>
        list_ex (\<lambda>mk. ck_model mk = ck_model (di_key d) \<and> ck_revision mk = ck_revision (di_key d) \<and>
                       ck_device mk = ck_device (di_key d)) (wd_supported_models w)) \<and>
      (\<forall>ms \<in> set (di_members d). \<exists>s. umap_find (fb_seqs f') (ms_sequence ms) = Some s \<and> s_has_inflight s \<and>
        s_in_flight_dispatch s = di_id d \<and> s_in_flight_worker s = di_worker d \<and> \<not> budget_exhausted (s_budget s) \<and>
        key_to_string (key_for_model f (s_req s)) = key_to_string (di_key d)))"
proof -
  obtain cs fs f2 out f3 where ph: "phases tn f cs fs f2 out f3" and sch: "schedule tn f = (out, refresh_derived_stats f3)"
    by (rule schedule_phases)
  note P = phases_safe [OF ph assms]
  show ?thesis
    unfolding sch prod.case
  proof (intro conjI ballI)
    show "distinct (concat (map (\<lambda>d. map ms_sequence (di_members d)) out))" using P(6) by (simp add: sequences_of_def)
    show "map (\<lambda>d. unat (di_id d)) out = [unat (fb_next_dispatch f) ..< unat (fb_next_dispatch (refresh_derived_stats f3))]"
      using P(8) by simp
    fix d assume "d \<in> set out"
    then obtain gr where gr: "gr \<in> set fs" "placed f2 f3 gr d" using P(9) by blast
    from phases_dispatch [OF ph assms gr(2,1)] show "di_members d \<noteq> []" "di_epoch d = fb_epoch f"
      "length (di_members d) \<le> max 1 (unat (gl_max_sequences (cf_group_limits (fb_cfg f))))"
      "\<exists>w \<in> snd ` set (fb_workers f). wd_id w = di_worker d \<and> wd_device w = di_device d \<and> wd_health w = WH_Healthy \<and>
        list_ex (\<lambda>mk. ck_model mk = ck_model (di_key d) \<and> ck_revision mk = ck_revision (di_key d) \<and>
                       ck_device mk = ck_device (di_key d)) (wd_supported_models w)"
      unfolding served_def by blast+
    fix ms assume "ms \<in> set (di_members d)"
    then have "ms_sequence ms \<in> set (fm_members gr)" using gr(2) unfolding placed_def by (metis image_eqI set_map)
    from phases_member [OF ph assms gr(2,1) this] show "\<exists>s. umap_find (fb_seqs (refresh_derived_stats f3)) (ms_sequence ms) = Some s \<and>
        s_has_inflight s \<and> s_in_flight_dispatch s = di_id d \<and> s_in_flight_worker s = di_worker d \<and>
        \<not> budget_exhausted (s_budget s) \<and> key_to_string (key_for_model f (s_req s)) = key_to_string (di_key d)"
      by simp
  qed
qed

theorem schedule_sound_witness:
  "\<exists>d. fst (schedule 10 sc_admitted) = [d] \<and> unat (di_id d) = 1 \<and> distinct (map ms_sequence (di_members d)) \<and>
     di_members d \<noteq> [] \<and> length (di_members d) \<le> 64"
proof -
  have two: "[Suc 0 ..< 2] = [1]" by (simp add: numeral_2_eq_2)
  have "permitted (Schedule 10) sc_admitted" by (simp add: sc_admitted_eq)
  from schedule_sound [OF sc_reaches(1) this] show ?thesis
    using sc_scheduled_eq(1) sc_scheduled_eq(6)
    by (auto simp: sc_scheduled_def case_prod_beta sc_admitted_eq default_Config_def default_GroupLimits_def two)
qed

end
