(* ===== verification/CpuExecutor.thy ===== *)
theory CpuExecutor
  imports Core
begin

text \<open>
  The CPU decode executor (\<^verbatim>\<open>include/decodefabric/cpu_executor.hpp\<close>, \<^verbatim>\<open>src/cpu_executor.cpp\<close>) and the
  executor contract of \<^verbatim>\<open>include/decodefabric/executor.hpp\<close>.

  The executor is one record: the per-state vectors, the ledger of consumed grants, the consumed
  proposals and the proposal counter. \<open>prepare\<close>, \<open>commit\<close> and \<open>abort\<close> return their result and the
  new executor; each runs under the executor's mutex, so a run is a sequence of these calls.

  \<^verbatim>\<open>tanh\<close>, \<^verbatim>\<open>sin\<close> and \<^verbatim>\<open>sqrt\<close> come from the platform's mathematical library and the measured durations
  from its clock: they are the fields of the environment record \<open>ExecEnv\<close>, arbitrary in every theorem.
  Additions, multiplications and divisions are IEEE double operations, rounded one by one.
\<close>

section \<open>Numeric step\<close>

record ExecEnv =
  lm_tanh :: "double \<Rightarrow> double"
  lm_sin :: "double \<Rightarrow> double"
  lm_sqrt :: "double \<Rightarrow> double"
  ee_elapsed :: "ProposalId \<Rightarrow> Nanoseconds"

definition fnv_mix :: "u64 \<Rightarrow> u64 \<Rightarrow> u64" where
  "fnv_mix h v = (h XOR v) * 1099511628211"

definition state_checksum :: "double list \<Rightarrow> u64" where
  "state_checksum s =
     fold (\<lambda>bits h. fold (\<lambda>i h. (h XOR (drop_bit (8 * i) bits AND 0xFF)) * 1099511628211) [0..<8] h)
       s 1469598103934665603"

definition digest_state :: "double list \<Rightarrow> u64 \<Rightarrow> u64 \<Rightarrow> u64" where
  "digest_state s tokens kv_bytes = fnv_mix (fnv_mix (state_checksum s) tokens) kv_bytes"

definition step_state :: "ExecEnv \<Rightarrow> double list \<Rightarrow> double list" where
  "step_state env state =
    (let N = length state;
         next = map (\<lambda>i.
           let prev = state ! ((i + 1) mod N);
               acc = f64_add (f64_mul 0x3FE0000000000000 (state ! i)) (f64_mul 0x3FD0000000000000 prev)
           in lm_tanh env (f64_add acc (f64_mul 0x3FB999999999999A (lm_sin env (f64_of_int (int i))))))
           [0..<N];
         norm = fold (\<lambda>v n. f64_add n (f64_mul v v)) next 0
     in if f64_less 0 norm
        then (let inv = f64_div 0x3FF0000000000000 (lm_sqrt env norm) in map (\<lambda>v. f64_mul v inv) next)
        else next)"

definition kStateSize :: u64 where
  "kStateSize = 8"

definition xorshift :: "u64 \<Rightarrow> u64" where
  "xorshift h =
    (let h1 = h XOR drop_bit 12 h; h2 = h1 XOR push_bit 25 h1 in h2 XOR drop_bit 27 h2)"

primrec initial_loop :: "nat \<Rightarrow> u64 \<Rightarrow> double list" where
  "initial_loop 0 h = []"
| "initial_loop (Suc n) h =
    (let h' = xorshift h;
         v = h' * 0x2545F4914F6CDD1D;
         d = f64_div (f64_of_int (uint (drop_bit 11 v))) (f64_of_int (2 ^ 53))
     in f64_mul (f64_add (f64_mul d 0x4000000000000000) 0xBFF0000000000000) 0x3FE0000000000000
        # initial_loop n h')"

definition initial_state :: "StateId \<Rightarrow> u64 \<Rightarrow> double list" where
  "initial_state sid seed = initial_loop (unat kStateSize) (seed XOR sid * 0x9E3779B97F4A7C15)"

definition step_token :: "ExecEnv \<Rightarrow> double list \<Rightarrow> u32" where
  "step_token env s = fst (fold (\<lambda>i (best, bestv).
     let v = f64_add (f64_mul (s ! i) (f64_of_int (int i + 1))) (lm_sin env (s ! i))
     in if f64_less bestv v then (of_nat i, v) else (best, bestv))
     [0..<length s] (0, 0xFE37E43C8800759C))"

section \<open>State\<close>

record SeqState =
  ss_state :: "double list"
  ss_tokens :: u64
  ss_kv_bytes :: u64
  ss_eos_enabled :: bool
  ss_eos_target :: u32
  ss_has_tentative :: bool
  ss_tentative_state :: "double list"
  ss_tentative_kv_bytes :: u64
  ss_prepared_proposal :: ProposalId
  ss_prepared_attempt :: AttemptId
  ss_prepared_generation :: DecodeGeneration
  ss_prepared_sequence :: SequenceId
  ss_prepared_worker :: WorkerId
  ss_prepared_worker_boot :: WorkerBootId
  ss_prepared_epoch :: CoordinatorEpoch
  ss_prepared_dispatch :: DispatchId
  ss_prepared_pre_digest :: u64
  ss_prepared_post_digest :: u64

definition default_SeqState :: SeqState where
  "default_SeqState = \<lparr>ss_state = [], ss_tokens = 0, ss_kv_bytes = 0, ss_eos_enabled = False,
     ss_eos_target = 0, ss_has_tentative = False, ss_tentative_state = [], ss_tentative_kv_bytes = 0,
     ss_prepared_proposal = 0, ss_prepared_attempt = 0, ss_prepared_generation = 0,
     ss_prepared_sequence = 0, ss_prepared_worker = 0, ss_prepared_worker_boot = 0,
     ss_prepared_epoch = 0, ss_prepared_dispatch = 0, ss_prepared_pre_digest = 0,
     ss_prepared_post_digest = 0\<rparr>"

record CpuDecodeExecutor =
  cx_states :: "(StateId, SeqState) umap"
  cx_receipts_by_grant :: "(GrantId, MemberReceipt) umap"
  cx_consumed_proposals :: "(ProposalId, bool) umap"
  cx_next_proposal :: u64
  cx_device_id :: DeviceId
  cx_id :: ExecutorId
  cx_device :: DeviceDescriptor

definition new_CpuDecodeExecutor :: "DeviceId \<Rightarrow> CpuDecodeExecutor" where
  "new_CpuDecodeExecutor device_id =
     \<lparr>cx_states = [], cx_receipts_by_grant = [], cx_consumed_proposals = [], cx_next_proposal = 0,
      cx_device_id = device_id, cx_id = 1,
      cx_device = default_DeviceDescriptor\<lparr>dd_id := device_id, dd_backend := BK_CPU,
        dd_name := ''DecodeFabric CPU decode device'', dd_compute_capability_major := 0,
        dd_compute_capability_minor := 0, dd_memory_bytes := 16 * 1024 * 1024 * 1024,
        dd_supported_dtypes := push_bit (unat (DType_val DT_F32)) 1 OR
          push_bit (unat (DType_val DT_F64)) 1\<rparr>\<rparr>"

definition cx_supports :: "CpuDecodeExecutor \<Rightarrow> CompatibilityKey \<Rightarrow> bool" where
  "cx_supports c key \<longleftrightarrow> ck_backend key = BK_CPU \<and> ck_device key = cx_device_id c"

section \<open>Prepare\<close>

definition advance_one :: "ExecEnv \<Rightarrow> SeqState \<Rightarrow> SeqState" where
  "advance_one env st = st\<lparr>ss_state := step_state env (ss_state st), ss_tokens := ss_tokens st + 1,
     ss_kv_bytes := ss_kv_bytes st + 64\<rparr>"

function catch_up :: "ExecEnv \<Rightarrow> u64 \<Rightarrow> SeqState \<Rightarrow> SeqState" where
  "catch_up env g st = (if ss_tokens st < g then catch_up env g (advance_one env st) else st)"
  by pat_completeness auto
termination
proof (relation "measure (\<lambda>(env, g, st). unat g - unat (ss_tokens st))", goal_cases)
  case (2 env g st)
  then have "unat (ss_tokens st + 1) = unat (ss_tokens st) + 1" by (intro unat_add_one)
  then show ?case using 2 by (simp add: advance_one_def word_less_nat_alt)
qed simp

declare catch_up.simps [simp del]

definition ensure_initialized :: "ExecEnv \<Rightarrow> DecodeMemberSpec \<Rightarrow> SeqState \<Rightarrow> SeqState" where
  "ensure_initialized env m st =
    (let st1 =
       (if ss_state st = [] then
          st\<lparr>ss_state := initial_state (sd_id (ms_state m)) (ms_attempt m), ss_tokens := 0,
             ss_kv_bytes := sd_bytes_held (ms_state m),
             ss_eos_enabled := (if length (ms_payload m) \<ge> 1 then ms_payload m ! 0 AND 0x01 \<noteq> 0 else False),
             ss_eos_target := (if length (ms_payload m) \<ge> 2 then ucast (ms_payload m ! 1) else 0)\<rparr>
        else st)
     in catch_up env (ms_generated_tokens m) st1)"

definition clear_tentative :: "SeqState \<Rightarrow> SeqState" where
  "clear_tentative st = st\<lparr>ss_has_tentative := False, ss_tentative_state := [],
     ss_tentative_kv_bytes := 0, ss_prepared_proposal := id_null, ss_prepared_attempt := id_null,
     ss_prepared_generation := id_null, ss_prepared_sequence := id_null,
     ss_prepared_worker := id_null, ss_prepared_worker_boot := id_null,
     ss_prepared_epoch := id_null, ss_prepared_dispatch := id_null,
     ss_prepared_pre_digest := 0, ss_prepared_post_digest := 0\<rparr>"

text \<open>The staging half of \<^verbatim>\<open>prepare_member\<close>: \<open>st\<close> is initialised, caught up and holds no conflicting
  transition; \<open>proposal\<close> is the freshly minted id.\<close>

definition stage_tentative :: "ExecEnv \<Rightarrow> DecodeMemberSpec \<Rightarrow> DecodeExecutionRequest \<Rightarrow> ProposalId \<Rightarrow>
    SeqState \<Rightarrow> SeqState" where
  "stage_tentative env m req proposal st =
    (let next = step_state env (ss_state st) in
     st\<lparr>ss_has_tentative := True, ss_tentative_state := next,
        ss_tentative_kv_bytes := ss_kv_bytes st + 64,
        ss_prepared_proposal := proposal, ss_prepared_attempt := ms_attempt m,
        ss_prepared_generation := ms_generation m, ss_prepared_sequence := ms_sequence m,
        ss_prepared_worker := er_worker req, ss_prepared_worker_boot := er_worker_boot req,
        ss_prepared_epoch := er_epoch req, ss_prepared_dispatch := er_dispatch_id req,
        ss_prepared_pre_digest := digest_state (ss_state st) (ss_tokens st) (ss_kv_bytes st),
        ss_prepared_post_digest := digest_state next (ss_tokens st + 1) (ss_kv_bytes st + 64)\<rparr>)"

definition step_outcome :: "ExecEnv \<Rightarrow> DecodeMemberSpec \<Rightarrow> Nanoseconds \<Rightarrow> SeqState \<Rightarrow> MemberOutcome" where
  "step_outcome env m ns st =
    (let token = step_token env (step_state env (ss_state st));
         mo = default_MemberOutcome\<lparr>mo_sequence := ms_sequence m, mo_kind := MK_StepSuccessContinue,
           mo_attempt := ms_attempt m, mo_generation := ms_generation m, mo_generated := 1,
           mo_token_identifier := ucast token, mo_terminal := False, mo_started_at := 0,
           mo_finished_at := ns, mo_active_ns := ns, mo_kv_bytes_delta := 64,
           mo_kv_bytes_after := ss_kv_bytes st + 64, mo_retryable := False\<rparr>;
         max = ms_generated_tokens m + ms_remaining_budget m
     in if (ss_eos_enabled st \<and> token = ss_eos_target st) \<or> ms_generated_tokens m + 1 \<ge> max
        then mo\<lparr>mo_kind := MK_StepSuccessTerminal, mo_terminal := True\<rparr> else mo)"

definition prepared_member :: "ExecEnv \<Rightarrow> DecodeMemberSpec \<Rightarrow> ProposalId \<Rightarrow> SeqState \<Rightarrow> PreparedMember" where
  "prepared_member env m proposal st =
    (let pre = digest_state (ss_state st) (ss_tokens st) (ss_kv_bytes st);
         post = digest_state (step_state env (ss_state st)) (ss_tokens st + 1) (ss_kv_bytes st + 64);
         ns = ee_elapsed env proposal
     in \<lparr>pm_sequence = ms_sequence m, pm_state = sd_id (ms_state m), pm_attempt = ms_attempt m,
         pm_generation = ms_generation m, pm_dispatch = id_null, pm_epoch = id_null,
         pm_worker = id_null, pm_worker_boot = id_null, pm_proposal = proposal,
         pm_pre_state_digest = pre, pm_post_state_digest = post, pm_delta_digest = fnv_mix pre post,
         pm_outcome = step_outcome env m ns st,
         pm_committed_position_before = ss_tokens st,
         pm_committed_position_after = ss_tokens st + 1, pm_active_ns = ns\<rparr>)"

definition prepare_member :: "ExecEnv \<Rightarrow> DecodeMemberSpec \<Rightarrow> DecodeExecutionRequest \<Rightarrow> CpuDecodeExecutor \<Rightarrow>
    PreparedMember result \<times> CpuDecodeExecutor" where
  "prepare_member env m req c =
    (let sid = sd_id (ms_state m);
         st = ensure_initialized env m (umap_get default_SeqState (cx_states c) sid);
         c1 = c\<lparr>cx_states := umap_set sid st (cx_states c)\<rparr>
     in if ss_has_tentative st \<and> ss_prepared_attempt st = ms_attempt m \<and>
           ss_prepared_generation st = ms_generation m
          then (failed EC_DuplicateCompletion
                  ''duplicate prepare for the same authoritative generation'', c1)
        else if ss_has_tentative st \<and> ss_prepared_attempt st = ms_attempt m
          then (failed EC_TransactionConflict
                  ''prepare out of order: prior generation unresolved'', c1)
        else let st1 = (if ss_has_tentative st then clear_tentative st else st);
                 proposal = cx_next_proposal c + 1
             in (Inr (prepared_member env m proposal st1),
                 c\<lparr>cx_states := umap_set sid (stage_tentative env m req proposal st1) (cx_states c),
                   cx_next_proposal := proposal\<rparr>))"

definition bind_member :: "DecodeExecutionRequest \<Rightarrow> PreparedMember \<Rightarrow> PreparedMember" where
  "bind_member req pm = pm\<lparr>pm_dispatch := er_dispatch_id req, pm_epoch := er_epoch req,
     pm_worker := er_worker req, pm_worker_boot := er_worker_boot req\<rparr>"

fun prepare_loop :: "ExecEnv \<Rightarrow> DecodeExecutionRequest \<Rightarrow> DecodeMemberSpec list \<Rightarrow> PreparedMember list \<Rightarrow>
    CpuDecodeExecutor \<Rightarrow> PreparedMember list result \<times> CpuDecodeExecutor" where
  "prepare_loop env req [] out c = (Inr out, c)"
| "prepare_loop env req (m # ms) out c =
    (case prepare_member env m req c of
       (Inl e, c') \<Rightarrow> (Inl e, c')
     | (Inr pm, c') \<Rightarrow> prepare_loop env req ms (out @ [bind_member req pm]) c')"

definition cx_prepare :: "ExecEnv \<Rightarrow> DecodeExecutionRequest \<Rightarrow> CpuDecodeExecutor \<Rightarrow>
    PreparedDecode result \<times> CpuDecodeExecutor" where
  "cx_prepare env req c =
    (case prepare_loop env req (er_members req) [] c of
       (Inl e, c') \<Rightarrow> (Inl e, c')
     | (Inr pms, c') \<Rightarrow>
         (Inr \<lparr>pd_dispatch_id = er_dispatch_id req, pd_epoch = er_epoch req, pd_worker = er_worker req,
            pd_worker_boot = er_worker_boot req, pd_members = pms,
            pd_group_active_ns = fold (\<lambda>pm t. t + pm_active_ns pm) pms 0,
            pd_group_error = EC_Ok, pd_group_error_message = []\<rparr>, c'))"

section \<open>Commit and abort\<close>

definition receipt_same :: "MemberReceipt \<Rightarrow> CommitGrant \<Rightarrow> bool" where
  "receipt_same existing grant \<longleftrightarrow>
     mr_grant_id existing = cg_grant_id grant \<and> mr_proposal existing = cg_proposal grant \<and>
     mr_sequence existing = cg_sequence grant \<and> mr_state existing = cg_state grant \<and>
     mr_attempt existing = cg_attempt grant \<and> mr_generation existing = cg_generation grant \<and>
     mr_worker_boot existing = cg_worker_boot grant \<and> mr_epoch existing = cg_epoch grant \<and>
     mr_dispatch existing = cg_dispatch grant \<and>
     mr_committed_position_before existing = cg_committed_position grant \<and>
     mr_pre_state_digest existing = cg_pre_state_digest grant \<and>
     mr_post_state_digest existing = cg_post_state_digest grant"

definition grant_receipt :: "CommitGrant \<Rightarrow> SeqState \<Rightarrow> MemberReceipt" where
  "grant_receipt grant st =
     \<lparr>mr_receipt_id = cg_grant_id grant, mr_grant_id = cg_grant_id grant,
      mr_proposal = cg_proposal grant, mr_epoch = cg_epoch grant, mr_worker = cg_worker grant,
      mr_worker_boot = cg_worker_boot grant, mr_sequence = cg_sequence grant,
      mr_state = cg_state grant, mr_attempt = cg_attempt grant,
      mr_generation = cg_generation grant, mr_dispatch = cg_dispatch grant,
      mr_committed_position_before = ss_tokens st,
      mr_committed_position_after = ss_tokens st + 1,
      mr_pre_state_digest = ss_prepared_pre_digest st,
      mr_post_state_digest = ss_prepared_post_digest st,
      mr_delta_digest = cg_delta_digest grant, mr_outcome_kind = cg_outcome_kind grant,
      mr_terminal = cg_terminal grant, mr_token_identifier = cg_token_identifier grant,
      mr_active_ns = cg_active_ns grant, mr_committed_at = 0\<rparr>"

definition promote :: "SeqState \<Rightarrow> SeqState" where
  "promote st = clear_tentative (st\<lparr>ss_state := ss_tentative_state st,
     ss_tokens := ss_tokens st + 1, ss_kv_bytes := ss_tentative_kv_bytes st\<rparr>)"

definition cx_commit :: "CommitGrant \<Rightarrow> CpuDecodeExecutor \<Rightarrow> MemberReceipt result \<times> CpuDecodeExecutor" where
  "cx_commit grant c =
    (case umap_find (cx_receipts_by_grant c) (cg_grant_id grant) of
       Some existing \<Rightarrow>
         if receipt_same existing grant then (Inr existing, c)
         else (failed EC_DuplicateCompletion
                 ''conflicting reuse of an already-consumed commit grant'', c)
     | None \<Rightarrow>
      (case umap_find (cx_states c) (cg_state grant) of
         None \<Rightarrow> (failed EC_UnknownState ''no prepared transition for grant state'', c)
       | Some st \<Rightarrow>
           if \<not> ss_has_tentative st
             then (failed EC_UnknownState ''no prepared transition for grant state'', c)
           else if ss_prepared_proposal st \<noteq> cg_proposal grant \<or>
               ss_prepared_attempt st \<noteq> cg_attempt grant \<or>
               ss_prepared_generation st \<noteq> cg_generation grant \<or>
               ss_prepared_sequence st \<noteq> cg_sequence grant \<or>
               ss_prepared_worker st \<noteq> cg_worker grant \<or>
               ss_prepared_worker_boot st \<noteq> cg_worker_boot grant \<or>
               ss_prepared_epoch st \<noteq> cg_epoch grant \<or>
               ss_prepared_dispatch st \<noteq> cg_dispatch grant
             then (failed EC_SupersededByRetry ''grant proposal/authority mismatch'', c)
           else if ss_prepared_pre_digest st \<noteq> cg_pre_state_digest grant \<or>
               ss_prepared_post_digest st \<noteq> cg_post_state_digest grant
             then (failed EC_StateDigestMismatch ''grant digest mismatch'', c)
           else if ss_tokens st \<noteq> cg_committed_position grant
             then (failed EC_InvalidArgument ''grant committed-position mismatch'', c)
           else let rec = grant_receipt grant st in
             (Inr rec,
              c\<lparr>cx_states := umap_set (cg_state grant) (promote st) (cx_states c),
                cx_consumed_proposals := umap_set (cg_proposal grant) True (cx_consumed_proposals c),
                cx_receipts_by_grant := umap_set (cg_grant_id grant) rec (cx_receipts_by_grant c)\<rparr>)))"

definition cx_abort :: "AbortPrepared \<Rightarrow> CpuDecodeExecutor \<Rightarrow> unit result \<times> CpuDecodeExecutor" where
  "cx_abort abort c =
    (if umap_find (cx_consumed_proposals c) (ab_proposal abort) \<noteq> None
       then (failed EC_AlreadyTerminal ''abort after commit'', c)
     else case umap_find (cx_states c) (ab_state abort) of
         None \<Rightarrow> (Inr (), c)
       | Some st \<Rightarrow>
           if ss_has_tentative st \<and> ss_prepared_proposal st = ab_proposal abort
             then (Inr (), c\<lparr>cx_states := umap_set (ab_state abort) (clear_tentative st) (cx_states c)\<rparr>)
           else (Inr (), c))"

section \<open>Introspection\<close>

definition committed_state_digest :: "CpuDecodeExecutor \<Rightarrow> StateId \<Rightarrow> u64" where
  "committed_state_digest c id' =
    (case umap_find (cx_states c) id' of
       None \<Rightarrow> 0
     | Some st \<Rightarrow> digest_state (ss_state st) (ss_tokens st) (ss_kv_bytes st))"

definition has_prepared :: "CpuDecodeExecutor \<Rightarrow> StateId \<Rightarrow> ProposalId \<Rightarrow> bool" where
  "has_prepared c id' proposal =
    (case umap_find (cx_states c) id' of
       None \<Rightarrow> False
     | Some st \<Rightarrow> ss_has_tentative st \<and> ss_prepared_proposal st = proposal)"

definition tentative_tokens :: "CpuDecodeExecutor \<Rightarrow> StateId \<Rightarrow> u64" where
  "tentative_tokens c id' =
    (case umap_find (cx_states c) id' of
       None \<Rightarrow> 0
     | Some st \<Rightarrow> ss_tokens st + (if ss_has_tentative st then 1 else 0))"

definition committed_tokens :: "CpuDecodeExecutor \<Rightarrow> StateId \<Rightarrow> u64" where
  "committed_tokens c id' =
    (case umap_find (cx_states c) id' of None \<Rightarrow> 0 | Some st \<Rightarrow> ss_tokens st)"

section \<open>The executor contract\<close>

datatype exec_op = OpPrepare DecodeExecutionRequest | OpCommit CommitGrant | OpAbort AbortPrepared

text \<open>What a client of \<^verbatim>\<open>DecodeExecutor\<close> relies on: a refused commit changes nothing, a commit touches
  one state only, an abort never touches committed state, and a grant that has been consumed stays
  consumed: repeating it returns the receipt again and changes nothing.\<close>

locale decode_executor =
  fixes prepare :: "DecodeExecutionRequest \<Rightarrow> 's \<Rightarrow> PreparedDecode result \<times> 's"
    and commit :: "CommitGrant \<Rightarrow> 's \<Rightarrow> MemberReceipt result \<times> 's"
    and abort :: "AbortPrepared \<Rightarrow> 's \<Rightarrow> unit result \<times> 's"
    and committed :: "'s \<Rightarrow> StateId \<Rightarrow> 'v"
  assumes commit_refused: "commit g s = (Inl e, s') \<Longrightarrow> s' = s"
    and commit_repeat: "commit g s = (Inr r, s') \<Longrightarrow> commit g s' = (Inr r, s')"
    and commit_local: "sid \<noteq> cg_state g \<Longrightarrow> committed (snd (commit g s)) sid = committed s sid"
    and abort_committed: "committed (snd (abort a s)) sid = committed s sid"
    and prepare_settled: "commit g s = (Inr r, s) \<Longrightarrow>
      commit g (snd (prepare q s)) = (Inr r, snd (prepare q s))"
    and commit_settled: "commit g s = (Inr r, s) \<Longrightarrow>
      commit g (snd (commit h s)) = (Inr r, snd (commit h s))"
    and abort_settled: "commit g s = (Inr r, s) \<Longrightarrow>
      commit g (snd (abort a s)) = (Inr r, snd (abort a s))"
begin

primrec exec :: "exec_op \<Rightarrow> 's \<Rightarrow> 's" where
  "exec (OpPrepare q) s = snd (prepare q s)"
| "exec (OpCommit g) s = snd (commit g s)"
| "exec (OpAbort a) s = snd (abort a s)"

lemma settled_exec: "commit g s = (Inr r, s) \<Longrightarrow> commit g (exec x s) = (Inr r, exec x s)"
  by (cases x) (simp_all add: prepare_settled commit_settled abort_settled)

lemma settled_run: "commit g s = (Inr r, s) \<Longrightarrow> commit g (fold exec xs s) = (Inr r, fold exec xs s)"
proof (induction xs arbitrary: s)
  case (Cons x xs)
  then have "commit g (exec x s) = (Inr r, exec x s)" by (intro settled_exec)
  then show ?case using Cons.IH by simp
qed simp

text \<open>A consumed grant returns its receipt for ever.\<close>

lemma consumed_for_ever:
  assumes "commit g s = (Inr r, s')"
  shows "commit g (fold exec xs s') = (Inr r, fold exec xs s')"
  using commit_repeat [OF assms] by (rule settled_run)

text \<open>Aborts and refused commits leave every committed value alone.\<close>

lemma inert_run:
  assumes "\<And>x. x \<in> set xs \<Longrightarrow> (\<exists>a. x = OpAbort a) \<or> (\<exists>g. x = OpCommit g \<and> cg_state g \<noteq> sid)"
  shows "committed (fold exec xs s) sid = committed s sid"
  using assms
proof (induction xs arbitrary: s)
  case (Cons x xs)
  have "committed (exec x s) sid = committed s sid"
    using Cons.prems [of x] by (auto simp: abort_committed commit_local)
  then show ?case using Cons by simp
qed simp

end

section \<open>The CPU executor meets the contract\<close>

definition cx_committed :: "CpuDecodeExecutor \<Rightarrow> StateId \<Rightarrow> (double list \<times> u64 \<times> u64) option" where
  "cx_committed c sid =
     map_option (\<lambda>st. (ss_state st, ss_tokens st, ss_kv_bytes st)) (umap_find (cx_states c) sid)"

lemma clear_tentative_simps [simp]:
  "ss_state (clear_tentative st) = ss_state st"
  "ss_tokens (clear_tentative st) = ss_tokens st"
  "ss_kv_bytes (clear_tentative st) = ss_kv_bytes st"
  "\<not> ss_has_tentative (clear_tentative st)"
  by (simp_all add: clear_tentative_def)

lemma promote_simps [simp]:
  "ss_state (promote st) = ss_tentative_state st"
  "ss_tokens (promote st) = ss_tokens st + 1"
  "ss_kv_bytes (promote st) = ss_tentative_kv_bytes st"
  "\<not> ss_has_tentative (promote st)"
  by (simp_all add: promote_def)

lemma stage_tentative_simps [simp]:
  "ss_state (stage_tentative env m q p st) = ss_state st"
  "ss_tokens (stage_tentative env m q p st) = ss_tokens st"
  "ss_kv_bytes (stage_tentative env m q p st) = ss_kv_bytes st"
  "ss_has_tentative (stage_tentative env m q p st)"
  "ss_prepared_proposal (stage_tentative env m q p st) = p"
  by (simp_all add: stage_tentative_def Let_def)

text \<open>The two ways a commit succeeds: from the ledger, or by promoting the matching transition.\<close>

lemma cx_commit_Inr_cases:
  assumes "cx_commit g c = (Inr r, c')"
  obtains
    (ledger) "umap_find (cx_receipts_by_grant c) (cg_grant_id g) = Some r" "receipt_same r g" "c' = c"
  | (promoted) st where "umap_find (cx_receipts_by_grant c) (cg_grant_id g) = None"
      "umap_find (cx_states c) (cg_state g) = Some st" "ss_has_tentative st"
      "ss_prepared_proposal st = cg_proposal g"
      "ss_prepared_pre_digest st = cg_pre_state_digest g"
      "ss_prepared_post_digest st = cg_post_state_digest g"
      "ss_tokens st = cg_committed_position g" "r = grant_receipt g st"
      "c' = c\<lparr>cx_states := umap_set (cg_state g) (promote st) (cx_states c),
         cx_consumed_proposals := umap_set (cg_proposal g) True (cx_consumed_proposals c),
         cx_receipts_by_grant := umap_set (cg_grant_id g) r (cx_receipts_by_grant c)\<rparr>"
  using assms that unfolding cx_commit_def Let_def
  by (auto split: option.splits if_splits simp: failed_def)

lemma cx_commit_Inl: "cx_commit g c = (Inl e, c') \<Longrightarrow> c' = c"
  by (auto simp: cx_commit_def Let_def failed_def split: option.splits if_splits)

lemma receipt_same_grant_receipt [simp]:
  "ss_prepared_pre_digest st = cg_pre_state_digest g \<Longrightarrow>
   ss_prepared_post_digest st = cg_post_state_digest g \<Longrightarrow>
   ss_tokens st = cg_committed_position g \<Longrightarrow> receipt_same (grant_receipt g st) g"
  by (simp add: receipt_same_def grant_receipt_def)

lemma cx_commit_settled_iff:
  "cx_commit g c = (Inr r, c) \<longleftrightarrow>
     umap_find (cx_receipts_by_grant c) (cg_grant_id g) = Some r \<and> receipt_same r g"
proof
  assume c: "cx_commit g c = (Inr r, c)"
  then show "umap_find (cx_receipts_by_grant c) (cg_grant_id g) = Some r \<and> receipt_same r g"
  proof (cases rule: cx_commit_Inr_cases)
    case (promoted st)
    have "umap_find (cx_receipts_by_grant c) (cg_grant_id g) = Some r"
      by (subst promoted(9)) simp
    with promoted(1) have False by simp
    then show ?thesis ..
  qed simp
qed (simp add: cx_commit_def)

lemma prepare_member_ledger [simp]:
  "cx_receipts_by_grant (snd (prepare_member env m q c)) = cx_receipts_by_grant c"
  "cx_consumed_proposals (snd (prepare_member env m q c)) = cx_consumed_proposals c"
  by (simp_all add: prepare_member_def Let_def)

lemma prepare_loop_ledger [simp]:
  "cx_receipts_by_grant (snd (prepare_loop env q ms out c)) = cx_receipts_by_grant c"
proof (induction ms arbitrary: out c)
  case (Cons m ms)
  obtain x c' where x: "prepare_member env m q c = (x, c')" by force
  then have "cx_receipts_by_grant c' = cx_receipts_by_grant c"
    using prepare_member_ledger(1) [of env m q c] by simp
  then show ?case using Cons x by (cases x) simp_all
qed simp

lemma cx_prepare_ledger [simp]:
  "cx_receipts_by_grant (snd (cx_prepare env q c)) = cx_receipts_by_grant c"
proof -
  obtain x c' where x: "prepare_loop env q (er_members q) [] c = (x, c')" by force
  then have "cx_receipts_by_grant c' = cx_receipts_by_grant c"
    by (metis prepare_loop_ledger snd_conv)
  then show ?thesis using x by (cases x) (simp_all add: cx_prepare_def)
qed

lemma cx_abort_ledger [simp]:
  "cx_receipts_by_grant (snd (cx_abort a c)) = cx_receipts_by_grant c"
  by (simp add: cx_abort_def split: option.splits)

lemma cx_commit_ledger_kept:
  "umap_find (cx_receipts_by_grant c) i = Some r \<Longrightarrow>
   umap_find (cx_receipts_by_grant (snd (cx_commit h c))) i = Some r"
  by (auto simp: cx_commit_def Let_def split: option.splits)

interpretation cpu: decode_executor "cx_prepare env" cx_commit cx_abort cx_committed
proof
  show "c' = c" if "cx_commit g c = (Inl e, c')" for g c e c'
    using that by (rule cx_commit_Inl)
  show "cx_commit g c' = (Inr r, c')" if "cx_commit g c = (Inr r, c')" for g c r c'
    using that
  proof (cases rule: cx_commit_Inr_cases)
    case ledger
    with that show ?thesis by simp
  next
    case (promoted st)
    then show ?thesis by (simp add: cx_commit_settled_iff)
  qed
  show "cx_committed (snd (cx_commit g c)) sid = cx_committed c sid" if "sid \<noteq> cg_state g" for g c sid
    using that by (auto simp: cx_committed_def cx_commit_def Let_def split: option.splits)
  show "cx_committed (snd (cx_abort a c)) sid = cx_committed c sid" for a c sid
    by (auto simp: cx_committed_def cx_abort_def split: option.splits)
qed (simp_all add: cx_commit_settled_iff cx_commit_ledger_kept)

end
