(* ===== verification/ExecutorTrace.thy ===== *)
theory ExecutorTrace
  imports CpuExecutor
begin

text \<open>
  Runs of the CPU executor. A run is any interleaving of prepares, aborts and commits; a commit is
  called with a grant for a member that some earlier prepare returned (\<open>grant_for\<close>), which is what
  the coordinator issues. The run carries the returned members as history.

  Shown here, by rule induction over runs: every committed state vector is exactly the number of
  committed tokens many applications of the deterministic step to the initial vector, so no
  interleaving applies a step twice, skips one or commits half of one; and no proposal is ever
  consumed by two grants.
\<close>

section \<open>Trajectories\<close>

definition on_track :: "ExecEnv \<Rightarrow> double list \<Rightarrow> u64 \<Rightarrow> SeqState \<Rightarrow> bool" where
  "on_track env s0 kv0 st \<longleftrightarrow>
     ss_state st = (step_state env ^^ unat (ss_tokens st)) s0 \<and>
     ss_kv_bytes st = kv0 + 64 * ss_tokens st"

definition staged_at :: "ExecEnv \<Rightarrow> double list \<Rightarrow> u64 \<Rightarrow> u64 \<Rightarrow> SeqState \<Rightarrow> bool" where
  "staged_at env s0 kv0 n st \<longleftrightarrow>
     ss_tentative_state st = (step_state env ^^ (unat n + 1)) s0 \<and>
     ss_tentative_kv_bytes st = kv0 + 64 * (n + 1)"

lemma length_step_state [simp]: "length (step_state env s) = length s"
  by (simp add: step_state_def Let_def)

lemma length_step_power [simp]: "length ((step_state env ^^ n) s) = length s"
  by (induction n) auto

lemma length_initial_loop [simp]: "length (initial_loop n h) = n"
  by (induction n arbitrary: h) (auto simp: Let_def)

lemma step_power_initial_nonempty [simp]:
  "(step_state env ^^ n) (initial_state sid a) \<noteq> []"
  "[] \<noteq> (step_state env ^^ n) (initial_state sid a)"
proof -
  have "length ((step_state env ^^ n) (initial_state sid a)) = 8"
    by (simp add: initial_state_def kStateSize_def)
  then show "(step_state env ^^ n) (initial_state sid a) \<noteq> []"
    and "[] \<noteq> (step_state env ^^ n) (initial_state sid a)"
    by (metis list.size(3) zero_neq_numeral)+
qed

lemma advance_one_on_track:
  assumes "on_track env s0 kv0 st" and "ss_tokens st < g"
  shows "on_track env s0 kv0 (advance_one env st)"
  using assms unat_add_one [OF assms(2)] by (simp add: on_track_def advance_one_def algebra_simps)

lemma catch_up_invariant:
  assumes "\<And>st. P st \<Longrightarrow> ss_tokens st < g \<Longrightarrow> P (advance_one env st)" and "P st"
  shows "P (catch_up env g st)"
  using assms
proof (induction env g st rule: catch_up.induct)
  case (1 env g st)
  show ?case
  proof (cases "ss_tokens st < g")
    case True
    then have "P (catch_up env g (advance_one env st))" using 1 by blast
    then show ?thesis using True by (simp add: catch_up.simps [of env g st])
  next
    case False
    then show ?thesis using 1(3) by (simp add: catch_up.simps [of env g st])
  qed
qed

lemma catch_up_on_track: "on_track env s0 kv0 st \<Longrightarrow> on_track env s0 kv0 (catch_up env g st)"
  by (rule catch_up_invariant) (auto intro: advance_one_on_track)

lemma catch_up_tokens: "ss_tokens (catch_up env g st) = max (ss_tokens st) g"
proof (induction env g st rule: catch_up.induct)
  case (1 env g st)
  show ?case
  proof (cases "ss_tokens st < g")
    case True
    then have "ss_tokens st + 1 \<le> g" by (simp add: inc_le)
    then have "max (ss_tokens st + 1) g = g" "max (ss_tokens st) g = g"
      using True by (simp_all add: max.absorb2)
    then show ?thesis
      using True 1 by (simp add: catch_up.simps [of env g st] advance_one_def)
  next
    case False
    then show ?thesis by (simp add: catch_up.simps [of env g st] max_def not_less order.antisym)
  qed
qed

text \<open>Catching up leaves the staged transition alone.\<close>

definition tentative_part :: "SeqState \<Rightarrow> bool \<times> double list \<times> u64 \<times> ProposalId \<times> AttemptId \<times> DecodeGeneration" where
  "tentative_part st = (ss_has_tentative st, ss_tentative_state st, ss_tentative_kv_bytes st,
     ss_prepared_proposal st, ss_prepared_attempt st, ss_prepared_generation st)"

lemma catch_up_tentative [simp]: "tentative_part (catch_up env g st) = tentative_part st"
  by (rule catch_up_invariant) (auto simp: tentative_part_def advance_one_def)

lemma ensure_initialized_tentative [simp]: "tentative_part (ensure_initialized env m st) = tentative_part st"
  by (simp add: ensure_initialized_def Let_def) (simp add: tentative_part_def)

lemma tentative_part_simps:
  "tentative_part st = tentative_part st' \<Longrightarrow> ss_has_tentative st = ss_has_tentative st'"
  "tentative_part st = tentative_part st' \<Longrightarrow> ss_prepared_proposal st = ss_prepared_proposal st'"
  "tentative_part st = tentative_part st' \<Longrightarrow> staged_at env s0 kv0 n st = staged_at env s0 kv0 n st'"
  by (simp_all add: tentative_part_def staged_at_def)

lemma stage_tentative_staged:
  "on_track env s0 kv0 st \<Longrightarrow> staged_at env s0 kv0 (ss_tokens st) (stage_tentative env m q p st)"
  by (simp add: on_track_def staged_at_def stage_tentative_def Let_def algebra_simps)

section \<open>Runs\<close>

definition grant_for :: "PreparedMember \<Rightarrow> CommitGrant \<Rightarrow> bool" where
  "grant_for pm g \<longleftrightarrow> cg_proposal g = pm_proposal pm \<and> cg_state g = pm_state pm \<and>
     cg_pre_state_digest g = pm_pre_state_digest pm \<and>
     cg_post_state_digest g = pm_post_state_digest pm \<and>
     cg_committed_position g = pm_committed_position_before pm \<and>
     cg_committed_position g < - 1"

text \<open>The 64-bit proposal counter does not wrap within a run.\<close>

definition proposals_left :: "DecodeExecutionRequest \<Rightarrow> CpuDecodeExecutor \<Rightarrow> bool" where
  "proposals_left q c \<longleftrightarrow> unat (cx_next_proposal c) + length (er_members q) < 2 ^ 64"

inductive exec_run :: "ExecEnv \<Rightarrow> DeviceId \<Rightarrow> CpuDecodeExecutor \<Rightarrow> PreparedMember set \<Rightarrow> bool"
  for env dev where
  start: "exec_run env dev (new_CpuDecodeExecutor dev) {}"
| prepared: "exec_run env dev c I \<Longrightarrow> proposals_left q c \<Longrightarrow>
    cx_prepare env q c = (Inr pd, c') \<Longrightarrow> exec_run env dev c' (I \<union> set (pd_members pd))"
| prepare_failed: "exec_run env dev c I \<Longrightarrow> proposals_left q c \<Longrightarrow>
    cx_prepare env q c = (Inl e, c') \<Longrightarrow> exec_run env dev c' I"
| committed: "exec_run env dev c I \<Longrightarrow> pm \<in> I \<Longrightarrow> grant_for pm g \<Longrightarrow>
    cx_commit g c = (x, c') \<Longrightarrow> exec_run env dev c' I"
| aborted: "exec_run env dev c I \<Longrightarrow> cx_abort a c = (x, c') \<Longrightarrow> exec_run env dev c' I"

text \<open>The proposal staged for a state, and the two invariants of a run.\<close>

definition staged :: "CpuDecodeExecutor \<Rightarrow> StateId \<Rightarrow> ProposalId option" where
  "staged c sid = (case umap_find (cx_states c) sid of
     Some st \<Rightarrow> if ss_has_tentative st then Some (ss_prepared_proposal st) else None
   | None \<Rightarrow> None)"

definition proposals_ok :: "CpuDecodeExecutor \<Rightarrow> PreparedMember set \<Rightarrow> bool" where
  "proposals_ok c I \<longleftrightarrow>
     (\<forall>pm \<in> I. unat (pm_proposal pm) \<le> unat (cx_next_proposal c)) \<and>
     (\<forall>sid p. staged c sid = Some p \<longrightarrow> unat p \<le> unat (cx_next_proposal c)) \<and>
     (\<forall>sid sid' p. staged c sid = Some p \<longrightarrow> staged c sid' = Some p \<longrightarrow> sid = sid') \<and>
     (\<forall>i r. umap_find (cx_receipts_by_grant c) i = Some r \<longrightarrow>
        unat (mr_proposal r) \<le> unat (cx_next_proposal c) \<and> (\<forall>sid. staged c sid \<noteq> Some (mr_proposal r))) \<and>
     (\<forall>i j r r'. umap_find (cx_receipts_by_grant c) i = Some r \<longrightarrow>
        umap_find (cx_receipts_by_grant c) j = Some r' \<longrightarrow> mr_proposal r = mr_proposal r' \<longrightarrow> i = j)"

definition seq_ok :: "ExecEnv \<Rightarrow> PreparedMember set \<Rightarrow> StateId \<Rightarrow> SeqState \<Rightarrow> bool" where
  "seq_ok env I sid st \<longleftrightarrow>
     (\<exists>a kv0. on_track env (initial_state sid a) kv0 st \<and>
        (ss_has_tentative st \<longrightarrow>
           (\<exists>n. staged_at env (initial_state sid a) kv0 n st \<and>
              (\<forall>pm \<in> I. pm_proposal pm = ss_prepared_proposal st \<longrightarrow>
                 pm_committed_position_before pm = n))))"

definition seqs_ok :: "ExecEnv \<Rightarrow> CpuDecodeExecutor \<Rightarrow> PreparedMember set \<Rightarrow> bool" where
  "seqs_ok env c I \<longleftrightarrow> (\<forall>sid st. umap_find (cx_states c) sid = Some st \<longrightarrow> seq_ok env I sid st)"

lemma seq_ok_mono: "seq_ok env J sid st \<Longrightarrow> I \<subseteq> J \<Longrightarrow> seq_ok env I sid st"
  unfolding seq_ok_def by (meson subsetD)

lemma seqs_ok_mono: "seqs_ok env c J \<Longrightarrow> I \<subseteq> J \<Longrightarrow> seqs_ok env c I"
  unfolding seqs_ok_def using seq_ok_mono by blast

lemma proposals_ok_mono: "proposals_ok c J \<Longrightarrow> I \<subseteq> J \<Longrightarrow> proposals_ok c I"
  unfolding proposals_ok_def by blast

lemma proposals_okD:
  assumes "proposals_ok c I"
  shows "pm \<in> I \<Longrightarrow> unat (pm_proposal pm) \<le> unat (cx_next_proposal c)"
    and "staged c sid = Some p \<Longrightarrow> unat p \<le> unat (cx_next_proposal c)"
    and "staged c sid = Some p \<Longrightarrow> staged c sid' = Some p \<Longrightarrow> sid = sid'"
    and "umap_find (cx_receipts_by_grant c) i = Some r \<Longrightarrow> unat (mr_proposal r) \<le> unat (cx_next_proposal c)"
    and "umap_find (cx_receipts_by_grant c) i = Some r \<Longrightarrow> staged c sid \<noteq> Some (mr_proposal r)"
    and "umap_find (cx_receipts_by_grant c) i = Some r \<Longrightarrow>
      umap_find (cx_receipts_by_grant c) j = Some r' \<Longrightarrow> mr_proposal r = mr_proposal r' \<Longrightarrow> i = j"
  using assms unfolding proposals_ok_def by blast+

lemma seq_ok_nonempty: "seq_ok env I sid st \<Longrightarrow> ss_state st \<noteq> []"
  by (auto simp: seq_ok_def on_track_def)

section \<open>Prepare\<close>

lemma ensure_initialized_ok:
  fixes m :: DecodeMemberSpec
  assumes "seqs_ok env c I"
  defines "st \<equiv> umap_get default_SeqState (cx_states c) (sd_id (ms_state m))"
  shows "seq_ok env I (sd_id (ms_state m)) (ensure_initialized env m st)"
proof (cases "umap_find (cx_states c) (sd_id (ms_state m))")
  case None
  let ?sid = "sd_id (ms_state m)" and ?e = "ensure_initialized env m st"
  have st: "st = default_SeqState" using None by (simp add: st_def umap_get_None)
  have "on_track env (initial_state ?sid (ms_attempt m)) (sd_bytes_held (ms_state m)) ?e"
    unfolding ensure_initialized_def Let_def st
    by (rule catch_up_on_track) (simp add: on_track_def default_SeqState_def)
  moreover have "\<not> ss_has_tentative ?e"
    using tentative_part_simps(1) [OF ensure_initialized_tentative [of env m st]]
    by (simp add: st default_SeqState_def)
  ultimately show ?thesis by (auto simp: seq_ok_def)
next
  case (Some st0)
  let ?e = "ensure_initialized env m st"
  have st: "st = st0" using Some by (simp add: st_def umap_get_Some)
  have ok: "seq_ok env I (sd_id (ms_state m)) st" using assms(1) Some by (simp add: seqs_ok_def st)
  have e: "?e = catch_up env (ms_generated_tokens m) st"
    using seq_ok_nonempty [OF ok] by (simp add: ensure_initialized_def)
  note t = tentative_part_simps [OF ensure_initialized_tentative [of env m st]]
  have "on_track env s0 kv0 st \<Longrightarrow> on_track env s0 kv0 ?e" for s0 kv0
    unfolding e by (rule catch_up_on_track)
  then show ?thesis using ok unfolding seq_ok_def t by blast
qed

lemma seqs_ok_set: "seqs_ok env c I \<Longrightarrow> seq_ok env I sid st \<Longrightarrow>
    seqs_ok env (c\<lparr>cx_states := umap_set sid st (cx_states c)\<rparr>) I"
  by (simp add: seqs_ok_def)

text \<open>A prepare is rejected after the catch-up, or it stages a fresh proposal.\<close>

lemma prepare_member_cases:
  fixes env :: ExecEnv and m :: DecodeMemberSpec and c :: CpuDecodeExecutor
  defines "sid \<equiv> sd_id (ms_state m)"
  defines "st \<equiv> ensure_initialized env m (umap_get default_SeqState (cx_states c) sid)"
  assumes "prepare_member env m q c = (x, c')"
  obtains (rejected) e where "x = Inl e" "c' = c\<lparr>cx_states := umap_set sid st (cx_states c)\<rparr>"
  | (staged) st1 where "st1 = (if ss_has_tentative st then clear_tentative st else st)"
      "x = Inr (prepared_member env m (cx_next_proposal c + 1) st1)"
      "c' = c\<lparr>cx_states := umap_set sid (stage_tentative env m q (cx_next_proposal c + 1) st1) (cx_states c),
         cx_next_proposal := cx_next_proposal c + 1\<rparr>"
  using assms(3) that unfolding prepare_member_def Let_def sid_def [symmetric] st_def [symmetric]
  by (auto simp: failed_def split: if_splits)

lemma prepared_member_simps [simp]:
  "pm_proposal (bind_member q pm) = pm_proposal pm"
  "pm_committed_position_before (bind_member q pm) = pm_committed_position_before pm"
  "pm_proposal (prepared_member env m p st) = p"
  "pm_committed_position_before (prepared_member env m p st) = ss_tokens st"
  by (simp_all add: bind_member_def prepared_member_def Let_def)

lemma fresh_proposal:
  assumes "unat (cx_next_proposal c) + 1 < 2 ^ 64"
  shows "unat (cx_next_proposal c + 1) = unat (cx_next_proposal c) + 1"
  using assms by (simp add: unat_word_ariths)

lemma staged_set:
  "staged (c\<lparr>cx_states := umap_set sid st (cx_states c), cx_next_proposal := n\<rparr>) sid' =
     (if sid' = sid then (if ss_has_tentative st then Some (ss_prepared_proposal st) else None) else staged c sid')"
  "staged (c\<lparr>cx_states := umap_set sid st (cx_states c)\<rparr>) sid' =
     (if sid' = sid then (if ss_has_tentative st then Some (ss_prepared_proposal st) else None) else staged c sid')"
  by (simp_all add: staged_def)

lemma prepare_member_seqs:
  assumes "seqs_ok env c I" and "proposals_ok c I" and n: "unat (cx_next_proposal c) + 1 < 2 ^ 64"
    and "prepare_member env m q c = (x, c')"
  shows "seqs_ok env c' (case x of Inl _ \<Rightarrow> I | Inr pm \<Rightarrow> insert (bind_member q pm) I)"
  using assms(4)
proof (cases rule: prepare_member_cases)
  case (rejected e)
  then show ?thesis using ensure_initialized_ok [OF assms(1)] seqs_ok_set [OF assms(1)] by simp
next
  case st: (staged st1)
  let ?sid = "sd_id (ms_state m)" and ?p = "cx_next_proposal c + 1"
  let ?J = "insert (bind_member q (prepared_member env m ?p st1)) I"
  have fresh: "\<And>pm. pm \<in> I \<Longrightarrow> pm_proposal pm \<noteq> ?p"
    using assms(2) fresh_proposal [OF n] by (fastforce simp: proposals_ok_def)
  have old: "staged c sid \<noteq> Some ?p" for sid
    using assms(2) fresh_proposal [OF n] by (fastforce simp: proposals_ok_def)
  obtain a kv0 where t: "on_track env (initial_state ?sid a) kv0 st1"
    using ensure_initialized_ok [OF assms(1), of m] st(1)
    by (auto simp: seq_ok_def on_track_def split: if_splits)
  then have new: "seq_ok env ?J ?sid (stage_tentative env m q ?p st1)"
    using stage_tentative_staged [OF t, of m q ?p] fresh
    unfolding seq_ok_def by (intro exI [of _ a] exI [of _ kv0]) (auto simp: on_track_def)
  have others: "seq_ok env ?J sid st" if "umap_find (cx_states c) sid = Some st" for sid st
    using that assms(1) old [of sid] unfolding seqs_ok_def seq_ok_def staged_def by fastforce
  show ?thesis using new others st(2,3) by (simp add: seqs_ok_def)
qed

lemma prepare_member_proposals:
  assumes "proposals_ok c I" and n: "unat (cx_next_proposal c) + 1 < 2 ^ 64"
    and "prepare_member env m q c = (x, c')"
  shows "proposals_ok c' (case x of Inl _ \<Rightarrow> I | Inr pm \<Rightarrow> insert (bind_member q pm) I)"
  using assms(3)
proof (cases rule: prepare_member_cases)
  case (rejected e)
  let ?sid = "sd_id (ms_state m)"
  let ?st = "umap_get default_SeqState (cx_states c) ?sid"
  note t = tentative_part_simps [OF ensure_initialized_tentative [of env m ?st]]
  have "staged c' sid = staged c sid" for sid
    unfolding rejected(2) staged_set t
    by (auto simp: staged_def umap_get_def default_SeqState_def split: option.splits)
  then show ?thesis using assms(1) rejected by (simp add: proposals_ok_def)
next
  case (staged st1)
  let ?p = "cx_next_proposal c + 1"
  have old: "staged c sid = Some p \<Longrightarrow> unat p < unat ?p" for sid p
    using assms(1) fresh_proposal [OF n] by (fastforce simp: proposals_ok_def)
  have led: "umap_find (cx_receipts_by_grant c) i = Some r \<Longrightarrow> unat (mr_proposal r) < unat ?p" for i r
    using assms(1) fresh_proposal [OF n] by (fastforce simp: proposals_ok_def)
  have mem: "pm \<in> I \<Longrightarrow> unat (pm_proposal pm) < unat ?p" for pm
    using assms(1) fresh_proposal [OF n] by (fastforce simp: proposals_ok_def)
  have st: "staged c' sid = (if sid = sd_id (ms_state m) then Some ?p else staged c sid)" for sid
    unfolding staged(3) by (simp add: staged_set)
  have c': "cx_next_proposal c' = ?p" "cx_receipts_by_grant c' = cx_receipts_by_grant c"
    by (simp_all add: staged(3))
  have "(case x of Inl _ \<Rightarrow> I | Inr pm \<Rightarrow> insert (bind_member q pm) I) =
      insert (bind_member q (prepared_member env m ?p st1)) I" by (simp add: staged(2))
  moreover have "proposals_ok c' (insert (bind_member q (prepared_member env m ?p st1)) I)"
    unfolding proposals_ok_def st c'
  proof (intro conjI allI impI ballI)
    fix sid sid' p
    assume "(if sid = sd_id (ms_state m) then Some ?p else staged c sid) = Some p"
      and "(if sid' = sd_id (ms_state m) then Some ?p else staged c sid') = Some p"
    then show "sid = sid'"
      using old [of sid p] old [of sid' p] assms(1) by (auto simp: proposals_ok_def split: if_splits)
  next
    fix i j r r'
    assume "umap_find (cx_receipts_by_grant c) i = Some r" and "umap_find (cx_receipts_by_grant c) j = Some r'"
      and "mr_proposal r = mr_proposal r'"
    then show "i = j" using assms(1) by (simp add: proposals_ok_def)
  next
    fix i r sid
    assume r: "umap_find (cx_receipts_by_grant c) i = Some r"
    show "unat (mr_proposal r) \<le> unat ?p" using led [OF r] by simp
    show "(if sid = sd_id (ms_state m) then Some ?p else staged c sid) \<noteq> Some (mr_proposal r)"
      using led [OF r] r assms(1) by (auto simp: proposals_ok_def)
  qed (use old mem in \<open>auto split: if_splits dest: less_imp_le\<close>)
  ultimately show ?thesis by simp
qed

definition exec_inv :: "ExecEnv \<Rightarrow> CpuDecodeExecutor \<Rightarrow> PreparedMember set \<Rightarrow> bool" where
  "exec_inv env c I \<longleftrightarrow> seqs_ok env c I \<and> proposals_ok c I"

lemma exec_inv_mono: "exec_inv env c J \<Longrightarrow> I \<subseteq> J \<Longrightarrow> exec_inv env c I"
  unfolding exec_inv_def using seqs_ok_mono proposals_ok_mono by blast

lemma prepare_member_inv:
  assumes "exec_inv env c I" and "unat (cx_next_proposal c) + 1 < 2 ^ 64"
    and "prepare_member env m q c = (x, c')"
  shows "exec_inv env c' (case x of Inl _ \<Rightarrow> I | Inr pm \<Rightarrow> insert (bind_member q pm) I)"
  using assms prepare_member_seqs prepare_member_proposals unfolding exec_inv_def by blast

lemma prepare_member_next:
  assumes "prepare_member env m q c = (x, c')" and "unat (cx_next_proposal c) + 1 < 2 ^ 64"
  shows "unat (cx_next_proposal c') \<le> unat (cx_next_proposal c) + 1"
  using assms(1) by (cases rule: prepare_member_cases) (use fresh_proposal [OF assms(2)] in simp_all)

lemma prepare_loop_inv:
  assumes "exec_inv env c (I \<union> set out)" and "unat (cx_next_proposal c) + length ms < 2 ^ 64"
    and "prepare_loop env q ms out c = (x, c')"
  shows "exec_inv env c' (I \<union> (case x of Inl _ \<Rightarrow> {} | Inr pms \<Rightarrow> set pms))"
  using assms
proof (induction ms arbitrary: out c)
  case Nil
  then show ?case by auto
next
  case (Cons m ms)
  obtain y c1 where y: "prepare_member env m q c = (y, c1)" by force
  have n: "unat (cx_next_proposal c) + 1 < 2 ^ 64" using Cons.prems(2) by simp
  note inv = prepare_member_inv [OF Cons.prems(1) n y]
  show ?case
  proof (cases y)
    case (Inl e)
    then have "x = Inl e" "c' = c1" using Cons.prems(3) y by simp_all
    then show ?thesis using inv Inl by (auto intro: exec_inv_mono)
  next
    case (Inr pm)
    have "prepare_loop env q ms (out @ [bind_member q pm]) c1 = (x, c')"
      using Cons.prems(3) y Inr by simp
    moreover have "exec_inv env c1 (I \<union> set (out @ [bind_member q pm]))" using inv Inr by simp
    moreover have "unat (cx_next_proposal c1) + length ms < 2 ^ 64"
      using prepare_member_next [OF y n] Cons.prems(2) by simp
    ultimately show ?thesis by (intro Cons.IH)
  qed
qed

lemma cx_prepare_inv:
  assumes "exec_inv env c I" and "proposals_left q c" and "cx_prepare env q c = (x, c')"
  shows "exec_inv env c' (I \<union> (case x of Inl _ \<Rightarrow> {} | Inr pd \<Rightarrow> set (pd_members pd)))"
proof -
  obtain y c1 where y: "prepare_loop env q (er_members q) [] c = (y, c1)" by force
  have "exec_inv env c1 (I \<union> (case y of Inl _ \<Rightarrow> {} | Inr pms \<Rightarrow> set pms))"
  proof (rule prepare_loop_inv [OF _ _ y])
    show "exec_inv env c (I \<union> set [])" using assms(1) by simp
    show "unat (cx_next_proposal c) + length (er_members q) < 2 ^ 64"
      using assms(2) unfolding proposals_left_def .
  qed
  then show ?thesis
    using assms(3) unfolding cx_prepare_def y by (cases y) auto
qed

section \<open>Commit and abort\<close>

lemma seqs_ok_states: "cx_states c' = cx_states c \<Longrightarrow> seqs_ok env c' I = seqs_ok env c I"
  by (simp add: seqs_ok_def)

lemma promote_ok:
  assumes "seq_ok env I sid st" and "ss_has_tentative st" and "pm \<in> I"
    and "pm_proposal pm = ss_prepared_proposal st" and "pm_committed_position_before pm = ss_tokens st"
    and "ss_tokens st < - 1"
  shows "seq_ok env I sid (promote st)"
proof -
  obtain a kv0 n where "on_track env (initial_state sid a) kv0 st"
      "staged_at env (initial_state sid a) kv0 n st" "n = ss_tokens st"
    using assms(1-5) by (auto simp: seq_ok_def)
  then have "on_track env (initial_state sid a) kv0 (promote st)"
    using unat_add_one [OF assms(6)] by (simp add: on_track_def staged_at_def)
  then show ?thesis by (auto simp: seq_ok_def)
qed

lemma cx_commit_inv:
  assumes "exec_inv env c I" and "pm \<in> I" and "grant_for pm g" and "cx_commit g c = (x, c')"
  shows "exec_inv env c' I"
proof (cases x)
  case (Inl e)
  then show ?thesis using assms cx_commit_Inl by metis
next
  case (Inr r)
  with assms(4) have "cx_commit g c = (Inr r, c')" by simp
  then show ?thesis
  proof (cases rule: cx_commit_Inr_cases)
    case ledger
    then show ?thesis using assms(1) by simp
  next
    case (promoted st)
    have "seq_ok env I (cg_state g) (promote st)"
      using assms(1-3) promoted(2-7) by (intro promote_ok) (auto simp: exec_inv_def seqs_ok_def grant_for_def)
    then have "seqs_ok env c' I"
      using assms(1) unfolding promoted(9) exec_inv_def seqs_ok_def by simp
    moreover have "proposals_ok c' I"
    proof -
      have s: "staged c' sid = (if sid = cg_state g then None else staged c sid)" for sid
        by (simp add: staged_def promoted(9))
      have p: "staged c (cg_state g) = Some (mr_proposal r)"
        using promoted(2-4,8) by (simp add: staged_def grant_receipt_def)
      have n: "cx_next_proposal c' = cx_next_proposal c"
        "cx_receipts_by_grant c' = umap_set (cg_grant_id g) r (cx_receipts_by_grant c)"
        by (simp_all add: promoted(9))
      have ok: "proposals_ok c I" using assms(1) by (simp add: exec_inv_def)
      show ?thesis
        unfolding proposals_ok_def s n umap_find_set
      proof (intro conjI allI impI ballI)
        fix i j r1 r2
        assume "(if i = cg_grant_id g then Some r else umap_find (cx_receipts_by_grant c) i) = Some r1"
          and "(if j = cg_grant_id g then Some r else umap_find (cx_receipts_by_grant c) j) = Some r2"
          and "mr_proposal r1 = mr_proposal r2"
        then show "i = j"
          using proposals_okD(5,6) [OF ok] p by (metis option.inject)
      next
        fix i r1 sid
        assume r1: "(if i = cg_grant_id g then Some r else umap_find (cx_receipts_by_grant c) i) = Some r1"
        show "unat (mr_proposal r1) \<le> unat (cx_next_proposal c)"
          using r1 proposals_okD(2,4) [OF ok] p by (auto split: if_splits)
        show "(if sid = cg_state g then None else staged c sid) \<noteq> Some (mr_proposal r1)"
          using r1 proposals_okD(3,5) [OF ok] p by (auto split: if_splits)
      qed (use proposals_okD(1-3) [OF ok] in \<open>auto split: if_splits\<close>)
    qed
    ultimately show ?thesis by (simp add: exec_inv_def)
  qed
qed

lemma proposals_ok_unstage:
  assumes "proposals_ok c I" and "\<And>sid p. staged c' sid = Some p \<Longrightarrow> staged c sid = Some p"
    and "cx_next_proposal c' = cx_next_proposal c" and "cx_receipts_by_grant c' = cx_receipts_by_grant c"
  shows "proposals_ok c' I"
  using assms(1) unfolding proposals_ok_def assms(3,4) using assms(2) by blast

lemma cx_abort_inv:
  assumes "exec_inv env c I" and "cx_abort a c = (x, c')"
  shows "exec_inv env c' I"
proof -
  consider "c' = c" | st where "umap_find (cx_states c) (ab_state a) = Some st"
      "c' = c\<lparr>cx_states := umap_set (ab_state a) (clear_tentative st) (cx_states c)\<rparr>"
    using assms(2) unfolding cx_abort_def
    by (cases "umap_find (cx_states c) (ab_state a)") (simp_all split: if_splits)
  then show ?thesis
  proof cases
    case 1
    then show ?thesis using assms(1) by simp
  next
    case (2 st)
    have "seq_ok env I (ab_state a) st"
      using assms(1) 2(1) by (simp add: exec_inv_def seqs_ok_def)
    then have "seq_ok env I (ab_state a) (clear_tentative st)"
      unfolding seq_ok_def on_track_def by (simp only: clear_tentative_simps) blast
    then have "seqs_ok env c' I"
      using assms(1) unfolding 2(2) exec_inv_def by (blast intro: seqs_ok_set)
    moreover have "proposals_ok c' I"
      using assms(1) unfolding exec_inv_def
      by (elim conjE proposals_ok_unstage) (simp_all add: 2(2) staged_set split: if_splits)
    ultimately show ?thesis by (simp add: exec_inv_def)
  qed
qed

lemma exec_run_inv: "exec_run env dev c I \<Longrightarrow> exec_inv env c I"
proof (induction rule: exec_run.induct)
  case start
  show ?case
    by (simp add: exec_inv_def seqs_ok_def proposals_ok_def staged_def new_CpuDecodeExecutor_def)
next
  case (prepared c I q pd c')
  then show ?case using cx_prepare_inv [of env c I q "Inr pd" c'] by simp
next
  case (prepare_failed c I q e c')
  then show ?case using cx_prepare_inv [of env c I q "Inl e" c'] by simp
next
  case (committed c I pm g x c')
  then show ?case using cx_commit_inv [of env c I pm g x c'] by simp
next
  case (aborted c I a x c')
  then show ?case using cx_abort_inv [of env c I a x c'] by simp
qed

section \<open>A concrete run\<close>

text \<open>One prepare and one commit, with identity functions for the mathematical library.\<close>

definition grant_of :: "GrantId \<Rightarrow> PreparedMember \<Rightarrow> CommitGrant" where
  "grant_of i pm = \<lparr>cg_grant_id = i, cg_proposal = pm_proposal pm, cg_epoch = pm_epoch pm,
     cg_worker = pm_worker pm, cg_worker_boot = pm_worker_boot pm, cg_sequence = pm_sequence pm,
     cg_state = pm_state pm, cg_attempt = pm_attempt pm, cg_generation = pm_generation pm,
     cg_dispatch = pm_dispatch pm, cg_committed_position = pm_committed_position_before pm,
     cg_pre_state_digest = pm_pre_state_digest pm, cg_post_state_digest = pm_post_state_digest pm,
     cg_delta_digest = pm_delta_digest pm, cg_outcome_kind = mo_kind (pm_outcome pm),
     cg_terminal = mo_terminal (pm_outcome pm),
     cg_token_identifier = ucast (mo_token_identifier (pm_outcome pm)), cg_active_ns = 0\<rparr>"

text \<open>A first prepare of a sequence always succeeds, and the grant for a freshly prepared member
  always commits: the executor ends at the position and digest the member announced.\<close>

lemma prepare_member_fresh:
  assumes "umap_find (cx_states c) (sd_id (ms_state m)) = None"
  shows "\<exists>pm c'. prepare_member env m q c = (Inr pm, c') \<and>
     pm_committed_position_before pm = ms_generated_tokens m \<and>
     pm_proposal pm = cx_next_proposal c + 1 \<and> pm_state pm = sd_id (ms_state m)"
proof -
  let ?st = "ensure_initialized env m default_SeqState"
  have "\<not> ss_has_tentative ?st"
    using tentative_part_simps(1) [OF ensure_initialized_tentative [of env m default_SeqState]]
    by (simp add: default_SeqState_def)
  moreover have "ss_tokens ?st = ms_generated_tokens m"
    by (simp add: ensure_initialized_def Let_def catch_up_tokens default_SeqState_def)
  ultimately show ?thesis
    using assms by (simp add: prepare_member_def Let_def umap_get_None prepared_member_def)
qed

lemma commit_of_prepared:
  assumes "prepare_member env m q c = (Inr pm, c')" and "umap_find (cx_receipts_by_grant c) i = None"
  shows "\<exists>r c''. cx_commit (grant_of i (bind_member q pm)) c' = (Inr r, c'') \<and>
     committed_tokens c'' (pm_state pm) = pm_committed_position_before pm + 1 \<and>
     committed_state_digest c'' (pm_state pm) = pm_post_state_digest pm \<and>
     umap_find (cx_receipts_by_grant c'') i = Some r \<and> mr_proposal r = pm_proposal pm"
  using assms(1)
proof (cases rule: prepare_member_cases)
  case (staged st1)
  then show ?thesis
    using assms(2)
    by (simp add: cx_commit_def Let_def grant_of_def bind_member_def prepared_member_def
        stage_tentative_def committed_tokens_def committed_state_digest_def grant_receipt_def)
qed simp

definition demo_env :: ExecEnv where
  "demo_env = \<lparr>lm_tanh = \<lambda>x. x, lm_sin = \<lambda>x. x, lm_sqrt = \<lambda>x. x, ee_elapsed = \<lambda>_. 1\<rparr>"

definition demo_request :: DecodeExecutionRequest where
  "demo_request = \<lparr>er_dispatch_id = 1, er_epoch = 1, er_worker = 1, er_worker_boot = 1,
     er_key = default_CompatibilityKey, er_device = default_DeviceDescriptor, er_reservation_id = 1,
     er_members = [\<lparr>ms_sequence = 5, ms_attempt = 1, ms_generation = 0,
       ms_state = default_StateDescriptor\<lparr>sd_id := 7\<rparr>, ms_current_length = 3,
       ms_generated_tokens = 0, ms_remaining_budget = 4, ms_payload = []\<rparr>],
     er_group_payload = [], er_deadline_hint_ns = 0\<rparr>"

definition demo_prepared :: "PreparedDecode result \<times> CpuDecodeExecutor" where
  "demo_prepared = cx_prepare demo_env demo_request (new_CpuDecodeExecutor 1)"

definition demo_grant :: CommitGrant where
  "demo_grant = grant_of 9 (hd (pd_members (projr (fst demo_prepared))))"

definition demo_final :: CpuDecodeExecutor where
  "demo_final = snd (cx_commit demo_grant (snd demo_prepared))"

lemma demo_prepared_ok:
  "\<exists>pd pm c. demo_prepared = (Inr pd, c) \<and> pd_members pd = [bind_member demo_request pm] \<and>
    prepare_member demo_env (hd (er_members demo_request)) demo_request (new_CpuDecodeExecutor 1) =
       (Inr pm, c) \<and>
    pm_committed_position_before pm = 0 \<and> pm_proposal pm = 1 \<and> pm_state pm = 7"
proof -
  obtain pm c where p: "prepare_member demo_env (hd (er_members demo_request)) demo_request
      (new_CpuDecodeExecutor 1) = (Inr pm, c)" "pm_committed_position_before pm = 0"
      "pm_proposal pm = 1" "pm_state pm = 7"
    using prepare_member_fresh [of "new_CpuDecodeExecutor 1" "hd (er_members demo_request)" demo_env demo_request]
    by (auto simp: new_CpuDecodeExecutor_def demo_request_def)
  then have "demo_prepared = (Inr \<lparr>pd_dispatch_id = 1, pd_epoch = 1, pd_worker = 1, pd_worker_boot = 1,
      pd_members = [bind_member demo_request pm], pd_group_active_ns = pm_active_ns (bind_member demo_request pm),
      pd_group_error = EC_Ok, pd_group_error_message = []\<rparr>, c)"
    by (simp add: demo_prepared_def cx_prepare_def) (simp add: demo_request_def)
  with p show ?thesis by (intro exI [of _ pm] exI) auto
qed

lemma demo_commit:
  "\<exists>r. cx_commit demo_grant (snd demo_prepared) = (Inr r, demo_final) \<and>
    umap_find (cx_receipts_by_grant demo_final) 9 = Some r \<and> mr_proposal r = 1 \<and>
    committed_tokens demo_final 7 = 1"
proof -
  obtain pd pm c where pm: "demo_prepared = (Inr pd, c)" "pd_members pd = [bind_member demo_request pm]"
    "prepare_member demo_env (hd (er_members demo_request)) demo_request (new_CpuDecodeExecutor 1) =
       (Inr pm, c)"
    "pm_committed_position_before pm = 0" "pm_proposal pm = 1" "pm_state pm = 7"
    using demo_prepared_ok by blast
  have none: "umap_find (cx_receipts_by_grant (new_CpuDecodeExecutor 1)) 9 = None"
    by (simp add: new_CpuDecodeExecutor_def)
  obtain r c'' where c: "cx_commit (grant_of 9 (bind_member demo_request pm)) c = (Inr r, c'')"
    "committed_tokens c'' (pm_state pm) = pm_committed_position_before pm + 1"
    "umap_find (cx_receipts_by_grant c'') 9 = Some r" "mr_proposal r = pm_proposal pm"
    using commit_of_prepared [OF pm(3) none] by blast
  have g: "demo_grant = grant_of 9 (bind_member demo_request pm)"
    by (simp add: demo_grant_def pm(1,2))
  have f: "demo_final = c''" unfolding demo_final_def g pm(1) using c(1) by simp
  show ?thesis unfolding f g pm(1) using c pm(4-6) by (intro exI [of _ r]) simp
qed

text \<open>C19: A step that is prepared can be committed. On an executor that does not hold the state yet, the prepare of any
  member succeeds, catching up with the authoritative token count, and an unused grant for the prepared
  member commits: the state ends one token further, at the digest the member announced.\<close>

theorem first_step_commits:
  assumes "umap_find (cx_states c) (sd_id (ms_state m)) = None" and "umap_find (cx_receipts_by_grant c) i = None"
  shows "\<exists>pm c' r c''. prepare_member env m q c = (Inr pm, c') \<and> cx_commit (grant_of i (bind_member q pm)) c' = (Inr r, c'') \<and>
    committed_tokens c'' (sd_id (ms_state m)) = ms_generated_tokens m + 1 \<and>
    committed_state_digest c'' (sd_id (ms_state m)) = pm_post_state_digest pm"
proof -
  obtain pm c' where p: "prepare_member env m q c = (Inr pm, c')" "pm_committed_position_before pm = ms_generated_tokens m"
    "pm_state pm = sd_id (ms_state m)"
    using prepare_member_fresh [OF assms(1)] by blast
  from commit_of_prepared [OF p(1) assms(2)] p show ?thesis by force
qed

theorem first_step_commits_witness:
  "\<exists>pm c' r c''. prepare_member demo_env (hd (er_members demo_request)) demo_request (new_CpuDecodeExecutor 1) = (Inr pm, c') \<and>
     cx_commit (grant_of 9 (bind_member demo_request pm)) c' = (Inr r, c'') \<and> committed_tokens c'' 7 = 1"
proof -
  have "umap_find (cx_states (new_CpuDecodeExecutor 1)) (sd_id (ms_state (hd (er_members demo_request)))) = None"
    "umap_find (cx_receipts_by_grant (new_CpuDecodeExecutor 1)) 9 = None"
    by (simp_all add: new_CpuDecodeExecutor_def)
  from first_step_commits [OF this, of demo_env demo_request]
  obtain pm c' r c'' where "prepare_member demo_env (hd (er_members demo_request)) demo_request (new_CpuDecodeExecutor 1) = (Inr pm, c')"
    "cx_commit (grant_of 9 (bind_member demo_request pm)) c' = (Inr r, c'')"
    "committed_tokens c'' (sd_id (ms_state (hd (er_members demo_request)))) = ms_generated_tokens (hd (er_members demo_request)) + 1"
    by blast
  then show ?thesis by (auto simp: demo_request_def)
qed

lemma demo_run: "\<exists>I. exec_run demo_env 1 demo_final I"
proof -
  obtain pd pm c where pm: "demo_prepared = (Inr pd, c)" "pd_members pd = [bind_member demo_request pm]"
    "pm_committed_position_before pm = 0"
    using demo_prepared_ok by blast
  have "exec_run demo_env 1 c ({} \<union> set (pd_members pd))"
  proof (rule exec_run.prepared [OF exec_run.start])
    show "proposals_left demo_request (new_CpuDecodeExecutor 1)"
      by (simp add: proposals_left_def new_CpuDecodeExecutor_def demo_request_def)
    show "cx_prepare demo_env demo_request (new_CpuDecodeExecutor 1) = (Inr pd, c)"
      using pm(1) unfolding demo_prepared_def .
  qed
  moreover have "bind_member demo_request pm \<in> {} \<union> set (pd_members pd)" by (simp add: pm(2))
  moreover have "grant_for (bind_member demo_request pm) demo_grant"
    by (simp add: grant_for_def demo_grant_def pm(1-3) grant_of_def word_gt_0)
  moreover have "cx_commit demo_grant c = (fst (cx_commit demo_grant c), demo_final)"
    by (simp add: demo_final_def pm(1))
  ultimately have "exec_run demo_env 1 demo_final ({} \<union> set (pd_members pd))"
    by (rule exec_run.committed)
  then show ?thesis ..
qed

section \<open>Properties\<close>

text \<open>C4: In every run of the CPU executor, whatever the interleaving of prepares (failed ones
  included), aborts, commits and repeated commits, the committed state of every sequence is exactly
  \<open>tokens\<close> deterministic steps from its initial vector and its KV size is \<open>64\<close> bytes per token: no
  step is applied twice, skipped or left half-applied.\<close>

theorem committed_state_is_trajectory:
  assumes "exec_run env dev c I" and "umap_find (cx_states c) sid = Some st"
  shows "\<exists>a kv0. ss_state st = (step_state env ^^ unat (ss_tokens st)) (initial_state sid a) \<and>
     ss_kv_bytes st = kv0 + 64 * ss_tokens st"
proof -
  have "seq_ok env I sid st"
    using exec_run_inv [OF assms(1)] assms(2) by (simp add: exec_inv_def seqs_ok_def)
  then show ?thesis unfolding seq_ok_def on_track_def by blast
qed

theorem committed_state_is_trajectory_witness:
  "\<exists>st a kv0. umap_find (cx_states demo_final) 7 = Some st \<and> ss_tokens st = 1 \<and>
     ss_state st = (step_state demo_env ^^ 1) (initial_state 7 a) \<and> ss_kv_bytes st = kv0 + 64"
proof -
  obtain st where st: "umap_find (cx_states demo_final) 7 = Some st" "ss_tokens st = 1"
  proof -
    have "committed_tokens demo_final 7 = 1" using demo_commit by blast
    then show ?thesis using that by (cases "umap_find (cx_states demo_final) 7") (simp_all add: committed_tokens_def)
  qed
  obtain I where "exec_run demo_env 1 demo_final I" using demo_run ..
  from committed_state_is_trajectory [OF this st(1)] show ?thesis using st by auto
qed

text \<open>C28: In every run of the CPU executor a prepared transition is consumed by at most one grant:
  two grants of the ledger whose receipts name the same proposal are the same grant.\<close>

theorem proposal_consumed_once:
  assumes "exec_run env dev c I"
    and "umap_find (cx_receipts_by_grant c) i = Some r" and "umap_find (cx_receipts_by_grant c) j = Some r'"
    and "mr_proposal r = mr_proposal r'"
  shows "i = j"
proof -
  have "proposals_ok c I" using exec_run_inv [OF assms(1)] by (simp add: exec_inv_def)
  then show ?thesis using assms(2-4) by (rule proposals_okD(6))
qed

theorem proposal_consumed_once_witness:
  "\<exists>r. umap_find (cx_receipts_by_grant demo_final) 9 = Some r \<and> mr_proposal r = 1 \<and>
     (\<forall>j r'. umap_find (cx_receipts_by_grant demo_final) j = Some r' \<and> mr_proposal r' = 1 \<longrightarrow> 9 = j)"
proof -
  obtain r where r: "umap_find (cx_receipts_by_grant demo_final) 9 = Some r" "mr_proposal r = 1"
    using demo_commit by blast
  obtain I where run: "exec_run demo_env 1 demo_final I" using demo_run ..
  have "9 = j" if "umap_find (cx_receipts_by_grant demo_final) j = Some r'" "mr_proposal r' = 1" for j r'
    using proposal_consumed_once [OF run r(1) that(1)] r(2) that(2) by simp
  then show ?thesis using r by blast
qed

text \<open>C29: Once a grant has been committed, then after any sequence of further prepares, commits and
  aborts, committing it again returns the identical receipt and changes nothing.\<close>

theorem commit_one_use:
  assumes "cx_commit g c = (Inr r, c')"
  shows "cx_commit g (fold (cpu.exec env) ops c') = (Inr r, fold (cpu.exec env) ops c')"
  using assms by (rule cpu.consumed_for_ever)

theorem commit_one_use_witness:
  "\<exists>r. cx_commit demo_grant
     (fold (cpu.exec demo_env) [OpPrepare demo_request, OpCommit demo_grant] demo_final) =
     (Inr r, fold (cpu.exec demo_env) [OpPrepare demo_request, OpCommit demo_grant] demo_final)"
proof -
  obtain r where "cx_commit demo_grant (snd demo_prepared) = (Inr r, demo_final)"
    using demo_commit by blast
  from commit_one_use [OF this] show ?thesis by blast
qed

end
