(* ===== verification/Pump.thy ===== *)
theory Pump
  imports SchedulerSafety ExecutorTrace
begin

text \<open>
  The synchronous pump (\<^verbatim>\<open>src/fabric.cpp\<close>, \<^verbatim>\<open>pump_once\<close> and \<^verbatim>\<open>pump_until_idle\<close>): advance, schedule, and for
  every dispatch prepare on the executor, authorise, commit or abort each member, and apply the receipts.
  The executor is the record of its virtual methods over a state of its own. The cycle counter is an
  unbounded integer: it is compared only when \<^verbatim>\<open>max_cycles\<close> bounds it.
\<close>

section \<open>One cycle\<close>

record 'e Executor =
  ex_prepare :: "DecodeExecutionRequest \<Rightarrow> 'e \<Rightarrow> PreparedDecode result \<times> 'e"
  ex_commit :: "CommitGrant \<Rightarrow> 'e \<Rightarrow> MemberReceipt result \<times> 'e"
  ex_abort :: "AbortPrepared \<Rightarrow> 'e \<Rightarrow> unit result \<times> 'e"

definition execution_request :: "Dispatch \<Rightarrow> DecodeExecutionRequest" where
  "execution_request d = \<lparr>er_dispatch_id = di_id d, er_epoch = di_epoch d, er_worker = di_worker d,
     er_worker_boot = di_worker_boot d, er_key = di_key d, er_device = di_device d,
     er_reservation_id = di_reservation d, er_members = di_members d,
     er_group_payload = map (\<lambda>c. of_nat (of_char c)) (key_to_string (di_key d)), er_deadline_hint_ns = 0\<rparr>"

definition failed_outcome :: "Error \<Rightarrow> DecodeMemberSpec \<Rightarrow> MemberOutcome" where
  "failed_outcome e m = default_MemberOutcome\<lparr>mo_sequence := ms_sequence m, mo_kind := MK_RetryableFailure,
     mo_attempt := ms_attempt m, mo_generation := ms_generation m, mo_error_message := err_message e,
     mo_retryable := True\<rparr>"

definition failed_result :: "Dispatch \<Rightarrow> Error \<Rightarrow> DecodeExecutionResult" where
  "failed_result d e = \<lparr>xr_dispatch_id = di_id d, xr_epoch = di_epoch d, xr_worker = di_worker d,
     xr_worker_boot = di_worker_boot d, xr_outcomes = map (failed_outcome e) (di_members d),
     xr_group_active_ns = 0, xr_group_error = err_code e, xr_group_error_message = err_message e,
     xr_group_retryable = False\<rparr>"

definition abort_if :: "'e Executor \<Rightarrow> GrantOrAbort \<Rightarrow> 'e \<Rightarrow> 'e" where
  "abort_if ex ga e = (if ga_has_abort ga then snd (ex_abort ex (ga_abort_spec ga) e) else e)"

definition commit_member :: "'e Executor \<Rightarrow> TimePoint \<Rightarrow> GrantOrAbort \<Rightarrow> MemberReceipt list \<times> 'e \<Rightarrow>
    MemberReceipt list \<times> 'e" where
  "commit_member ex tn ga = (\<lambda>(receipts, e).
    if ga_rejected ga \<or> ga_aborted ga \<or> \<not> ga_has_grant ga then (receipts, abort_if ex ga e)
    else (case ex_commit ex (ga_grant ga) e of
        (Inr mr, e') \<Rightarrow> (receipts @ [mr\<lparr>mr_committed_at := tn\<rparr>], e')
      | (Inl _, e') \<Rightarrow> (receipts, abort_if ex ga e')))"

definition receipts_of :: "Dispatch \<Rightarrow> MemberReceipt list \<Rightarrow> ReceiptDecode" where
  "receipts_of d rs = \<lparr>rd_dispatch_id = di_id d, rd_epoch = di_epoch d, rd_worker = di_worker d,
     rd_worker_boot = di_worker_boot d, rd_receipts = rs, rd_group_error = EC_Ok, rd_group_error_message = []\<rparr>"

definition pump_dispatch :: "'e Executor \<Rightarrow> TimePoint \<Rightarrow> Dispatch \<Rightarrow> Fabric \<times> 'e \<Rightarrow> Fabric \<times> 'e" where
  "pump_dispatch ex tn d = (\<lambda>(f, e).
    (case ex_prepare ex (execution_request d) e of
       (Inl err, e1) \<Rightarrow> (snd (apply_completion (failed_result d err) f), e1)
     | (Inr pd, e1) \<Rightarrow>
        (case authorize_prepared pd f of
           (Inl _, f1) \<Rightarrow> (f1, fold (\<lambda>pm e. snd (ex_abort ex (member_abort pm) e)) (pd_members pd) e1)
         | (Inr ar, f1) \<Rightarrow>
            (case fold (commit_member ex tn) (ar_members ar) ([], e1) of (rs, e2) \<Rightarrow>
              (snd (apply_commit_receipt (receipts_of d rs) f1), e2)))))"

definition pump_once :: "'e Executor \<Rightarrow> TimePoint \<Rightarrow> Fabric \<times> 'e \<Rightarrow> Dispatch list \<times> Fabric \<times> 'e" where
  "pump_once ex tn = (\<lambda>(f, e).
    (case schedule tn (snd (advance tn f)) of (ds, f1) \<Rightarrow> (ds, fold (pump_dispatch ex tn) ds (f1, e))))"

section \<open>Until idle\<close>

definition has_candidate :: "Fabric \<Rightarrow> bool" where
  "has_candidate f \<longleftrightarrow> list_ex (\<lambda>(k, s). is_candidate_state (s_machine s)) (fb_seqs f)"

partial_function (option) pump_loop :: "'e Executor \<Rightarrow> int \<Rightarrow> int \<Rightarrow> Fabric \<times> 'e \<Rightarrow> (Fabric \<times> 'e) option" where
  "pump_loop ex max_cycles cycles fe =
    (case tick (fst fe) of (tn, f1) \<Rightarrow>
     (case pump_once ex tn (f1, snd fe) of (ds, fe2) \<Rightarrow>
        if max_cycles > 0 \<and> cycles + 1 \<ge> max_cycles then Some fe2
        else if \<not> has_candidate (fst fe2) \<and> ds = [] then Some fe2
        else if ds = [] \<and> has_candidate (fst fe2) then Some fe2
        else pump_loop ex max_cycles (cycles + 1) fe2))"

definition pump_until_idle :: "'e Executor \<Rightarrow> int \<Rightarrow> Fabric \<times> 'e \<Rightarrow> (Fabric \<times> 'e) option" where
  "pump_until_idle ex max_cycles fe = pump_loop ex max_cycles 0 fe"

section \<open>Cycles\<close>

definition pump_cycle :: "'e Executor \<Rightarrow> Fabric \<times> 'e \<Rightarrow> Dispatch list \<times> Fabric \<times> 'e" where
  "pump_cycle ex fe = pump_once ex (fst (tick (fst fe))) (snd (tick (fst fe)), snd fe)"

lemma pump_loop_step:
  "pump_loop ex m c fe =
    (if m > 0 \<and> c + 1 \<ge> m \<or> fst (pump_cycle ex fe) = [] then Some (snd (pump_cycle ex fe))
     else pump_loop ex m (c + 1) (snd (pump_cycle ex fe)))"
  by (subst pump_loop.simps) (auto simp: pump_cycle_def case_prod_beta Let_def)

definition pump_cycles :: "'e Executor \<Rightarrow> nat \<Rightarrow> Fabric \<times> 'e \<Rightarrow> Fabric \<times> 'e" where
  "pump_cycles ex n = (\<lambda>x. snd (pump_cycle ex x)) ^^ n"

lemma pump_cycles_simps [simp]:
  "pump_cycles ex 0 fe = fe" "pump_cycles ex (Suc n) fe = pump_cycles ex n (snd (pump_cycle ex fe))"
  by (simp_all add: pump_cycles_def funpow_Suc_right del: funpow.simps)

lemma pump_loop_bounded:
  assumes "m > 0" and "c < m"
  shows "\<exists>n. 0 < n \<and> int n \<le> m - c \<and> pump_loop ex m c fe = Some (pump_cycles ex n fe) \<and>
    (int n < m - c \<longrightarrow> fst (pump_cycle ex (pump_cycles ex (n - 1) fe)) = [])"
  using assms(2)
proof (induction "nat (m - c)" arbitrary: c fe rule: less_induct)
  case less
  show ?case
  proof (cases "c + 1 \<ge> m \<or> fst (pump_cycle ex fe) = []")
    case True
    then show ?thesis
      using assms(1) less.prems by (intro exI [of _ 1]) (auto simp: pump_loop_step [of ex m c fe])
  next
    case False
    then obtain n where n: "0 < n" "int n \<le> m - (c + 1)"
      "pump_loop ex m (c + 1) (snd (pump_cycle ex fe)) = Some (pump_cycles ex n (snd (pump_cycle ex fe)))"
      "int n < m - (c + 1) \<longrightarrow> fst (pump_cycle ex (pump_cycles ex (n - 1) (snd (pump_cycle ex fe)))) = []"
      using less.hyps [of "c + 1" "snd (pump_cycle ex fe)"] by auto
    then have "pump_cycles ex (Suc n - 1) fe = pump_cycles ex (n - 1) (snd (pump_cycle ex fe))" by (cases n) simp_all
    then show ?thesis
      using False n by (intro exI [of _ "Suc n"]) (simp add: pump_loop_step [of ex m c fe])
  qed
qed

section \<open>What a cycle mints\<close>

text \<open>The sequences a fabric holds and its three id counters: no step of the pump but scheduling and
  authorisation moves them.\<close>

definition room :: "Fabric \<Rightarrow> SequenceId list \<times> u64 \<times> u64 \<times> u64" where
  "room f = (map fst (fb_seqs f), fb_next_dispatch f, fb_next_reservation f, fb_next_grant f)"

named_theorems room_frame

lemma room_noise [room_frame]:
  "room (snd (tick f)) = room f" "room (record_event a b c d f) = room f" "room (set_terminal k st f) = room f"
  "room (drop_tenant t f) = room f" "room (update_tenant_tokens t n f) = room f"
  "room (refresh_derived_stats f) = room f" "room (stale_bump f) = room f" "room (stale_event r k d f) = room f"
  "room (bump h f) = room f" "room (upd_seq k g f) = room f" "room (go k st f) = room f"
  "room (releasing k f) = room f" "room (abort_grant i f) = room f"
  "room (drop_inflight k f) = room f" "room (close_inflight k f) = room f"
  by (simp_all add: room_def go_def abort_grant_def drop_inflight_def close_inflight_def)

lemma room_fold: "(\<And>x g. room (h x g) = room g) \<Longrightarrow> room (fold h xs f) = room f"
  by (induction xs arbitrary: f) simp_all

lemma room_noncommit [room_frame]: "room (apply_noncommit_outcome k mo f) = room f"
  by (simp add: apply_noncommit_outcome_def Let_def room_frame case_prod_beta split: MemberOutcomeKind.split)

lemma room_reconcile [room_frame]: "room (stale_reconcile k f) = room f"
  by (simp add: stale_reconcile_def Let_def case_prod_beta room_frame)

lemma room_advance [room_frame]: "room (snd (advance tn f)) = room f"
  unfolding advance_def snd_conv
  by (rule room_fold) (simp add: advance_seq_def expire_now_def cancel_now_def Let_def room_frame)

lemma room_complete [room_frame]: "room (snd (apply_completion r f)) = room f"
proof -
  have "room (complete_member r mo f) = room f" for mo f
    by (simp add: complete_member_def Let_def room_frame split: option.split)
  then show ?thesis by (simp add: apply_completion_def room_frame room_fold)
qed

lemma room_receipts [room_frame]: "room (snd (apply_commit_receipt rd f)) = room f"
proof -
  have 1: "room (snd (finalize_step rec f)) = room f" for rec f
    by (simp add: finalize_step_def Let_def case_prod_beta room_frame)
  have 2: "room (close_transaction rec f) = room f" for rec f
    by (simp add: close_transaction_def Let_def room_frame) (simp add: room_def close_inflight_def)
  have 3: "room (finalize_state rec fin f) = room f" for rec fin f
    by (simp add: finalize_state_def Let_def room_frame)
  have "room (apply_receipt rec f) = room f" for rec f
    by (simp add: apply_receipt_def finalize_def Let_def case_prod_beta 1 2 3 room_frame split: option.split)
  then show ?thesis by (simp add: apply_commit_receipt_def room_frame room_fold)
qed

text \<open>At most \<open>n\<close> dispatches and reservations and \<open>g\<close> grants were minted.\<close>

definition drifts :: "nat \<Rightarrow> nat \<Rightarrow> Fabric \<Rightarrow> Fabric \<Rightarrow> bool" where
  "drifts n g f h \<longleftrightarrow> map fst (fb_seqs h) = map fst (fb_seqs f) \<and>
     unat (fb_next_dispatch f) \<le> unat (fb_next_dispatch h) \<and> unat (fb_next_dispatch h) \<le> unat (fb_next_dispatch f) + n \<and>
     unat (fb_next_reservation h) \<le> unat (fb_next_reservation f) + n \<and>
     unat (fb_next_grant h) \<le> unat (fb_next_grant f) + g"

lemma drifts_room: "room h = room f \<Longrightarrow> drifts n g f h"
  by (auto simp: room_def drifts_def)

lemma drifts_minted: "minted n f h \<Longrightarrow> drifts n 0 f h"
  by (auto simp: minted_def drifts_def)

lemma authorize_member_drifts: "drifts 0 1 f (snd (authorize_member pd pm f))"
proof -
  have "room (snd (authorize_member pd pm f)) = room f \<or> snd (authorize_member pd pm f) = snd (issue_grant pd pm f)"
    by (simp add: authorize_member_def Let_def room_frame split: option.split)
  moreover have "room (snd (issue_grant pd pm f)) =
      (map fst (fb_seqs f), fb_next_dispatch f, fb_next_reservation f, fb_next_grant f + 1)"
    by (simp add: issue_grant_def Let_def room_frame) (simp add: room_def)
  ultimately show ?thesis
    using unat_add_one_le [of "fb_next_grant f"] by (auto simp: drifts_room) (auto simp: drifts_def room_def)
qed

lemma drifts_trans: "drifts m a f g \<Longrightarrow> drifts n b g h \<Longrightarrow> drifts (m + n) (a + b) f h"
  by (auto simp: drifts_def)

lemma drifts_mono: "drifts m a f g \<Longrightarrow> m \<le> n \<Longrightarrow> a \<le> b \<Longrightarrow> drifts n b f g"
  by (auto simp: drifts_def)

lemma authorize_drifts: "drifts 0 (length (pd_members pd)) f (snd (authorize_prepared pd f))"
proof -
  have "drifts 0 (length pms) f (snd (authorize_loop pd pms (out, f)))" for pms out f
  proof (induction pms arbitrary: out f)
    case Nil
    show ?case by (simp add: authorize_loop_def drifts_def)
  next
    case (Cons pm pms)
    obtain ga f1 where one: "authorize_member pd pm f = (ga, f1)" by force
    have "drifts 0 1 f f1" using authorize_member_drifts [of f pd pm] one by simp
    from drifts_trans [OF this Cons.IH [of f1 "out @ [ga]"]] show ?case
      by (simp add: authorize_loop_def one)
  qed
  then show ?thesis by (simp add: authorize_prepared_def case_prod_beta)
qed

section \<open>A cycle is a run\<close>

text \<open>Every id counter has room for \<open>n\<close> more ids.\<close>

definition spacious :: "nat \<Rightarrow> Fabric \<Rightarrow> bool" where
  "spacious n f \<longleftrightarrow> unat (fb_next_dispatch f) + n < 2 ^ 64 \<and> unat (fb_next_reservation f) + n < 2 ^ 64 \<and>
     unat (fb_next_grant f) + n < 2 ^ 64"

lemma dispatch_ids_valid: "fab_run cfg clock f \<Longrightarrow> fb_next_dispatch f \<noteq> 0"
  using tallies.run_invariant [of cfg clock f] by (auto simp: tallies_ok_def)

text \<open>What the pump needs of an executor: a successful prepare answers for
  this dispatch, with no more members than were asked for.\<close>

locale dispatch_executor =
  fixes ex :: "'e Executor"
  assumes prepare_count: "ex_prepare ex req e = (Inr pd, e') \<Longrightarrow> length (pd_members pd) \<le> length (er_members req)"
    and prepare_binds: "ex_prepare ex req e = (Inr pd, e') \<Longrightarrow> pm \<in> set (pd_members pd) \<Longrightarrow>
      pm_dispatch pm = er_dispatch_id req"
begin

lemma pump_dispatch_run:
  assumes "fab_run cfg clock f" and "di_id d \<noteq> 0"
    and "unat (fb_next_grant f) + length (di_members d) < 2 ^ 64"
  shows "fab_run cfg clock (fst (pump_dispatch ex tn d (f, e))) \<and>
    drifts 0 (length (di_members d)) f (fst (pump_dispatch ex tn d (f, e)))"
proof -
  obtain p e1 where p: "ex_prepare ex (execution_request d) e = (p, e1)" by force
  show ?thesis
  proof (cases p)
    case (Inl err)
    then show ?thesis
      using p fab_run.op [OF assms(1), of "ApplyCompletion (failed_result d err)"]
      by (simp add: pump_dispatch_def drifts_room room_frame)
  next
    case (Inr pd)
    have pd: "length (pd_members pd) \<le> length (di_members d)" "list_all (\<lambda>pm. pm_dispatch pm \<noteq> 0) (pd_members pd)"
      using prepare_count [of "execution_request d" e pd e1] prepare_binds [of "execution_request d" e pd e1] p Inr assms(2)
      by (auto simp: execution_request_def list_all_iff)
    obtain ar f1 where a: "authorize_prepared pd f = (Inr ar, f1)"
      by (simp add: authorize_prepared_def case_prod_beta)
    have "fab_run cfg clock (perform (AuthorizePrepared pd) f)"
      using assms(3) pd by (intro fab_run.op [OF assms(1)]) simp
    then have r1: "fab_run cfg clock f1" by (simp add: a)
    have d1: "drifts 0 (length (di_members d)) f f1"
      using drifts_mono [OF authorize_drifts order_refl pd(1), of f] by (simp add: a)
    obtain rs e2 where c: "fold (commit_member ex tn) (ar_members ar) ([], e1) = (rs, e2)" by force
    have "fab_run cfg clock (perform (ApplyCommitReceipt (receipts_of d rs)) f1)"
      by (rule fab_run.op [OF r1]) simp
    moreover have "drifts (0 + 0) (length (di_members d) + 0) f (snd (apply_commit_receipt (receipts_of d rs) f1))"
      using d1 by (rule drifts_trans) (simp add: drifts_room room_frame)
    ultimately show ?thesis by (simp add: pump_dispatch_def p Inr a c)
  qed
qed

lemma pump_dispatches_run:
  assumes "fab_run cfg clock f" and "\<And>d. d \<in> set ds \<Longrightarrow> di_id d \<noteq> 0"
    and "unat (fb_next_grant f) + sum_list (map (\<lambda>d. length (di_members d)) ds) < 2 ^ 64"
  shows "fab_run cfg clock (fst (fold (pump_dispatch ex tn) ds (f, e))) \<and>
    drifts 0 (sum_list (map (\<lambda>d. length (di_members d)) ds)) f (fst (fold (pump_dispatch ex tn) ds (f, e)))"
  using assms
proof (induction ds arbitrary: f e)
  case Nil
  then show ?case by (simp add: drifts_room)
next
  case (Cons d ds)
  obtain f1 e1 where one: "pump_dispatch ex tn d (f, e) = (f1, e1)" by force
  then have r: "fab_run cfg clock f1" "drifts 0 (length (di_members d)) f f1"
    using pump_dispatch_run [of cfg clock f d tn e] Cons.prems by auto
  then have "unat (fb_next_grant f1) + sum_list (map (\<lambda>d. length (di_members d)) ds) < 2 ^ 64"
    using Cons.prems(3) by (simp add: drifts_def)
  with Cons.IH [OF r(1), of e1] Cons.prems(2) one drifts_trans [OF r(2)] show ?case by simp
qed

lemma pump_cycle_run:
  assumes "fab_run cfg clock f" and "spacious (length (fb_seqs f)) f"
  shows "fab_run cfg clock (fst (snd (pump_cycle ex (f, e)))) \<and>
    drifts (length (fb_seqs f)) (length (fb_seqs f)) f (fst (snd (pump_cycle ex (f, e))))"
proof -
  let ?tn = "fst (tick f)" and ?f0 = "snd (advance (fst (tick f)) (snd (tick f)))"
  obtain ds f1 where s: "schedule ?tn ?f0 = (ds, f1)" by force
  have rm: "room ?f0 = room f" by (simp add: room_frame)
  then have len: "length (fb_seqs ?f0) = length (fb_seqs f)" and ctr: "fb_next_dispatch ?f0 = fb_next_dispatch f"
    "fb_next_reservation ?f0 = fb_next_reservation f" "fb_next_grant ?f0 = fb_next_grant f"
    by (auto simp: room_def dest: map_eq_imp_length_eq)
  have r0: "fab_run cfg clock ?f0"
    using fab_run.op [OF fab_run.op [OF assms(1), of Now], of "Advance ?tn"] by simp
  have ok: "permitted (Schedule ?tn) ?f0" using assms(2) by (simp add: len ctr spacious_def)
  have r1: "fab_run cfg clock f1" using fab_run.op [OF r0 ok] by (simp add: s)
  have m: "minted (length (fb_seqs f)) ?f0 f1" using schedule_steps [of ?f0 True ?tn] ok by (simp add: s len)
  note sm = schedule_members [OF s r0 ok]
  have "di_id d \<noteq> 0" if "d \<in> set ds" for d
    using sm(2) [OF that] dispatch_ids_valid [OF r0] by (metis le_zero_eq unat_eq_zero)
  moreover have g: "unat (fb_next_grant f1) + sum_list (map (\<lambda>d. length (di_members d)) ds) < 2 ^ 64"
    using m sm(1) assms(2) by (simp add: minted_def len ctr spacious_def)
  ultimately have p: "fab_run cfg clock (fst (fold (pump_dispatch ex ?tn) ds (f1, e)))"
    "drifts 0 (sum_list (map (\<lambda>d. length (di_members d)) ds)) f1 (fst (fold (pump_dispatch ex ?tn) ds (f1, e)))"
    using pump_dispatches_run [OF r1, of ds ?tn e] by auto
  have "drifts (length (fb_seqs f)) (length (fb_seqs f)) f (fst (fold (pump_dispatch ex ?tn) ds (f1, e)))"
    using p(2) m sm(1) rm len by (auto simp: drifts_def minted_def room_def)
  then show ?thesis using p(1) by (simp add: pump_cycle_def pump_once_def s)
qed

lemma pump_cycles_run:
  assumes "fab_run cfg clock f" and "spacious (n * length (fb_seqs f)) f"
  shows "fab_run cfg clock (fst (pump_cycles ex n (f, e))) \<and>
    map fst (fb_seqs (fst (pump_cycles ex n (f, e)))) = map fst (fb_seqs f)"
  using assms
proof (induction n arbitrary: f e)
  case (Suc n)
  obtain f1 e1 where one: "snd (pump_cycle ex (f, e)) = (f1, e1)" by force
  have "spacious (length (fb_seqs f)) f" using Suc.prems(2) by (simp add: spacious_def)
  then have r: "fab_run cfg clock f1" "drifts (length (fb_seqs f)) (length (fb_seqs f)) f f1"
    using pump_cycle_run [OF Suc.prems(1), of e] one by auto
  then have k: "map fst (fb_seqs f1) = map fst (fb_seqs f)" by (simp add: drifts_def)
  then have "length (fb_seqs f1) = length (fb_seqs f)" by (rule map_eq_imp_length_eq)
  then have "spacious (n * length (fb_seqs f1)) f1" using Suc.prems(2) r(2) by (auto simp: spacious_def drifts_def)
  from Suc.IH [OF r(1) this, of e1] k show ?case by (simp add: one)
qed simp

lemma pump_until_idle_run:
  assumes "fab_run cfg clock f" and "max_cycles > 0" and "spacious (nat max_cycles * length (fb_seqs f)) f"
  shows "\<exists>f' e'. pump_until_idle ex max_cycles (f, e) = Some (f', e') \<and> fab_run cfg clock f' \<and>
    map fst (fb_seqs f') = map fst (fb_seqs f) \<and>
    (\<forall>(k, s) \<in> set (fb_seqs f'). s_generated s = s_committed s \<and> s_committed s \<le> rq_max_generation_length (s_req s))"
proof -
  obtain n where n: "0 < n" "int n \<le> max_cycles"
    "pump_until_idle ex max_cycles (f, e) = Some (pump_cycles ex n (f, e))"
    using pump_loop_bounded [OF assms(2,2), of ex "(f, e)"] by (auto simp: pump_until_idle_def)
  have "n * length (fb_seqs f) \<le> nat max_cycles * length (fb_seqs f)" using n(2) by (intro mult_le_mono1) linarith
  then have "spacious (n * length (fb_seqs f)) f" using assms(3) unfolding spacious_def by linarith
  from pump_cycles_run [OF assms(1) this, of e]
  have r: "fab_run cfg clock (fst (pump_cycles ex n (f, e)))"
    "map fst (fb_seqs (fst (pump_cycles ex n (f, e)))) = map fst (fb_seqs f)" by auto
  have "s_generated s = s_committed s \<and> s_committed s \<le> rq_max_generation_length (s_req s)"
    if "(k, s) \<in> set (fb_seqs (fst (pump_cycles ex n (f, e))))" for k s
  proof -
    note b = books.run_invariant [OF r(1)]
    from that have "token_ok s" using books_okD(3) [OF b] books_okD(1) [OF b] umap_find_eq_Some by metis
    then show ?thesis by (auto simp: token_ok_def budget_ok_def)
  qed
  with r n(3) show ?thesis
    by (intro exI [of _ "fst (pump_cycles ex n (f, e))"]
      exI [of _ "snd (pump_cycles ex n (f, e))"]) auto
qed

end

section \<open>The CPU executor under the pump\<close>

definition cpu_executor :: "ExecEnv \<Rightarrow> CpuDecodeExecutor Executor" where
  "cpu_executor env = \<lparr>ex_prepare = cx_prepare env, ex_commit = cx_commit, ex_abort = cx_abort\<rparr>"

lemma prepare_loop_members:
  "prepare_loop env req ms out c = (Inr pms, c') \<Longrightarrow>
     \<exists>new. pms = out @ new \<and> length new = length ms \<and> (\<forall>pm \<in> set new. pm_dispatch pm = er_dispatch_id req)"
proof (induction ms arbitrary: out c)
  case (Cons m ms)
  obtain pm c1 where one: "prepare_member env m req c = (Inr pm, c1)"
    using Cons.prems by (auto split: prod.splits sum.splits)
  with Cons.prems Cons.IH [of "out @ [bind_member req pm]" c1] obtain new where
    "pms = out @ bind_member req pm # new" "length new = length ms" "\<forall>pm \<in> set new. pm_dispatch pm = er_dispatch_id req"
    by auto
  then show ?case by (intro exI [of _ "bind_member req pm # new"]) (simp add: bind_member_def)
qed simp

lemma cx_prepare_members:
  assumes "cx_prepare env req c = (Inr pd, c')"
  shows "length (pd_members pd) = length (er_members req)" "\<forall>pm \<in> set (pd_members pd). pm_dispatch pm = er_dispatch_id req"
  using assms prepare_loop_members [of env req "er_members req" "[]"]
  by (auto simp: cx_prepare_def split: prod.splits sum.splits)

interpretation cpu_pump: dispatch_executor "cpu_executor env" for env
  by unfold_locales (auto simp: cpu_executor_def cx_prepare_members)

section \<open>Properties\<close>

text \<open>C12: The pump terminates whatever the executor does: with a positive bound it returns after at least
  one cycle and at most \<open>max_cycles\<close>, and when it stops before the bound its last cycle found nothing
  to dispatch.\<close>

theorem pump_returns:
  assumes "max_cycles > 0"
  shows "\<exists>n. 0 < n \<and> int n \<le> max_cycles \<and> pump_until_idle ex max_cycles fe = Some (pump_cycles ex n fe) \<and>
    (int n < max_cycles \<longrightarrow> fst (pump_cycle ex (pump_cycles ex (n - 1) fe)) = [])"
  using pump_loop_bounded [OF assms assms, of ex fe] by (simp add: pump_until_idle_def)

theorem pump_returns_witness:
  "\<exists>n. 0 < n \<and> n \<le> 4 \<and> pump_until_idle (cpu_executor demo_env) 4 (sc_admitted, new_CpuDecodeExecutor 1) =
     Some (pump_cycles (cpu_executor demo_env) n (sc_admitted, new_CpuDecodeExecutor 1))"
proof -
  have "(4 :: int) > 0" by simp
  from pump_returns [OF this, of "cpu_executor demo_env" "(sc_admitted, new_CpuDecodeExecutor 1)"]
  obtain n where "0 < n" "int n \<le> 4" "pump_until_idle (cpu_executor demo_env) 4 (sc_admitted, new_CpuDecodeExecutor 1) =
     Some (pump_cycles (cpu_executor demo_env) n (sc_admitted, new_CpuDecodeExecutor 1))" by blast
  then show ?thesis by (intro exI [of _ n]) simp
qed

text \<open>C11: Pumping the CPU executor, whatever it has executed before, is a run of the fabric: every call the
  pump makes is a permitted operation, so all the guarantees of runs hold of the fabric it leaves behind.
  The sequences are the ones it started with, and on each the token account is within its budget.\<close>

theorem pump_is_run:
  assumes "fab_run cfg clock f" and "max_cycles > 0" and "spacious (nat max_cycles * length (fb_seqs f)) f"
  shows "\<exists>f' c'. pump_until_idle (cpu_executor env) max_cycles (f, c) = Some (f', c') \<and> fab_run cfg clock f' \<and>
    map fst (fb_seqs f') = map fst (fb_seqs f) \<and>
    (\<forall>(k, s) \<in> set (fb_seqs f'). s_generated s = s_committed s \<and> s_committed s \<le> rq_max_generation_length (s_req s))"
  using cpu_pump.pump_until_idle_run [OF assms] by blast

theorem pump_is_run_witness:
  "\<exists>f' c'. pump_until_idle (cpu_executor demo_env) 8 (sc_admitted, new_CpuDecodeExecutor 1) = Some (f', c') \<and>
     map fst (fb_seqs f') = [21]"
proof -
  have "spacious (nat 8 * length (fb_seqs sc_admitted)) sc_admitted" by (simp add: spacious_def sc_admitted_eq)
  from pump_is_run [OF sc_reaches(1) _ this, of demo_env "new_CpuDecodeExecutor 1"] show ?thesis
    by (auto simp: sc_admitted_eq)
qed

end
