(* ===== verification/Distributed.thy ===== *)
theory Distributed
  imports Observability Pump Messages Framing
begin

text \<open>
  The coordinator and worker processes (\<^verbatim>\<open>src/distributed.cpp\<close>). Every thread of the coordinator takes a frame (or a
  scheduling turn), calls the fabric and sends frames; the fabric's lock makes each call atomic. One turn of
  a thread is a function from the coordinator's state to the frames it sends and the new state, and a run of the
  coordinator is any interleaving of turns. A failed \<^verbatim>\<open>recv_frame\<close> is the loss of the connection. The result of
  a send is ignored by the code, so a frame that is sent may or may not arrive: nothing is assumed of it.
  A status reply is assembled from several reads of the fabric; it is modelled as taken at one moment.
\<close>

section \<open>The worker descriptor on the wire\<close>

definition enc_worker :: "WorkerDescriptor \<Rightarrow> bytes" where
  "enc_worker w = w_u64 (wd_id w) @ w_u64 (wd_boot_id w) @ w_u8 (WorkerHealth_val (wd_health w)) @
     w_u64 (wd_advertised_capacity w) @ w_u64 (wd_active_reservations w) @ w_u64 (wd_generation w) @
     w_u64 (dd_id (wd_device w)) @ w_u8 (BackendKind_val (dd_backend (wd_device w))) @
     w_str (dd_name (wd_device w)) @ w_u64 (dd_memory_bytes (wd_device w)) @
     w_u32 (dd_compute_capability_major (wd_device w)) @ w_u32 (dd_compute_capability_minor (wd_device w)) @
     w_u32 (dd_supported_dtypes (wd_device w)) @ w_u32 (dd_max_groups_concurrent (wd_device w)) @
     w_u64 (of_nat (length (wd_supported_models w))) @ concat (map write_key (wd_supported_models w))"

definition read_worker :: "WorkerDescriptor reader" where
  "read_worker =
     rbind r_u64 (\<lambda>a. rbind r_u64 (\<lambda>b. rbind r_u8 (\<lambda>c. rbind r_u64 (\<lambda>d. rbind r_u64 (\<lambda>e. rbind r_u64 (\<lambda>f.
     rbind r_u64 (\<lambda>g. rbind r_u8 (\<lambda>h. rbind r_str (\<lambda>i. rbind r_u64 (\<lambda>j.
     rbind r_u32 (\<lambda>m1. rbind r_u32 (\<lambda>m2. rbind r_u32 (\<lambda>m3. rbind r_u32 (\<lambda>m4. rbind r_u64 (\<lambda>n.
     rbind (if n > 4096 then rfail EC_ProtocolInvalidField ''too many models'' else r_rep (unat n) read_key) (\<lambda>ks.
     rpure \<lparr>wd_id = a, wd_boot_id = b,
       wd_device = \<lparr>dd_id = g, dd_backend = BackendKind_of h, dd_name = i, dd_compute_capability_major = m1,
         dd_compute_capability_minor = m2, dd_memory_bytes = j, dd_supported_dtypes = m3,
         dd_max_groups_concurrent = m4\<rparr>,
       wd_health = WorkerHealth_of c, wd_advertised_capacity = d, wd_active_reservations = e,
       wd_supported_models = ks, wd_generation = f\<rparr>))))))))))))))))"

definition dec_worker :: "bytes \<Rightarrow> WorkerDescriptor result" where
  "dec_worker bytes = run_reader read_worker bytes"

definition wf_worker :: "WorkerDescriptor \<Rightarrow> bool" where
  "wf_worker w \<longleftrightarrow> WorkerHealth_ok (wd_health w) \<and> BackendKind_ok (dd_backend (wd_device w)) \<and>
     small_bytes (dd_name (wd_device w)) \<and> length (wd_supported_models w) \<le> 4096 \<and>
     list_all wf_key (wd_supported_models w)"

interpretation worker_msg: codec enc_worker read_worker wf_worker
proof
  show "parses read_worker (enc_worker v) v" if w: "wf_worker v" for v
  proof -
    let ?ks = "wd_supported_models v"
    have n: "unat (of_nat (length ?ks) :: u64) = length ?ks" "\<not> (of_nat (length ?ks) :: u64) > 4096"
      using w by (simp_all add: wf_worker_def unat_of_nat word_less_nat_alt)
    have ks: "parses (if (of_nat (length ?ks) :: u64) > 4096 then rfail EC_ProtocolInvalidField ''too many models''
        else r_rep (unat (of_nat (length ?ks) :: u64)) read_key) (concat (map write_key ?ks)) ?ks"
      using n key_msg.elements_parse [of ?ks] w by (simp add: wf_worker_def list_all_iff)
    show ?thesis
      unfolding read_worker_def enc_worker_def
      by (rule parses_intros ks | simp add: w [unfolded wf_worker_def])+
  qed
  show "extends read_worker"
    unfolding read_worker_def by (rule parses_intros key_msg.dec_extends)+
qed

definition make_supported_key :: "DeviceId \<Rightarrow> BackendKind \<Rightarrow> CompatibilityKey" where
  "make_supported_key device backend = default_CompatibilityKey\<lparr>ck_model := 1, ck_revision := 1,
     ck_backend := backend, ck_device := device, ck_dtype := DT_F32\<rparr>"

section \<open>The coordinator\<close>

type_synonym conn = nat

record Coordinator =
  co_fabric :: Fabric
  co_worker_conns :: "(WorkerId, conn) umap"

type_synonym sends = "(FrameType \<times> bytes) list"

datatype flow = Continue | Stop

definition worker_hello :: "conn \<Rightarrow> bytes \<Rightarrow> Coordinator \<Rightarrow> WorkerDescriptor option \<times> Coordinator" where
  "worker_hello sp payload co =
    (case dec_worker payload of
       Inl _ \<Rightarrow> (None, co)
     | Inr w \<Rightarrow> (Some w, co\<lparr>co_fabric := snd (register_worker w (co_fabric co)),
                              co_worker_conns := umap_set (wd_id w) sp (co_worker_conns co)\<rparr>))"

definition worker_lost :: "WorkerId \<Rightarrow> Coordinator \<Rightarrow> Coordinator" where
  "worker_lost w co = co\<lparr>co_fabric := snd (mark_worker_dead w (co_fabric co)),
     co_worker_conns := umap_erase w (co_worker_conns co)\<rparr>"

definition authorization_frames :: "GrantOrAbort list \<Rightarrow> sends" where
  "authorization_frames members = concat (map (\<lambda>ga.
     if ga_has_grant ga then [(FT_CommitGrant, encode_commit_grant (ga_grant ga))]
     else if ga_has_abort ga then [(FT_AbortPrepared, encode_abort_prepared (ga_abort_spec ga))]
     else []) members)"

definition worker_frame :: "WorkerId \<Rightarrow> Frame \<Rightarrow> Coordinator \<Rightarrow> sends \<times> Coordinator \<times> flow" where
  "worker_frame w f co =
    (if fr_type f = FT_PreparedResult then
       (case decode_prepared_result (fr_payload f) of
          Inl _ \<Rightarrow> ([], co, Continue)
        | Inr res \<Rightarrow>
           (case authorize_prepared res (co_fabric co) of
              (Inl _, fab) \<Rightarrow> ([], co\<lparr>co_fabric := fab\<rparr>, Continue)
            | (Inr auth, fab) \<Rightarrow> (authorization_frames (ar_members auth), co\<lparr>co_fabric := fab\<rparr>, Continue)))
     else if fr_type f = FT_CommitReceipt then
       (case decode_commit_receipts (fr_payload f) of
          Inl _ \<Rightarrow> ([], co, Continue)
        | Inr rc \<Rightarrow> ([], co\<lparr>co_fabric := snd (apply_commit_receipt rc (co_fabric co))\<rparr>, Continue))
     else if fr_type f = FT_Shutdown then
       ([], co\<lparr>co_worker_conns := umap_erase w (co_worker_conns co)\<rparr>, Stop)
     else ([], co, Continue))"

definition status_reply :: "u32 \<Rightarrow> u32 \<Rightarrow> Stats \<Rightarrow> u32 \<Rightarrow> u64 \<Rightarrow> u64 \<Rightarrow> StatusReply" where
  "status_reply active ready st groups stale epoch =
     \<lparr>sr_active = active, sr_ready = ready, sr_generated_tokens = st_generated_tokens st,
      sr_decode_steps = st_decode_steps st, sr_groups = groups, sr_requests_admitted = st_requests_admitted st,
      sr_stale_rejections = stale, sr_epoch = epoch\<rparr>"

definition authority_reply :: "SequenceId \<Rightarrow> DispatchAuthority \<Rightarrow> AuthorityReply" where
  "authority_reply seq ia =
    (if da_exists ia
     then \<lparr>au_exists = True, au_sequence = seq, au_dispatch = da_dispatch ia, au_epoch = da_epoch ia,
           au_worker = da_worker ia, au_worker_boot = da_worker_boot ia, au_attempt = da_attempt ia,
           au_generation = da_generation ia, au_generated = da_generated ia\<rparr>
     else \<lparr>au_exists = False, au_sequence = seq, au_dispatch = 0, au_epoch = 0, au_worker = 0,
           au_worker_boot = 0, au_attempt = 0, au_generation = 0, au_generated = 0\<rparr>)"

definition client_frame :: "Frame \<Rightarrow> Coordinator \<Rightarrow> sends \<times> Coordinator \<times> flow" where
  "client_frame f co =
    (let fab = co_fabric co in
     case fr_type f of
       FT_SubmitRequest \<Rightarrow>
         (case decode_submit_request (fr_payload f) of
            Inl _ \<Rightarrow> ([], co, Continue)
          | Inr req \<Rightarrow>
             (case submit req fab of (d, fab') \<Rightarrow>
               ([(FT_SubmitAck, encode_submit_ack \<lparr>sa_admitted = ad_admitted d, sa_sequence = ad_sequence d,
                  sa_reason = ad_reason d\<rparr>)], co\<lparr>co_fabric := fab'\<rparr>, Continue)))
     | FT_CancelRequest \<Rightarrow>
         (case decode_query (fr_payload f) of
            Inl _ \<Rightarrow> ([], co, Continue)
          | Inr q \<Rightarrow>
             (case cancel_request (qr_request q) fab of (r, fab') \<Rightarrow>
               ([(FT_Acknowledge, [if cn_cancelled r then 1 else 0])], co\<lparr>co_fabric := fab'\<rparr>, Continue)))
     | FT_StatusQuery \<Rightarrow>
         (let sn = snapshot fab in
          ([(FT_StatusReply, encode_status_reply (status_reply (ucast (sn_active sn)) (ucast (sn_ready sn)) (sn_stats sn)
             (of_nat (length (sn_groups sn))) (stale_rejections fab) (current_epoch fab)))], co, Continue))
     | FT_SnapshotRequest \<Rightarrow>
         ([(FT_SnapshotReply, encode_snapshot_reply (snapshot_to_json (snapshot fab)))], co, Continue)
     | FT_GetAuthority \<Rightarrow>
         (case decode_get_authority (fr_payload f) of
            Inl _ \<Rightarrow> ([(FT_AuthorityReply, encode_authority_reply (authority_reply id_null default_DispatchAuthority))], co, Continue)
          | Inr q \<Rightarrow> ([(FT_AuthorityReply, encode_authority_reply
                        (authority_reply (ga_sequence q) (in_flight_authority (ga_sequence q) fab)))], co, Continue))
     | FT_ExecuteResult \<Rightarrow>
         (case decode_execute_result (fr_payload f) of
            Inl _ \<Rightarrow> ([], co, Continue)
          | Inr res \<Rightarrow>
             (let fab' = snd (apply_completion res fab) in
              ([(FT_StatusReply, encode_status_reply (status_reply (active_sequences fab') (ready_sequences fab')
                 (stats fab') 0 0 0))], co\<lparr>co_fabric := fab'\<rparr>, Continue)))
     | FT_ExplainRequest \<Rightarrow>
         (let erp = (case decode_explain_request (fr_payload f) of
                       Inl _ \<Rightarrow> \<lparr>xp_text = ''bad explain request'', xp_json = ''{}''\<rparr>
                     | Inr eq \<Rightarrow> (let ex = explain (xq_sequence eq) (xq_question eq) fab
                                  in \<lparr>xp_text = xp_answer ex, xp_json = explain_to_json ex\<rparr>))
          in ([(FT_ExplainReply, encode_explain_reply erp)], co, Continue))
     | FT_RollEpoch \<Rightarrow>
         (let fab' = snd (roll_epoch fab); sn = snapshot fab' in
          ([(FT_StatusReply, encode_status_reply (status_reply (ucast (sn_active sn)) (ucast (sn_ready sn)) (sn_stats sn)
             0 (stale_rejections fab') (current_epoch fab')))], co\<lparr>co_fabric := fab'\<rparr>, Continue))
     | FT_Shutdown \<Rightarrow> ([], co, Stop)
     | _ \<Rightarrow> ([], co, Continue))"

definition dispatch_frames :: "Coordinator \<Rightarrow> Dispatch list \<Rightarrow> (conn \<times> FrameType \<times> bytes) list" where
  "dispatch_frames co ds = concat (map (\<lambda>d.
     case umap_find (co_worker_conns co) (di_worker d) of
       None \<Rightarrow> []
     | Some c \<Rightarrow> [(c, FT_ExecuteRequest, encode_execute_request (execution_request d))]) ds)"

definition schedule_turn :: "Coordinator \<Rightarrow> (conn \<times> FrameType \<times> bytes) list \<times> Coordinator" where
  "schedule_turn co =
    (case schedule 0 (co_fabric co) of (ds, fab) \<Rightarrow> (dispatch_frames co ds, co\<lparr>co_fabric := fab\<rparr>))"

section \<open>Starting and stopping\<close>

text \<open>The main thread counts its turns; \<open>None\<close> is a loop that never ends.\<close>

partial_function (option) main_loop :: "bool \<Rightarrow> int \<Rightarrow> int \<Rightarrow> int option" where
  "main_loop running max_loops loops =
    (if \<not> running then Some loops
     else if max_loops > 0 \<and> loops \<ge> max_loops then Some loops
     else main_loop running max_loops (loops + 1))"

definition coordinator_running :: "int option \<Rightarrow> bool" where
  "coordinator_running arg = ((case arg of Some loops \<Rightarrow> loops | None \<Rightarrow> - 1) < 0)"

definition coordinator_loops :: "int option \<Rightarrow> int option" where
  "coordinator_loops arg =
     main_loop (coordinator_running arg) (case arg of Some loops \<Rightarrow> loops | None \<Rightarrow> - 1) 0"

section \<open>The worker\<close>

definition worker_descriptor :: "WorkerId \<Rightarrow> WorkerBootId \<Rightarrow> DeviceId \<Rightarrow> BackendKind \<Rightarrow> DeviceDescriptor \<Rightarrow> WorkerDescriptor" where
  "worker_descriptor wid boot dev kb device = \<lparr>wd_id = wid, wd_boot_id = boot, wd_device = device,
     wd_health = WH_Healthy, wd_advertised_capacity = 256, wd_active_reservations = 0,
     wd_supported_models = [make_supported_key dev kb], wd_generation = 0\<rparr>"

definition failed_prepare :: "DecodeExecutionRequest \<Rightarrow> Error \<Rightarrow> PreparedDecode" where
  "failed_prepare req e = \<lparr>pd_dispatch_id = er_dispatch_id req, pd_epoch = er_epoch req, pd_worker = er_worker req,
     pd_worker_boot = er_worker_boot req, pd_members = [], pd_group_active_ns = 0, pd_group_error = err_code e,
     pd_group_error_message = err_message e\<rparr>"

definition grant_receipts :: "CommitGrant \<Rightarrow> MemberReceipt result \<Rightarrow> ReceiptDecode" where
  "grant_receipts g cres = \<lparr>rd_dispatch_id = cg_dispatch g, rd_epoch = cg_epoch g, rd_worker = cg_worker g,
     rd_worker_boot = cg_worker_boot g,
     rd_receipts = (case cres of Inl _ \<Rightarrow> [] | Inr mr \<Rightarrow> [mr\<lparr>mr_committed_at := 0\<rparr>]),
     rd_group_error = EC_Ok, rd_group_error_message = []\<rparr>"

definition worker_turn :: "'e Executor \<Rightarrow> Frame \<Rightarrow> 'e \<Rightarrow> sends \<times> 'e \<times> flow" where
  "worker_turn ex fr e =
    (if fr_type fr = FT_ExecuteRequest then
       (case decode_execute_request (fr_payload fr) of
          Inl _ \<Rightarrow> ([], e, Continue)
        | Inr req \<Rightarrow>
           (case ex_prepare ex req e of
              (Inr pd, e') \<Rightarrow> ([(FT_PreparedResult, encode_prepared_result pd)], e', Continue)
            | (Inl err, e') \<Rightarrow> ([(FT_PreparedResult, encode_prepared_result (failed_prepare req err))], e', Continue)))
     else if fr_type fr = FT_CommitGrant then
       (case decode_commit_grant (fr_payload fr) of
          Inl _ \<Rightarrow> ([], e, Continue)
        | Inr g \<Rightarrow>
           (case ex_commit ex g e of
              (cres, e') \<Rightarrow> ([(FT_CommitReceipt, encode_commit_receipts (grant_receipts g cres))], e', Continue)))
     else if fr_type fr = FT_AbortPrepared then
       (case decode_abort_prepared (fr_payload fr) of
          Inl _ \<Rightarrow> ([], e, Continue)
        | Inr ab \<Rightarrow> ([], snd (ex_abort ex ab e), Continue))
     else if fr_type fr = FT_Shutdown then ([(FT_WorkerShutdownAck, [])], e, Stop)
     else ([], e, Continue))"

section \<open>Clients\<close>

text \<open>The results of \<^verbatim>\<open>connect\<close>, \<^verbatim>\<open>send_frame\<close> and \<^verbatim>\<open>recv_frame\<close> are arguments.\<close>

definition client_submit :: "unit result \<Rightarrow> unit result \<Rightarrow> Frame result \<Rightarrow> SubmitAck result" where
  "client_submit cr sr fr = result_bind cr (\<lambda>_. result_bind sr (\<lambda>_. result_bind fr (\<lambda>f.
     if fr_type f \<noteq> FT_SubmitAck then failed EC_ProtocolMalformed ''expected SubmitAck''
     else decode_submit_ack (fr_payload f))))"

definition client_status :: "unit result \<Rightarrow> Frame result \<Rightarrow> StatusReply result" where
  "client_status cr fr = result_bind cr (\<lambda>_. result_bind fr (\<lambda>f.
     if fr_type f \<noteq> FT_StatusReply then failed EC_ProtocolMalformed ''expected StatusReply''
     else decode_status_reply (fr_payload f)))"

section \<open>Turns are operations of the fabric\<close>

text \<open>The operations a frame stands for.\<close>

definition worker_ops :: "Frame \<Rightarrow> fab_op list" where
  "worker_ops f =
    (if fr_type f = FT_PreparedResult
       then (case decode_prepared_result (fr_payload f) of Inl _ \<Rightarrow> [] | Inr res \<Rightarrow> [AuthorizePrepared res])
     else if fr_type f = FT_CommitReceipt
       then (case decode_commit_receipts (fr_payload f) of Inl _ \<Rightarrow> [] | Inr rc \<Rightarrow> [ApplyCommitReceipt rc])
     else [])"

definition client_ops :: "Frame \<Rightarrow> fab_op list" where
  "client_ops f =
    (if fr_type f = FT_SubmitRequest
       then (case decode_submit_request (fr_payload f) of Inl _ \<Rightarrow> [] | Inr req \<Rightarrow> [Submit req])
     else if fr_type f = FT_CancelRequest
       then (case decode_query (fr_payload f) of Inl _ \<Rightarrow> [] | Inr q \<Rightarrow> [CancelRequest (qr_request q)])
     else if fr_type f = FT_ExecuteResult
       then (case decode_execute_result (fr_payload f) of Inl _ \<Rightarrow> [] | Inr res \<Rightarrow> [ApplyCompletion res])
     else if fr_type f = FT_RollEpoch then [RollEpoch]
     else [])"

definition hello_ops :: "bytes \<Rightarrow> fab_op list" where
  "hello_ops payload = (case dec_worker payload of Inl _ \<Rightarrow> [] | Inr w \<Rightarrow> [RegisterWorker w])"

lemma worker_frame_ops: "co_fabric (fst (snd (worker_frame w f co))) = fold perform (worker_ops f) (co_fabric co)"
  by (auto simp: worker_frame_def worker_ops_def split: sum.split prod.split)

lemma client_frame_ops: "co_fabric (fst (snd (client_frame f co))) = fold perform (client_ops f) (co_fabric co)"
  by (cases "fr_type f") (simp_all add: client_frame_def client_ops_def Let_def split: sum.split prod.split)

lemma hello_ops: "co_fabric (snd (worker_hello sp p co)) = fold perform (hello_ops p) (co_fabric co)"
  by (simp add: worker_hello_def hello_ops_def split: sum.split)

lemma lost_ops: "co_fabric (worker_lost w co) = perform (MarkWorkerDead w) (co_fabric co)"
  by (simp add: worker_lost_def)

lemma turn_ops: "co_fabric (snd (schedule_turn co)) = perform (Schedule 0) (co_fabric co)"
  by (simp add: schedule_turn_def split: prod.split)

section \<open>Runs of the coordinator\<close>

text \<open>Any interleaving of connections, frames from workers and clients, lost connections and scheduling turns,
  with arbitrary payloads, as long as the operations the frames stand for are permitted.\<close>

inductive coord_run :: "Config \<Rightarrow> (nat \<Rightarrow> TimePoint) \<Rightarrow> Coordinator \<Rightarrow> bool" for cfg clock where
  start: "coord_run cfg clock \<lparr>co_fabric = new_Fabric cfg clock, co_worker_conns = []\<rparr>"
| hello: "coord_run cfg clock co \<Longrightarrow> list_all (\<lambda>x. permitted x (co_fabric co)) (hello_ops p) \<Longrightarrow>
    coord_run cfg clock (snd (worker_hello sp p co))"
| worker: "coord_run cfg clock co \<Longrightarrow> list_all (\<lambda>x. permitted x (co_fabric co)) (worker_ops f) \<Longrightarrow>
    coord_run cfg clock (fst (snd (worker_frame w f co)))"
| client: "coord_run cfg clock co \<Longrightarrow> coord_run cfg clock (fst (snd (client_frame f co)))"
| lost: "coord_run cfg clock co \<Longrightarrow> coord_run cfg clock (worker_lost w co)"
| turn: "coord_run cfg clock co \<Longrightarrow> permitted (Schedule 0) (co_fabric co) \<Longrightarrow> coord_run cfg clock (snd (schedule_turn co))"

lemma one_op_run:
  "fab_run cfg clock f \<Longrightarrow> list_all (\<lambda>x. permitted x f) xs \<Longrightarrow> length xs \<le> 1 \<Longrightarrow> fab_run cfg clock (fold perform xs f)"
  by (cases xs) (auto intro: fab_run.op)

lemma client_ops_permitted: "list_all (\<lambda>x. permitted x f) (client_ops fr)"
  by (simp add: client_ops_def split: sum.split)

lemma ops_length: "length (worker_ops f) \<le> 1" "length (client_ops f) \<le> 1" "length (hello_ops p) \<le> 1"
  by (simp_all add: worker_ops_def client_ops_def hello_ops_def split: sum.split)

lemma coord_run_fabric: "coord_run cfg clock co \<Longrightarrow> fab_run cfg clock (co_fabric co)"
proof (induction rule: coord_run.induct)
  case start
  show ?case by (simp add: fab_run.start)
next
  case (hello co p sp)
  then show ?case unfolding hello_ops by (intro one_op_run ops_length)
next
  case (worker co f w)
  then show ?case unfolding worker_frame_ops by (intro one_op_run ops_length)
next
  case (client co f)
  then show ?case unfolding client_frame_ops by (intro one_op_run ops_length client_ops_permitted)
next
  case (lost co w)
  then show ?case unfolding lost_ops by (intro fab_run.op) simp_all
next
  case (turn co)
  then show ?case unfolding turn_ops by (intro fab_run.op)
qed

section \<open>Properties\<close>


lemma sc_wf: "wf_worker sc_worker" "wf_submit_request sc_request" "wf_prepared_result sc_prepared" "wf_commit_receipts sc_receipts"
  by (simp_all add: wf_worker_def wf_submit_request_def wf_prepared_result_def wf_commit_receipts_def wf_prepared_member_def
      wf_receipt_def wf_key_def wf_outcome_def small_bytes_def small_list_def sc_worker_def sc_request_def sc_prepared_def sc_receipts_def sc_member_def
      sc_receipt_def sc_key_def default_DecodeRequest_def default_DeviceDescriptor_def default_CompatibilityKey_def
      default_MemberOutcome_def default_MemberReceipt_def)

lemma sc_coordinator:
  "coord_run default_Config of_nat \<lparr>co_fabric = sc_admitted, co_worker_conns = [(5, 1)]\<rparr>"
proof -
  let ?c0 = "\<lparr>co_fabric = sc_start, co_worker_conns = []\<rparr>"
  let ?c1 = "\<lparr>co_fabric = sc_registered, co_worker_conns = [(5, 1)]\<rparr>"
  have d: "dec_worker (enc_worker sc_worker) = Inr sc_worker" "decode_submit_request (encode_submit_request sc_request) = Inr sc_request"
    using worker_msg.decode_encoded [OF sc_wf(1), of "[]"] submit_request_msg.decode_encoded [OF sc_wf(2), of "[]"]
    by (simp_all add: dec_worker_def decode_submit_request_def)
  have "coord_run default_Config of_nat ?c0" unfolding sc_start_def by (rule coord_run.start)
  then have "coord_run default_Config of_nat (snd (worker_hello 1 (enc_worker sc_worker) ?c0))"
    by (rule coord_run.hello) (simp add: hello_ops_def d, simp add: sc_worker_def)
  also have "snd (worker_hello 1 (enc_worker sc_worker) ?c0) = ?c1"
    by (simp add: worker_hello_def d sc_registered_def) (simp add: sc_worker_def umap_set_def umap_find_def)
  finally have "coord_run default_Config of_nat (fst (snd (client_frame (frame_of FT_SubmitRequest (encode_submit_request sc_request)) ?c1)))"
    by (rule coord_run.client)
  then show ?thesis
    by (simp add: client_frame_def frame_of_def d sc_admitted_def Let_def case_prod_beta)
qed


text \<open>C16: The wire is transparent to the transaction protocol. A message within the wire limits acts on its
  receiver exactly as the direct call on the value that was sent: the worker prepares the very request,
  commits the very grant and aborts the very proposal, and the coordinator authorises the very prepared
  result and applies the very receipts.\<close>

theorem wire_is_transparent:
  shows "(wf_execute_request req \<longrightarrow> worker_turn ex (frame_of FT_ExecuteRequest (encode_execute_request req)) e =
      ([(FT_PreparedResult, encode_prepared_result (case fst (ex_prepare ex req e) of Inr pd' \<Rightarrow> pd' | Inl err \<Rightarrow> failed_prepare req err))],
       snd (ex_prepare ex req e), Continue)) \<and>
    (wf_commit_grant g \<longrightarrow> worker_turn ex (frame_of FT_CommitGrant (encode_commit_grant g)) e =
      ([(FT_CommitReceipt, encode_commit_receipts (grant_receipts g (fst (ex_commit ex g e))))], snd (ex_commit ex g e), Continue)) \<and>
    worker_turn ex (frame_of FT_AbortPrepared (encode_abort_prepared ab)) e = ([], snd (ex_abort ex ab e), Continue) \<and>
    (wf_prepared_result pd \<longrightarrow> worker_frame w (frame_of FT_PreparedResult (encode_prepared_result pd)) co =
      (case fst (authorize_prepared pd (co_fabric co)) of
         Inl _ \<Rightarrow> ([], co\<lparr>co_fabric := snd (authorize_prepared pd (co_fabric co))\<rparr>, Continue)
       | Inr auth \<Rightarrow> (authorization_frames (ar_members auth), co\<lparr>co_fabric := snd (authorize_prepared pd (co_fabric co))\<rparr>, Continue))) \<and>
    (wf_commit_receipts rc \<longrightarrow> worker_frame w (frame_of FT_CommitReceipt (encode_commit_receipts rc)) co =
      ([], co\<lparr>co_fabric := snd (apply_commit_receipt rc (co_fabric co))\<rparr>, Continue))"
proof -
  have d: "wf_execute_request req \<Longrightarrow> decode_execute_request (encode_execute_request req) = Inr req"
    "wf_commit_grant g \<Longrightarrow> decode_commit_grant (encode_commit_grant g) = Inr g"
    "decode_abort_prepared (encode_abort_prepared ab) = Inr ab"
    "wf_prepared_result pd \<Longrightarrow> decode_prepared_result (encode_prepared_result pd) = Inr pd"
    "wf_commit_receipts rc \<Longrightarrow> decode_commit_receipts (encode_commit_receipts rc) = Inr rc"
    using execute_request_msg.decode_encoded [of req "[]"] commit_grant_msg.decode_encoded [of g "[]"]
      abort_prepared_msg.decode_encoded [of ab "[]"] prepared_result_msg.decode_encoded [of pd "[]"]
      commit_receipts_msg.decode_encoded [of rc "[]"]
    by (simp_all add: decode_execute_request_def decode_commit_grant_def decode_abort_prepared_def
        decode_prepared_result_def decode_commit_receipts_def)
  then show ?thesis
    by (simp add: worker_turn_def worker_frame_def frame_of_def split: prod.split sum.split)
qed

theorem wire_is_transparent_witness:
  "fst (snd (worker_turn (cpu_executor demo_env) (frame_of FT_ExecuteRequest (encode_execute_request demo_request))
       (new_CpuDecodeExecutor 1))) = snd demo_prepared \<and>
   co_fabric (fst (snd (worker_frame 5 (frame_of FT_PreparedResult (encode_prepared_result sc_prepared))
       \<lparr>co_fabric = sc_scheduled, co_worker_conns = [(5, 1)]\<rparr>))) = sc_granted \<and>
   co_fabric (fst (snd (worker_frame 5 (frame_of FT_CommitReceipt (encode_commit_receipts sc_receipts))
       \<lparr>co_fabric = sc_granted, co_worker_conns = [(5, 1)]\<rparr>))) = sc_done"
proof -
  let ?e = "new_CpuDecodeExecutor 1" and ?a = "\<lparr>co_fabric = sc_scheduled, co_worker_conns = [(5, 1)]\<rparr>"
    and ?b = "\<lparr>co_fabric = sc_granted, co_worker_conns = [(5, 1)]\<rparr>"
  note t = wire_is_transparent [of demo_request "cpu_executor demo_env" ?e sc_grant "member_abort sc_member" sc_prepared 5 _ sc_receipts]
  have w: "wf_execute_request demo_request"
    by (simp add: wf_execute_request_def demo_request_def wf_key_def wf_device_def wf_member_def small_bytes_def small_list_def
        default_CompatibilityKey_def default_DeviceDescriptor_def)
  have "fst (snd (worker_turn (cpu_executor demo_env) (frame_of FT_ExecuteRequest (encode_execute_request demo_request)) ?e)) = snd demo_prepared"
    using t [THEN conjunct1] w by (simp add: demo_prepared_def cpu_executor_def)
  moreover have "co_fabric (fst (snd (worker_frame 5 (frame_of FT_PreparedResult (encode_prepared_result sc_prepared)) ?a))) = sc_granted"
    using t [of ?a, THEN conjunct2, THEN conjunct2, THEN conjunct2, THEN conjunct1] sc_wf(3)
    by (simp add: sc_granted_def split: sum.split)
  moreover have "co_fabric (fst (snd (worker_frame 5 (frame_of FT_CommitReceipt (encode_commit_receipts sc_receipts)) ?b))) = sc_done"
    using t [of ?b, THEN conjunct2, THEN conjunct2, THEN conjunct2, THEN conjunct2] sc_wf(4)
    by (simp add: sc_done_def)
  ultimately show ?thesis by blast
qed

lemma submit_reason_small: "small_bytes (ad_reason (fst (submit req f)))"
proof -
  have "small_bytes (err_message e)" if "validate req = Inl e" for e
    using that by (auto simp: validate_def failed_def small_bytes_def split: if_splits)
  moreover have "small_bytes why" if "backpressure_reason r g = Some why" for why r g
    using that by (auto simp: backpressure_reason_def small_bytes_def Let_def split: if_splits)
  ultimately show ?thesis
    by (auto simp: submit_def rejected_def admit_def Let_def small_bytes_def split: sum.split prod.split option.split)
qed

text \<open>C34: A remote submission is a local one. For a well-formed request the client receives exactly the decision
  the fabric takes on it (admitted or not, the sequence, the reason), and the coordinator's fabric is the
  one that decision leaves.\<close>

theorem remote_submit_is_local:
  assumes "wf_submit_request req"
  shows "\<exists>payload co'. client_frame (frame_of FT_SubmitRequest (encode_submit_request req)) co =
      ([(FT_SubmitAck, payload)], co', Continue) \<and> co_fabric co' = snd (submit req (co_fabric co)) \<and>
    client_submit (Inr ()) (Inr ()) (Inr (frame_of FT_SubmitAck payload)) =
      Inr \<lparr>sa_admitted = ad_admitted (fst (submit req (co_fabric co))), sa_sequence = ad_sequence (fst (submit req (co_fabric co))),
           sa_reason = ad_reason (fst (submit req (co_fabric co)))\<rparr>"
proof -
  let ?d = "fst (submit req (co_fabric co))"
  let ?ack = "\<lparr>sa_admitted = ad_admitted ?d, sa_sequence = ad_sequence ?d, sa_reason = ad_reason ?d\<rparr>"
  have "decode_submit_request (encode_submit_request req) = Inr req"
    using submit_request_msg.decode_encoded [OF assms, of "[]"] by (simp add: decode_submit_request_def)
  moreover have "decode_submit_ack (encode_submit_ack ?ack) = Inr ?ack"
    using submit_ack_msg.decode_encoded [of ?ack "[]"] submit_reason_small [of req "co_fabric co"]
    by (simp add: decode_submit_ack_def wf_submit_ack_def)
  ultimately show ?thesis
    by (simp add: client_frame_def frame_of_def client_submit_def case_prod_beta Let_def)
qed

theorem remote_submit_is_local_witness:
  "\<exists>payload co'. client_frame (frame_of FT_SubmitRequest (encode_submit_request sc_request))
      \<lparr>co_fabric = sc_registered, co_worker_conns = [(5, 1)]\<rparr> = ([(FT_SubmitAck, payload)], co', Continue) \<and> co_fabric co' = sc_admitted"
  using remote_submit_is_local [OF sc_wf(2), of "\<lparr>co_fabric = sc_registered, co_worker_conns = [(5, 1)]\<rparr>"]
  by (auto simp: sc_admitted_def)

section \<open>Divergences\<close>

text \<open>A coordinator started with a number of loops runs none of them: \<^verbatim>\<open>running\<close> is false from the start.\<close>

lemma given_loops_never_run: "0 \<le> n \<Longrightarrow> coordinator_loops (Some n) = Some 0"
  by (simp add: coordinator_loops_def coordinator_running_def main_loop.simps)

text \<open>When the old connection of a worker is noticed as lost after the worker has reconnected under a new boot,
  the new boot is marked dead and its connection forgotten.\<close>

lemma release_workers: "fb_workers (snd (release_reservation k f)) = fb_workers f"
  by (simp add: release_reservation_def Let_def split: option.split)

lemma requeue_dead_workers: "fb_workers (fold (requeue_dead w) ks f) = fb_workers f"
  by (induction ks arbitrary: f)
    (simp_all add: requeue_dead_def Let_def releasing_def tick_def release_workers)

lemma late_loss_kills_new_boot:
  assumes "umap_find (fb_workers f) w = Some wd" 
  shows "umap_find (co_worker_conns (worker_lost w \<lparr>co_fabric = f, co_worker_conns = umap_set w sp conns\<rparr>)) w = None \<and>
    (\<exists>wd'. umap_find (fb_workers (co_fabric (worker_lost w \<lparr>co_fabric = f, co_worker_conns = umap_set w sp conns\<rparr>))) w = Some wd' \<and>
       wd_boot_id wd' = wd_boot_id wd \<and> wd_health wd' = WH_Failed)"
  using assms by (simp add: worker_lost_def mark_worker_dead_def requeue_dead_workers Let_def)

text \<open>A worker whose prepare fails answers with a result without members; the coordinator changes no sequence on it,
  so the dispatched sequences stay dispatched.\<close>

lemma failed_prepare_changes_no_sequence:
  "fb_seqs (snd (authorize_prepared (failed_prepare req e) f)) = fb_seqs f"
  by (simp add: authorize_prepared_def failed_prepare_def)

end
