(* ===== verification/CudaExecutor.thy ===== *)
theory CudaExecutor
  imports CpuExecutor
begin

text \<open>
  The CUDA decode executor (\<^verbatim>\<open>include/decodefabric/cuda_executor.hpp\<close>, \<^verbatim>\<open>src/cuda_executor.cu\<close>). The device memory is
  an explicit store from addresses to buffers: the committed and the tentative vector of a state are pointers
  into it, and \<^verbatim>\<open>nullptr\<close> is the address 0, which is never allocated. Each call of the CUDA runtime may fail; \<open>gv_fails\<close> says which calls of a run do.
  A failed copy leaves its destination with arbitrary contents. An access to memory that is not allocated, and a
  second \<^verbatim>\<open>cudaFree\<close>, set \<open>gp_faulted\<close>.

  \<^verbatim>\<open>tanhf\<close> and \<^verbatim>\<open>sinf\<close> of the host and of the device, the sum of three products and the
  multiply-add of the kernel, which the device compiler may contract, the error texts and the measured durations are fields of the environment, arbitrary in every theorem.
\<close>

section \<open>Single precision\<close>

text \<open>A \<^verbatim>\<open>float\<close> is its 32-bit pattern. A sum or product of two floats rounded to double and then to float is the
  correctly rounded one, so the operations are those of \<open>Float64\<close> between conversions.\<close>

type_synonym float = u32

definition f32_signed :: "bool \<Rightarrow> float \<Rightarrow> float" where
  "f32_signed neg m = (if neg then m OR 0x80000000 else m)"

definition f32_round :: "int \<Rightarrow> int \<Rightarrow> float" where
  "f32_round num ex =
    (if num = 0 then 0
     else
       let k = max (int_bits num - 24) (- 149 - ex);
           n = shl num (- k);
           d = shl 1 k;
           q = n div d;
           r = n mod d;
           q' = (if 2 * r > d \<or> (2 * r = d \<and> odd q) then q + 1 else q);
           m = (k + ex + 149) * 2 ^ 23 + q'
       in if m \<ge> 255 * 2 ^ 23 then 0x7F800000 else word_of_int m)"

definition f32_of_f64 :: "double \<Rightarrow> float" where
  "f32_of_f64 d =
    (if f64_is_nan d then 0x7FC00000
     else if f64_is_inf d then f32_signed (f64_sign d) 0x7F800000
     else f32_signed (f64_sign d) (f32_round \<bar>f64_int d\<bar> (f64_scale d)))"

definition f32_to_f64 :: "float \<Rightarrow> double" where
  "f32_to_f64 b =
    (let e = drop_bit 23 b AND 0xFF; frac = b AND 0x7FFFFF in
     if e = 255 then (if frac = 0 then f64_signed (bit b 31) f64_inf else f64_nan)
     else f64_signed (bit b 31)
       (f64_round (if e = 0 then uint frac else uint frac + 2 ^ 23) 1 (if e = 0 then - 149 else uint e - 150)))"

definition f32_add :: "float \<Rightarrow> float \<Rightarrow> float" where
  "f32_add a b = f32_of_f64 (f64_add (f32_to_f64 a) (f32_to_f64 b))"

definition f32_mul :: "float \<Rightarrow> float \<Rightarrow> float" where
  "f32_mul a b = f32_of_f64 (f64_mul (f32_to_f64 a) (f32_to_f64 b))"

definition f32_of_int :: "int \<Rightarrow> float" where
  "f32_of_int i = f32_signed (i < 0) (f32_round \<bar>i\<bar> 0)"

definition f32_less :: "float \<Rightarrow> float \<Rightarrow> bool" where
  "f32_less a b = f64_less (f32_to_f64 a) (f32_to_f64 b)"

section \<open>The CUDA runtime\<close>

datatype DevBuf = Floats "float list" | Word32 u32 | Word64 u64

record Gpu =
  gp_heap :: "(nat, DevBuf) umap"
  gp_next :: nat
  gp_calls :: nat
  gp_faulted :: bool

record CudaEnv =
  gv_fails :: "nat \<Rightarrow> bool"
  gv_garbage :: "nat \<Rightarrow> nat \<Rightarrow> float"
  gv_error_string :: "nat \<Rightarrow> string"
  gv_tanhf :: "float \<Rightarrow> float"
  gv_sinf :: "float \<Rightarrow> float"
  gv_dev_tanhf :: "float \<Rightarrow> float"
  gv_dev_sinf :: "float \<Rightarrow> float"
  gv_dev_acc :: "float \<Rightarrow> float \<Rightarrow> float \<Rightarrow> float \<Rightarrow> float \<Rightarrow> float \<Rightarrow> float"
  gv_dev_score :: "float \<Rightarrow> float \<Rightarrow> float \<Rightarrow> float"
  gv_elapsed :: "ProposalId \<Rightarrow> Nanoseconds"

text \<open>A call that touches no memory: \<^verbatim>\<open>cudaSetDevice\<close>, a kernel launch, \<^verbatim>\<open>cudaDeviceSynchronize\<close>.\<close>

definition cuda_call :: "CudaEnv \<Rightarrow> Gpu \<Rightarrow> bool \<times> Gpu" where
  "cuda_call env g = (\<not> gv_fails env (gp_calls g), g\<lparr>gp_calls := gp_calls g + 1\<rparr>)"

definition garbage_like :: "CudaEnv \<Rightarrow> nat \<Rightarrow> DevBuf \<Rightarrow> DevBuf" where
  "garbage_like env n b = (case b of
     Floats xs \<Rightarrow> Floats (map (gv_garbage env n) [0..<length xs])
   | Word32 _ \<Rightarrow> Word32 (gv_garbage env n 0)
   | Word64 _ \<Rightarrow> Word64 (ucast (gv_garbage env n 0)))"

text \<open>\<open>shape\<close> is a buffer of the requested size.\<close>

definition cudaMalloc :: "CudaEnv \<Rightarrow> DevBuf \<Rightarrow> Gpu \<Rightarrow> nat option \<times> Gpu" where
  "cudaMalloc env shape g =
    (case cuda_call env g of (ok, g1) \<Rightarrow>
      if ok then (Some (gp_next g1), g1\<lparr>gp_heap := umap_set (gp_next g1) (garbage_like env (gp_calls g) shape) (gp_heap g1),
                                        gp_next := gp_next g1 + 1\<rparr>)
      else (None, g1))"

definition cudaFree :: "nat \<Rightarrow> Gpu \<Rightarrow> Gpu" where
  "cudaFree p g = (if umap_find (gp_heap g) p = None then g\<lparr>gp_faulted := True\<rparr>
     else g\<lparr>gp_heap := umap_erase p (gp_heap g)\<rparr>)"

definition dev_read :: "nat \<Rightarrow> Gpu \<Rightarrow> DevBuf option" where
  "dev_read p g = umap_find (gp_heap g) p"

definition dev_write :: "nat \<Rightarrow> DevBuf \<Rightarrow> Gpu \<Rightarrow> Gpu" where
  "dev_write p b g = (if umap_find (gp_heap g) p = None then g\<lparr>gp_faulted := True\<rparr>
     else g\<lparr>gp_heap := umap_set p b (gp_heap g)\<rparr>)"

definition copy_to_device :: "CudaEnv \<Rightarrow> nat \<Rightarrow> DevBuf \<Rightarrow> Gpu \<Rightarrow> bool \<times> Gpu" where
  "copy_to_device env p b g =
    (case cuda_call env g of (ok, g1) \<Rightarrow> (ok, dev_write p (if ok then b else garbage_like env (gp_calls g) b) g1))"

definition copy_to_host :: "CudaEnv \<Rightarrow> nat \<Rightarrow> Gpu \<Rightarrow> DevBuf option \<times> Gpu" where
  "copy_to_host env p g =
    (case cuda_call env g of (ok, g1) \<Rightarrow>
      (case dev_read p g1 of
         None \<Rightarrow> (None, g1\<lparr>gp_faulted := True\<rparr>)
       | Some b \<Rightarrow> (if ok then Some b else None, g1)))"

definition copy_on_device :: "CudaEnv \<Rightarrow> nat \<Rightarrow> nat \<Rightarrow> Gpu \<Rightarrow> bool \<times> Gpu" where
  "copy_on_device env dst src g =
    (case dev_read src g of
       None \<Rightarrow> (False, g\<lparr>gp_faulted := True\<rparr>)
     | Some b \<Rightarrow> copy_to_device env dst b g)"

definition floats_of :: "DevBuf \<Rightarrow> float list" where
  "floats_of b = (case b of Floats xs \<Rightarrow> xs | _ \<Rightarrow> [])"

section \<open>Numeric step\<close>

definition cu_kStateSize :: u64 where
  "cu_kStateSize = 8"

definition cu_initial_state :: "StateId \<Rightarrow> u64 \<Rightarrow> float list" where
  "cu_initial_state sid seed = map f32_of_f64 (initial_loop (unat cu_kStateSize) (seed XOR sid * 0x9E3779B97F4A7C15))"

definition cu_state_checksum :: "float list \<Rightarrow> u64" where
  "cu_state_checksum s =
     fold (\<lambda>bits h. fold (\<lambda>i h. (h XOR ucast (drop_bit (8 * i) bits AND 0xFF)) * 1099511628211) [0..<4] h)
       s 1469598103934665603"

definition digest_dev :: "float list \<Rightarrow> u64 \<Rightarrow> u64 \<Rightarrow> u64" where
  "digest_dev s tokens kv_bytes = fnv_mix (fnv_mix (cu_state_checksum s) tokens) kv_bytes"

definition step_state_float :: "CudaEnv \<Rightarrow> float list \<Rightarrow> float list" where
  "step_state_float env inp =
    (let N = length inp in
     map (\<lambda>i. let prev = inp ! ((i + 1) mod N) in
       gv_tanhf env (f32_add (f32_add (f32_mul 0x3F000000 (inp ! i)) (f32_mul 0x3E800000 prev))
         (f32_mul 0x3DCCCCCD (gv_sinf env (f32_of_int (int i)))))) [0..<N])"

definition cu_step_token :: "CudaEnv \<Rightarrow> float list \<Rightarrow> u32" where
  "cu_step_token env s = fst (fold (\<lambda>i (best, bestv).
     let v = f32_add (f32_mul (s ! i) (f32_of_int (int i + 1))) (gv_sinf env (s ! i))
     in if f32_less bestv v then (of_nat i, v) else (best, bestv))
     [0..<length s] (0, 0xF149F2CA))"

text \<open>The kernel: what its threads write to the output vector, and what thread 0 writes to the token and the
  checksum after the barrier.\<close>

definition kernel_out :: "CudaEnv \<Rightarrow> float list \<Rightarrow> float list" where
  "kernel_out env inp =
    (let n = length inp in
     map (\<lambda>i. let prev = inp ! ((i + 1) mod n) in
       gv_dev_tanhf env (gv_dev_acc env 0x3F000000 (inp ! i) 0x3E800000 prev 0x3DCCCCCD (gv_dev_sinf env (f32_of_int (int i))))) [0..<n])"

definition kernel_token :: "CudaEnv \<Rightarrow> float list \<Rightarrow> u32" where
  "kernel_token env out = fst (fold (\<lambda>j (best, bestv).
     let v = gv_dev_score env (out ! j) (f32_of_int (int j + 1)) (gv_dev_sinf env (out ! j))
     in if f32_less bestv v then (of_nat j, v) else (best, bestv))
     [0..<length out] (0, 0xF149F2CA))"

definition kernel_checksum :: "float list \<Rightarrow> u64" where
  "kernel_checksum out = fold (\<lambda>v h.
     let bits = fold (\<lambda>k b. b OR push_bit (8 * k) (ucast (drop_bit (8 * k) v AND 0xFF))) [0..<4] (0 :: u64)
     in fold (\<lambda>k h. (h XOR (drop_bit (8 * k) bits AND 0xFF)) * 1099511628211) [0..<4] h)
     out 1469598103934665603"

definition df_decode_step_kernel :: "CudaEnv \<Rightarrow> nat \<Rightarrow> nat \<Rightarrow> nat \<Rightarrow> nat \<Rightarrow> Gpu \<Rightarrow> Gpu" where
  "df_decode_step_kernel env inp out token cksum g =
    (case dev_read inp g of
       None \<Rightarrow> g\<lparr>gp_faulted := True\<rparr>
     | Some b \<Rightarrow>
        let res = kernel_out env (floats_of b) in
        dev_write cksum (Word64 (kernel_checksum res)) (dev_write token (Word32 (kernel_token env res)) (dev_write out (Floats res) g)))"

section \<open>State\<close>

record DevState =
  ds_device :: nat
  ds_tentative :: nat
  ds_kv_bytes :: u64
  ds_tokens :: u64
  ds_token :: u32
  ds_checksum :: u64
  ds_inited :: bool
  ds_has_tentative :: bool
  ds_prepared_proposal :: ProposalId
  ds_prepared_attempt :: AttemptId
  ds_prepared_generation :: DecodeGeneration
  ds_prepared_sequence :: SequenceId
  ds_prepared_worker :: WorkerId
  ds_prepared_worker_boot :: WorkerBootId
  ds_prepared_epoch :: CoordinatorEpoch
  ds_prepared_dispatch :: DispatchId
  ds_tentative_kv_bytes :: u64
  ds_tentative_token :: u32
  ds_tentative_checksum :: u64
  ds_prepared_pre_digest :: u64
  ds_prepared_post_digest :: u64

definition default_DevState :: DevState where
  "default_DevState = \<lparr>ds_device = 0, ds_tentative = 0, ds_kv_bytes = 0, ds_tokens = 0, ds_token = 0,
     ds_checksum = 0, ds_inited = False, ds_has_tentative = False, ds_prepared_proposal = 0, ds_prepared_attempt = 0,
     ds_prepared_generation = 0, ds_prepared_sequence = 0, ds_prepared_worker = 0, ds_prepared_worker_boot = 0,
     ds_prepared_epoch = 0, ds_prepared_dispatch = 0, ds_tentative_kv_bytes = 0, ds_tentative_token = 0,
     ds_tentative_checksum = 0, ds_prepared_pre_digest = 0, ds_prepared_post_digest = 0\<rparr>"

record CudaDecodeExecutor =
  gx_states :: "(StateId, DevState) umap"
  gx_receipts_by_grant :: "(GrantId, MemberReceipt) umap"
  gx_consumed_proposals :: "(ProposalId, bool) umap"
  gx_next_proposal :: u64
  gx_device_id :: DeviceId
  gx_id :: ExecutorId
  gx_device :: DeviceDescriptor
  gx_gpu :: Gpu

text \<open>\<open>prop\<close> is what \<^verbatim>\<open>cudaGetDeviceProperties\<close> reports: name, capability and memory, or nothing when it fails.\<close>

definition new_CudaDecodeExecutor :: "DeviceId \<Rightarrow> (string \<times> u32 \<times> u32 \<times> u64) option \<Rightarrow> CudaDecodeExecutor" where
  "new_CudaDecodeExecutor device_id prop =
    (let d = default_DeviceDescriptor\<lparr>dd_id := device_id, dd_backend := BK_CUDA, dd_compute_capability_major := 0,
       dd_compute_capability_minor := 0\<rparr> in
     \<lparr>gx_states = [], gx_receipts_by_grant = [], gx_consumed_proposals = [], gx_next_proposal = 0,
      gx_device_id = device_id, gx_id = 2,
      gx_device = (case prop of
         Some (name, major, minor, mem) \<Rightarrow> d\<lparr>dd_name := name, dd_compute_capability_major := major,
           dd_compute_capability_minor := minor, dd_memory_bytes := mem,
           dd_supported_dtypes := push_bit (unat (DType_val DT_F32)) 1, dd_max_groups_concurrent := 1\<rparr>
       | None \<Rightarrow> d\<lparr>dd_name := ''cuda_device_unavailable'', dd_supported_dtypes := 0\<rparr>),
      gx_gpu = \<lparr>gp_heap = [], gp_next = 1, gp_calls = 0, gp_faulted = False\<rparr>\<rparr>)"

definition cu_supports :: "CudaDecodeExecutor \<Rightarrow> CompatibilityKey \<Rightarrow> bool" where
  "cu_supports x key \<longleftrightarrow> ck_backend key = BK_CUDA \<and> ck_device key = gx_device_id x"

definition free_unless_null :: "nat \<Rightarrow> Gpu \<Rightarrow> Gpu" where
  "free_unless_null p g = (if p = 0 then g else cudaFree p g)"

definition cu_destroy :: "CudaDecodeExecutor \<Rightarrow> CudaDecodeExecutor" where
  "cu_destroy x = x\<lparr>gx_gpu := fold (\<lambda>(k, st) g. free_unless_null (ds_tentative st) (free_unless_null (ds_device st) g)) (gx_states x) (gx_gpu x),
     gx_states := []\<rparr>"

section \<open>Prepare\<close>

text \<open>The reconstruction loop on the host copy, with the token and byte counts of the state.\<close>

function cu_catch_up :: "CudaEnv \<Rightarrow> u64 \<Rightarrow> float list \<times> u64 \<times> u64 \<Rightarrow> float list \<times> u64 \<times> u64" where
  "cu_catch_up env gen (host, tokens, kv) =
    (if tokens < gen then cu_catch_up env gen (step_state_float env host, tokens + 1, kv + 64) else (host, tokens, kv))"
  by pat_completeness auto
termination
proof (relation "measure (\<lambda>(env, gen, host, tokens, kv). unat gen - unat tokens)", goal_cases)
  case (2 env gen host tokens kv)
  then have "unat (tokens + 1) = unat tokens + 1" by (intro unat_add_one)
  then show ?case using 2 by (simp add: word_less_nat_alt)
qed simp

declare cu_catch_up.simps [simp del]

definition cu_initialize :: "CudaEnv \<Rightarrow> DecodeMemberSpec \<Rightarrow> DevState \<times> Gpu \<Rightarrow> unit result \<times> DevState \<times> Gpu" where
  "cu_initialize env m = (\<lambda>(st, g).
    if ds_inited st then (Inr (), st, g)
    else let init = Floats (cu_initial_state (sd_id (ms_state m)) (ms_attempt m)) in
      (case cudaMalloc env init g of
         (None, g1) \<Rightarrow> (failed EC_BackendError ''cudaMalloc committed failed'', st, g1)
       | (Some p, g1) \<Rightarrow>
          (case copy_to_device env p init g1 of (ok, g2) \<Rightarrow>
             if \<not> ok then (failed EC_BackendError ''cudaMemcpy init failed'', st\<lparr>ds_device := 0\<rparr>, cudaFree p g2)
             else (Inr (), st\<lparr>ds_device := p, ds_kv_bytes := sd_bytes_held (ms_state m), ds_tokens := 0, ds_token := 0,
               ds_checksum := 0, ds_inited := True\<rparr>, g2))))"

definition cu_reconstruct :: "CudaEnv \<Rightarrow> DecodeMemberSpec \<Rightarrow> DevState \<times> Gpu \<Rightarrow> unit result \<times> DevState \<times> Gpu" where
  "cu_reconstruct env m = (\<lambda>(st, g).
    if \<not> ds_tokens st < ms_generated_tokens m then (Inr (), st, g)
    else case copy_to_host env (ds_device st) g of
        (None, g1) \<Rightarrow> (failed EC_BackendError ''cudaMemcpy reconstruction read failed'', st, g1)
      | (Some b, g1) \<Rightarrow>
         (case cu_catch_up env (ms_generated_tokens m) (floats_of b, ds_tokens st, ds_kv_bytes st) of (host, tokens, kv) \<Rightarrow>
           let st1 = st\<lparr>ds_tokens := tokens, ds_kv_bytes := kv\<rparr> in
           (case copy_to_device env (ds_device st) (Floats host) g1 of (ok, g2) \<Rightarrow>
              if \<not> ok then (failed EC_BackendError ''cudaMemcpy reconstruction write failed'', st1, g2)
              else (Inr (), st1, g2))))"

definition cu_ensure_initialized :: "CudaEnv \<Rightarrow> DecodeMemberSpec \<Rightarrow> DevState \<times> Gpu \<Rightarrow> unit result \<times> DevState \<times> Gpu" where
  "cu_ensure_initialized env m sg =
    (case cu_initialize env m sg of
       (Inl e, sg1) \<Rightarrow> (Inl e, sg1)
     | (Inr _, sg1) \<Rightarrow> cu_reconstruct env m sg1)"

definition cu_clear_tentative :: "DevState \<times> Gpu \<Rightarrow> DevState \<times> Gpu" where
  "cu_clear_tentative = (\<lambda>(st, g).
    (st\<lparr>ds_tentative := 0, ds_has_tentative := False, ds_prepared_proposal := id_null, ds_prepared_attempt := id_null,
        ds_prepared_generation := id_null, ds_prepared_sequence := id_null, ds_prepared_worker := id_null,
        ds_prepared_worker_boot := id_null, ds_prepared_epoch := id_null, ds_prepared_dispatch := id_null,
        ds_tentative_kv_bytes := 0, ds_tentative_token := 0, ds_tentative_checksum := 0\<rparr>,
     free_unless_null (ds_tentative st) g))"

text \<open>The launch and the copies of its results, between the allocation of the two scratch cells and their release.
  On every failure the caller clears the tentative transition.\<close>

definition kernel_results :: "CudaEnv \<Rightarrow> nat \<Rightarrow> nat \<Rightarrow> nat \<Rightarrow> Gpu \<Rightarrow> (string + u32 \<times> u64 \<times> float list) \<times> Gpu" where
  "kernel_results env d_token d_cksum tentative g =
    (case copy_to_host env d_token g of
       (None, g1) \<Rightarrow> (Inl ''cudaMemcpy token failed'', cudaFree d_cksum (cudaFree d_token g1))
     | (Some tb, g1) \<Rightarrow>
    (case copy_to_host env d_cksum g1 of
       (None, g2) \<Rightarrow> (Inl ''cudaMemcpy cksum failed'', cudaFree d_cksum (cudaFree d_token g2))
     | (Some cb, g2) \<Rightarrow>
    (case copy_to_host env tentative (cudaFree d_cksum (cudaFree d_token g2)) of
       (None, g3) \<Rightarrow> (Inl ''cudaMemcpy tentative failed'', g3)
     | (Some b, g3) \<Rightarrow>
        (Inr (case tb of Word32 t \<Rightarrow> t | _ \<Rightarrow> 0, case cb of Word64 c \<Rightarrow> c | _ \<Rightarrow> 0, floats_of b), g3))))"

definition run_kernel :: "CudaEnv \<Rightarrow> nat \<Rightarrow> nat \<Rightarrow> Gpu \<Rightarrow> (string + u32 \<times> u64 \<times> float list) \<times> Gpu" where
  "run_kernel env device tentative g =
    (case cudaMalloc env (Word32 0) g of
       (None, g1) \<Rightarrow> (Inl ''cudaMalloc token failed'', g1)
     | (Some d_token, g1) \<Rightarrow>
    (case cudaMalloc env (Word64 0) g1 of
       (None, g2) \<Rightarrow> (Inl ''cudaMalloc cksum failed'', cudaFree d_token g2)
     | (Some d_cksum, g2) \<Rightarrow>
    (case cuda_call env g2 of (ke, g3) \<Rightarrow>
     if \<not> ke then (Inl (''kernel launch failed: '' @ gv_error_string env (gp_calls g2)), cudaFree d_cksum (cudaFree d_token g3))
     else
    (case cuda_call env (df_decode_step_kernel env device tentative d_token d_cksum g3) of (se, g4) \<Rightarrow>
     if \<not> se then (Inl (''cudaDeviceSynchronize failed: '' @ gv_error_string env (gp_calls g3)), cudaFree d_cksum (cudaFree d_token g4))
     else kernel_results env d_token d_cksum tentative g4))))"

definition cu_outcome :: "DecodeMemberSpec \<Rightarrow> Nanoseconds \<Rightarrow> u32 \<Rightarrow> u64 \<Rightarrow> MemberOutcome" where
  "cu_outcome m ns token kv =
    (let mo = default_MemberOutcome\<lparr>mo_sequence := ms_sequence m, mo_kind := MK_StepSuccessContinue,
           mo_attempt := ms_attempt m, mo_generation := ms_generation m, mo_generated := 1,
           mo_token_identifier := ucast token, mo_terminal := False, mo_started_at := 0,
           mo_finished_at := ns, mo_active_ns := ns, mo_kv_bytes_delta := 64,
           mo_kv_bytes_after := kv + 64, mo_retryable := False\<rparr>;
         max = ms_generated_tokens m + ms_remaining_budget m;
         eos = (if length (ms_payload m) \<ge> 1 then ms_payload m ! 0 AND 0x01 \<noteq> 0 else False);
         eos_target = (if length (ms_payload m) \<ge> 2 then ucast (ms_payload m ! 1) else 0)
     in if (eos \<and> token = eos_target) \<or> ms_generated_tokens m + 1 \<ge> max
        then mo\<lparr>mo_kind := MK_StepSuccessTerminal, mo_terminal := True\<rparr> else mo)"

definition cu_stage :: "DecodeMemberSpec \<Rightarrow> DecodeExecutionRequest \<Rightarrow> ProposalId \<Rightarrow> u32 \<Rightarrow> u64 \<Rightarrow> u64 \<Rightarrow> u64 \<Rightarrow> DevState \<Rightarrow> DevState" where
  "cu_stage m req proposal token cksum pre post st =
     st\<lparr>ds_has_tentative := True, ds_prepared_proposal := proposal, ds_prepared_attempt := ms_attempt m,
        ds_prepared_generation := ms_generation m, ds_prepared_sequence := ms_sequence m,
        ds_prepared_worker := er_worker req, ds_prepared_worker_boot := er_worker_boot req,
        ds_prepared_epoch := er_epoch req, ds_prepared_dispatch := er_dispatch_id req,
        ds_tentative_kv_bytes := ds_kv_bytes st + 64, ds_tentative_token := token, ds_tentative_checksum := cksum,
        ds_prepared_pre_digest := pre, ds_prepared_post_digest := post\<rparr>"

definition cu_prepared_member :: "CudaEnv \<Rightarrow> DecodeMemberSpec \<Rightarrow> ProposalId \<Rightarrow> u32 \<Rightarrow> u64 \<Rightarrow> u64 \<Rightarrow> DevState \<Rightarrow> PreparedMember" where
  "cu_prepared_member env m proposal token pre post st =
    (let ns = gv_elapsed env proposal in
     \<lparr>pm_sequence = ms_sequence m, pm_state = sd_id (ms_state m), pm_attempt = ms_attempt m,
      pm_generation = ms_generation m, pm_dispatch = id_null, pm_epoch = id_null, pm_worker = id_null,
      pm_worker_boot = id_null, pm_proposal = proposal, pm_pre_state_digest = pre, pm_post_state_digest = post,
      pm_delta_digest = fnv_mix pre post, pm_outcome = cu_outcome m ns token (ds_kv_bytes st),
      pm_committed_position_before = ds_tokens st, pm_committed_position_after = ds_tokens st + 1, pm_active_ns = ns\<rparr>)"

text \<open>The part of \<^verbatim>\<open>prepare_member\<close> after the conflict checks.\<close>

definition cu_prepare_step :: "CudaEnv \<Rightarrow> DecodeMemberSpec \<Rightarrow> DecodeExecutionRequest \<Rightarrow> ProposalId \<Rightarrow> DevState \<times> Gpu \<Rightarrow>
    PreparedMember result \<times> DevState \<times> Gpu" where
  "cu_prepare_step env m req proposal = (\<lambda>(st, g).
    (case copy_to_host env (ds_device st) g of
       (None, g1) \<Rightarrow> (failed EC_BackendError ''cudaMemcpy committed failed'', st, g1)
     | (Some b, g1) \<Rightarrow>
    (let pre = digest_dev (floats_of b) (ds_tokens st) (ds_kv_bytes st) in
     case (if ds_tentative st \<noteq> 0 then (Some (ds_tentative st), g1) else cudaMalloc env b g1) of
       (None, g2) \<Rightarrow> (failed EC_BackendError ''cudaMalloc tentative failed'', st, g2)
     | (Some t, g2) \<Rightarrow>
    (let st1 = st\<lparr>ds_tentative := t\<rparr> in
     case run_kernel env (ds_device st) t g2 of
       (Inl msg, g3) \<Rightarrow> (failed EC_BackendError msg, cu_clear_tentative (st1, g3))
     | (Inr (token, cksum, next), g3) \<Rightarrow>
        let post = digest_dev next (ds_tokens st + 1) (ds_kv_bytes st + 64) in
        (Inr (cu_prepared_member env m proposal token pre post st1), cu_stage m req proposal token cksum pre post st1, g3)))))"

definition cu_prepare_member :: "CudaEnv \<Rightarrow> DecodeMemberSpec \<Rightarrow> DecodeExecutionRequest \<Rightarrow> CudaDecodeExecutor \<Rightarrow>
    PreparedMember result \<times> CudaDecodeExecutor" where
  "cu_prepare_member env m req x =
    (case cuda_call env (gx_gpu x) of (ok, g) \<Rightarrow>
     if \<not> ok then (failed EC_BackendError (''cudaSetDevice failed: '' @ gv_error_string env (gp_calls (gx_gpu x))), x\<lparr>gx_gpu := g\<rparr>)
     else
       let sid = sd_id (ms_state m);
           put = (\<lambda>(st, g). x\<lparr>gx_states := umap_set sid st (gx_states x), gx_gpu := g\<rparr>)
       in
       (case cu_ensure_initialized env m (umap_get default_DevState (gx_states x) sid, g) of
          (Inl e, sg) \<Rightarrow> (Inl e, put sg)
        | (Inr _, sg) \<Rightarrow>
           let st = fst sg in
           if ds_has_tentative st \<and> ds_prepared_attempt st = ms_attempt m \<and> ds_prepared_generation st = ms_generation m
             then (failed EC_DuplicateCompletion ''duplicate prepare for the same authoritative generation'', put sg)
           else if ds_has_tentative st \<and> ds_prepared_attempt st = ms_attempt m
             then (failed EC_TransactionConflict ''prepare out of order: prior generation unresolved'', put sg)
           else
             let sg1 = (if ds_has_tentative st then cu_clear_tentative sg else sg);
                 proposal = gx_next_proposal x + 1
             in (case cu_prepare_step env m req proposal sg1 of
                   (Inl e, sg2) \<Rightarrow> (Inl e, put sg2)
                 | (Inr pm, sg2) \<Rightarrow> (Inr pm, (put sg2)\<lparr>gx_next_proposal := proposal\<rparr>))))"

fun cu_prepare_loop :: "CudaEnv \<Rightarrow> DecodeExecutionRequest \<Rightarrow> DecodeMemberSpec list \<Rightarrow> PreparedMember list \<Rightarrow>
    CudaDecodeExecutor \<Rightarrow> PreparedMember list result \<times> CudaDecodeExecutor" where
  "cu_prepare_loop env req [] out x = (Inr out, x)"
| "cu_prepare_loop env req (m # ms) out x =
    (case cu_prepare_member env m req x of
       (Inl e, x') \<Rightarrow> (Inl e, x')
     | (Inr pm, x') \<Rightarrow> cu_prepare_loop env req ms (out @ [bind_member req pm]) x')"

definition cu_set_device :: "CudaEnv \<Rightarrow> CudaDecodeExecutor \<Rightarrow> bool \<times> CudaDecodeExecutor" where
  "cu_set_device env x = (case cuda_call env (gx_gpu x) of (ok, g) \<Rightarrow> (ok, x\<lparr>gx_gpu := g\<rparr>))"

definition cu_prepare :: "CudaEnv \<Rightarrow> DecodeExecutionRequest \<Rightarrow> CudaDecodeExecutor \<Rightarrow> PreparedDecode result \<times> CudaDecodeExecutor" where
  "cu_prepare env req x =
    (case cu_set_device env x of (ok, x0) \<Rightarrow>
     if \<not> ok then (failed EC_BackendError ''cudaSetDevice failed'', x0)
     else (case cu_prepare_loop env req (er_members req) [] x0 of
         (Inl e, x') \<Rightarrow> (Inl e, x')
       | (Inr pms, x') \<Rightarrow>
           (Inr \<lparr>pd_dispatch_id = er_dispatch_id req, pd_epoch = er_epoch req, pd_worker = er_worker req,
              pd_worker_boot = er_worker_boot req, pd_members = pms,
              pd_group_active_ns = fold (\<lambda>pm t. t + pm_active_ns pm) pms 0,
              pd_group_error = EC_Ok, pd_group_error_message = []\<rparr>, x')))"

section \<open>Commit and abort\<close>

definition cu_grant_receipt :: "CommitGrant \<Rightarrow> u64 \<Rightarrow> MemberReceipt" where
  "cu_grant_receipt grant before =
     \<lparr>mr_receipt_id = cg_grant_id grant, mr_grant_id = cg_grant_id grant,
      mr_proposal = cg_proposal grant, mr_epoch = cg_epoch grant, mr_worker = cg_worker grant,
      mr_worker_boot = cg_worker_boot grant, mr_sequence = cg_sequence grant,
      mr_state = cg_state grant, mr_attempt = cg_attempt grant,
      mr_generation = cg_generation grant, mr_dispatch = cg_dispatch grant,
      mr_committed_position_before = before, mr_committed_position_after = before + 1,
      mr_pre_state_digest = cg_pre_state_digest grant, mr_post_state_digest = cg_post_state_digest grant,
      mr_delta_digest = cg_delta_digest grant, mr_outcome_kind = cg_outcome_kind grant,
      mr_terminal = cg_terminal grant, mr_token_identifier = cg_token_identifier grant,
      mr_active_ns = cg_active_ns grant, mr_committed_at = 0\<rparr>"

text \<open>The digest checks and the promotion, on the state of the grant.\<close>

definition cu_promote :: "CudaEnv \<Rightarrow> CommitGrant \<Rightarrow> DevState \<times> Gpu \<Rightarrow> MemberReceipt result \<times> DevState \<times> Gpu" where
  "cu_promote env grant = (\<lambda>(st, g).
    (case copy_to_host env (ds_device st) g of
       (None, g1) \<Rightarrow> (failed EC_BackendError ''cudaMemcpy committed failed'', st, g1)
     | (Some b, g1) \<Rightarrow>
       if digest_dev (floats_of b) (ds_tokens st) (ds_kv_bytes st) \<noteq> cg_pre_state_digest grant \<or>
          ds_prepared_pre_digest st \<noteq> cg_pre_state_digest grant
         then (failed EC_StateDigestMismatch ''grant pre-state digest mismatch'', st, g1)
       else if ds_prepared_post_digest st \<noteq> cg_post_state_digest grant
         then (failed EC_StateDigestMismatch ''grant post-state digest mismatch'', st, g1)
       else (case copy_on_device env (ds_device st) (ds_tentative st) g1 of (ok, g2) \<Rightarrow>
         if \<not> ok then (failed EC_BackendError ''cudaMemcpy promote failed'', st, g2)
         else (Inr (cu_grant_receipt grant (ds_tokens st)),
           cu_clear_tentative (st\<lparr>ds_kv_bytes := ds_tentative_kv_bytes st, ds_tokens := ds_tokens st + 1,
             ds_token := ds_tentative_token st, ds_checksum := ds_tentative_checksum st\<rparr>, g2)))))"

definition cu_commit :: "CudaEnv \<Rightarrow> CommitGrant \<Rightarrow> CudaDecodeExecutor \<Rightarrow> MemberReceipt result \<times> CudaDecodeExecutor" where
  "cu_commit env grant x =
    (case cu_set_device env x of (ok, x0) \<Rightarrow>
     if \<not> ok then (failed EC_BackendError ''cudaSetDevice failed'', x0)
     else (case umap_find (gx_receipts_by_grant x0) (cg_grant_id grant) of
       Some existing \<Rightarrow>
         if receipt_same existing grant then (Inr existing, x0)
         else (failed EC_DuplicateCompletion ''conflicting reuse of an already-consumed commit grant'', x0)
     | None \<Rightarrow>
      (case umap_find (gx_states x0) (cg_state grant) of
         None \<Rightarrow> (failed EC_UnknownState ''no prepared transition for grant state'', x0)
       | Some st \<Rightarrow>
             if \<not> ds_has_tentative st \<or> ds_tentative st = 0
               then (failed EC_UnknownState ''no prepared transition for grant state'', x0)
             else if ds_prepared_proposal st \<noteq> cg_proposal grant \<or> ds_prepared_attempt st \<noteq> cg_attempt grant \<or>
                 ds_prepared_generation st \<noteq> cg_generation grant \<or> ds_prepared_sequence st \<noteq> cg_sequence grant \<or>
                 ds_prepared_worker st \<noteq> cg_worker grant \<or> ds_prepared_worker_boot st \<noteq> cg_worker_boot grant \<or>
                 ds_prepared_epoch st \<noteq> cg_epoch grant \<or> ds_prepared_dispatch st \<noteq> cg_dispatch grant
               then (failed EC_SupersededByRetry ''grant proposal/authority mismatch'', x0)
             else if ds_tokens st \<noteq> cg_committed_position grant
               then (failed EC_InvalidArgument ''grant committed-position mismatch'', x0)
             else (case cu_promote env grant (st, gx_gpu x0) of
                 (Inl e, st1, g1) \<Rightarrow> (Inl e, x0\<lparr>gx_states := umap_set (cg_state grant) st1 (gx_states x0), gx_gpu := g1\<rparr>)
               | (Inr rec, st1, g1) \<Rightarrow>
                   (Inr rec, x0\<lparr>gx_states := umap_set (cg_state grant) st1 (gx_states x0), gx_gpu := g1,
                      gx_consumed_proposals := umap_set (cg_proposal grant) True (gx_consumed_proposals x0),
                      gx_receipts_by_grant := umap_set (cg_grant_id grant) rec (gx_receipts_by_grant x0)\<rparr>)))))"

definition cu_abort :: "CudaEnv \<Rightarrow> AbortPrepared \<Rightarrow> CudaDecodeExecutor \<Rightarrow> unit result \<times> CudaDecodeExecutor" where
  "cu_abort env abort x =
    (case cu_set_device env x of (ok, x0) \<Rightarrow>
     if \<not> ok then (failed EC_BackendError ''cudaSetDevice failed'', x0)
     else if umap_find (gx_consumed_proposals x0) (ab_proposal abort) \<noteq> None
       then (failed EC_AlreadyTerminal ''abort after commit'', x0)
     else (case umap_find (gx_states x0) (ab_state abort) of
         None \<Rightarrow> (Inr (), x0)
       | Some st \<Rightarrow>
           if ds_has_tentative st \<and> ds_prepared_proposal st = ab_proposal abort
             then (case cu_clear_tentative (st, gx_gpu x0) of (st1, g1) \<Rightarrow>
               (Inr (), x0\<lparr>gx_states := umap_set (ab_state abort) st1 (gx_states x0), gx_gpu := g1\<rparr>))
           else (Inr (), x0)))"

section \<open>Introspection\<close>

definition cu_committed_state_digest :: "CudaEnv \<Rightarrow> StateId \<Rightarrow> CudaDecodeExecutor \<Rightarrow> u64 \<times> CudaDecodeExecutor" where
  "cu_committed_state_digest env id' x =
    (case umap_find (gx_states x) id' of
       None \<Rightarrow> (0, x)
     | Some st \<Rightarrow>
        if \<not> ds_inited st then (0, x)
        else (case copy_to_host env (ds_device st) (gx_gpu x) of
            (None, g) \<Rightarrow> (0, x\<lparr>gx_gpu := g\<rparr>)
          | (Some b, g) \<Rightarrow> (digest_dev (floats_of b) (ds_tokens st) (ds_kv_bytes st), x\<lparr>gx_gpu := g\<rparr>)))"

definition cu_has_prepared :: "CudaDecodeExecutor \<Rightarrow> StateId \<Rightarrow> ProposalId \<Rightarrow> bool" where
  "cu_has_prepared x id' proposal =
    (case umap_find (gx_states x) id' of
       None \<Rightarrow> False
     | Some st \<Rightarrow> ds_has_tentative st \<and> ds_prepared_proposal st = proposal)"

definition cu_committed_tokens :: "CudaDecodeExecutor \<Rightarrow> StateId \<Rightarrow> u64" where
  "cu_committed_tokens x id' = (case umap_find (gx_states x) id' of None \<Rightarrow> 0 | Some st \<Rightarrow> ds_tokens st)"

definition dev_committed_checksum :: "CudaDecodeExecutor \<Rightarrow> StateId \<Rightarrow> u64" where
  "dev_committed_checksum x id' = (case umap_find (gx_states x) id' of None \<Rightarrow> 0 | Some st \<Rightarrow> ds_checksum st)"

end
