(* ===== verification/Cli.thy ===== *)
theory Cli
  imports Persistence Distributed CudaExecutor
begin

text \<open>
  The command line tool, \<^verbatim>\<open>cli/main.cpp\<close>: the parsing of its arguments, the request it sends, one exchange with a
  coordinator per command, and what it prints and returns. \<open>argv\<close> is the list of argument strings with the
  program name first. The network is a parameter: what \<^verbatim>\<open>connect\<close> and \<^verbatim>\<open>send_frame\<close> return at an address
  and the frame that comes back. \<^verbatim>\<open>serve\<close>, \<^verbatim>\<open>worker\<close> and \<^verbatim>\<open>bench\<close> are parameters of \<open>cli_main\<close>:
  the first two start the processes (\<open>coordinator_main\<close>, \<open>worker_start\<close>) whose turns the coordinator and worker model
  describes, the last prints wall-clock rates.
\<close>

section \<open>Numbers on the command line\<close>

definition isspace :: "char \<Rightarrow> bool" where
  "isspace c \<longleftrightarrow> (let n = of_char c :: nat in n = 32 \<or> 9 \<le> n \<and> n \<le> 13)"

definition isdigit :: "char \<Rightarrow> bool" where
  "isdigit c \<longleftrightarrow> (let n = of_char c :: nat in 48 \<le> n \<and> n \<le> 57)"

text \<open>The sign and the magnitude of the number a string starts with; no digits read as 0.\<close>

definition read_number :: "string \<Rightarrow> bool \<times> nat" where
  "read_number s =
    (let t = dropWhile isspace s;
         neg = (t \<noteq> [] \<and> hd t = CHR ''-'');
         u = (if t \<noteq> [] \<and> (hd t = CHR ''-'' \<or> hd t = CHR ''+'') then tl t else t)
     in (neg, fold (\<lambda>c n. 10 * n + (of_char c - 48)) (takeWhile isdigit u) 0))"

text \<open>\<^verbatim>\<open>strtoull\<close> saturates and negates modulo \<open>2 ^ 64\<close>.\<close>

definition strtoull :: "string \<Rightarrow> u64" where
  "strtoull s = (case read_number s of (neg, n) \<Rightarrow>
     if n \<ge> 2 ^ 64 then - 1 else if neg then - of_nat n else of_nat n)"

definition atoi :: "string \<Rightarrow> int" where
  "atoi s = (case read_number s of (neg, n) \<Rightarrow> if neg then - int n else int n)"

text \<open>\<^verbatim>\<open>%s\<close> prints up to the first NUL.\<close>

definition c_str :: "string \<Rightarrow> string" where
  "c_str s = takeWhile (\<lambda>c. of_char c \<noteq> (0 :: nat)) s"

section \<open>Commands\<close>

record Net =
  nt_connect :: "string \<Rightarrow> int \<Rightarrow> unit result"
  nt_send :: "string \<Rightarrow> int \<Rightarrow> FrameType \<Rightarrow> bytes \<Rightarrow> unit result"
  nt_recv :: "string \<Rightarrow> int \<Rightarrow> FrameType \<Rightarrow> bytes \<Rightarrow> Frame result"

record CmdResult =
  cr_code :: int
  cr_out :: string
  cr_err :: string

definition newline :: string where
  "newline = [CHR 0x0A]"

definition usage :: CmdResult where
  "usage = \<lparr>cr_code = 2, cr_out = [], cr_err =
     ''DecodeFabric commands:'' @ newline @
     ''  serve <port> [loops]'' @ newline @
     ''  worker <host> <port> <worker_id> <boot_id> <device_id>'' @ newline @
     ''  submit <host> <port> <seq> <tenant> <budget> [--model N] [--rev N]'' @ newline @
     ''  status <host> <port>'' @ newline @
     ''  stats <host> <port>'' @ newline @
     ''  snapshot <host> <port>'' @ newline @
     ''  cancel <host> <port> <request_id>'' @ newline @
     ''  explain <host> <port> <seq> <question>'' @ newline @
     ''  inspect <host> <port> <seq>'' @ newline @
     ''  bench [sequences] [budget]'' @ newline @
     ''  recover <dir>'' @ newline\<rparr>"

definition cmd_fails :: "string \<Rightarrow> CmdResult" where
  "cmd_fails msg = \<lparr>cr_code = 1, cr_out = [], cr_err = msg @ newline\<rparr>"

definition cmd_prints :: "string \<Rightarrow> CmdResult" where
  "cmd_prints s = \<lparr>cr_code = 0, cr_out = s, cr_err = []\<rparr>"

text \<open>The loop over the options: each argument from the eighth on that has a successor.\<close>

definition option_value :: "string \<Rightarrow> string list \<Rightarrow> u64 \<Rightarrow> u64" where
  "option_value name argv = fold (\<lambda>i v. if argv ! i = name then strtoull (argv ! (i + 1)) else v) [7..<length argv - 1]"

definition demo_decode_request :: "u64 \<Rightarrow> u64 \<Rightarrow> u64 \<Rightarrow> u64 \<Rightarrow> u64 \<Rightarrow> DecodeRequest" where
  "demo_decode_request seq tenant model revision budget =
     default_DecodeRequest\<lparr>rq_id := seq, rq_initial_attempt := seq, rq_tenant := tenant, rq_model := model,
       rq_revision := revision, rq_sequence := seq, rq_prompt_length := 4, rq_max_generation_length := budget,
       rq_tenant_weight := 0x3FF0000000000000,
       rq_state := default_StateDescriptor\<lparr>sd_id := seq, sd_estimated_growth := 64\<rparr>\<rparr>"

definition submit_args :: "string list \<Rightarrow> DecodeRequest" where
  "submit_args argv = demo_decode_request (strtoull (argv ! 4)) (strtoull (argv ! 5))
     (option_value ''--model'' argv 1) (option_value ''--rev'' argv 1) (strtoull (argv ! 6))"

definition cmd_submit :: "Net \<Rightarrow> string list \<Rightarrow> CmdResult" where
  "cmd_submit net argv =
    (let host = argv ! 2; port = atoi (argv ! 3); payload = encode_submit_request (submit_args argv) in
     if isl (nt_connect net host port) then cmd_fails ''submit: connect failed''
     else if isl (nt_send net host port FT_SubmitRequest payload) then cmd_fails ''submit: send failed''
     else case nt_recv net host port FT_SubmitRequest payload of
         Inl _ \<Rightarrow> cmd_fails ''submit: no ack''
       | Inr fr \<Rightarrow>
          if fr_type fr \<noteq> FT_SubmitAck then cmd_fails ''submit: no ack''
          else (case decode_submit_ack (fr_payload fr) of
              Inl _ \<Rightarrow> \<lparr>cr_code = 1, cr_out = [], cr_err = []\<rparr>
            | Inr a \<Rightarrow>
               \<lparr>cr_code = (if sa_admitted a then 0 else 1),
                cr_out = ''submitted seq='' @ dec_u64 (sa_sequence a) @ '' admitted='' @ (if sa_admitted a then ''1'' else ''0'') @
                  '' reason='' @ c_str (sa_reason a) @ newline,
                cr_err = []\<rparr>))"

definition status_line :: "StatusReply \<Rightarrow> string" where
  "status_line s = ''active='' @ dec_u64 (ucast (sr_active s)) @ '' ready='' @ dec_u64 (ucast (sr_ready s)) @
     '' generated='' @ dec_u64 (sr_generated_tokens s) @ '' steps='' @ dec_u64 (sr_decode_steps s) @
     '' admitted='' @ dec_u64 (sr_requests_admitted s) @ '' stale='' @ dec_u64 (sr_stale_rejections s) @
     '' epoch='' @ dec_u64 (sr_epoch s) @ newline"

definition cmd_status :: "Net \<Rightarrow> string list \<Rightarrow> bool \<Rightarrow> CmdResult" where
  "cmd_status net argv snap =
    (let host = argv ! 2; port = atoi (argv ! 3); req = (if snap then FT_SnapshotRequest else FT_StatusQuery) in
     if isl (nt_connect net host port) then cmd_fails ''connect failed''
     else if isl (nt_send net host port req []) then cmd_fails ''send failed''
     else case nt_recv net host port req [] of
         Inl _ \<Rightarrow> cmd_fails ''recv failed''
       | Inr fr \<Rightarrow>
          cmd_prints
            (if snap \<and> fr_type fr = FT_SnapshotReply then
               (case decode_snapshot_reply (fr_payload fr) of Inl _ \<Rightarrow> [] | Inr j \<Rightarrow> c_str j @ newline)
             else if fr_type fr = FT_StatusReply then
               (case decode_status_reply (fr_payload fr) of Inl _ \<Rightarrow> [] | Inr s \<Rightarrow> status_line s)
             else []))"

text \<open>The result of \<^verbatim>\<open>connect\<close> is dropped by the next three commands: a failure shows as a failed send.\<close>

definition cmd_cancel :: "Net \<Rightarrow> string list \<Rightarrow> CmdResult" where
  "cmd_cancel net argv =
    (let host = argv ! 2; port = atoi (argv ! 3); req = strtoull (argv ! 4) in
     if isl (nt_send net host port FT_CancelRequest (encode_query (\<lparr>qr_request = req, qr_sequence = 0, qr_want_snapshot = False\<rparr>)))
       then cmd_fails ''cancel send failed''
     else cmd_prints (''cancel request='' @ dec_u64 req @ newline))"

definition cmd_explain :: "Net \<Rightarrow> string list \<Rightarrow> CmdResult" where
  "cmd_explain net argv =
    (let host = argv ! 2; port = atoi (argv ! 3);
         q = (if length argv > 5 then argv ! 5 else ''why_waiting'');
         payload = encode_explain_request \<lparr>xq_sequence = strtoull (argv ! 4), xq_question = q\<rparr> in
     if isl (nt_send net host port FT_ExplainRequest payload) then cmd_fails ''explain send failed''
     else cmd_prints
       (case nt_recv net host port FT_ExplainRequest payload of
          Inl _ \<Rightarrow> []
        | Inr fr \<Rightarrow>
           if fr_type fr = FT_ExplainReply then
             (case decode_explain_reply (fr_payload fr) of
                Inl _ \<Rightarrow> []
              | Inr e \<Rightarrow> c_str (xp_text e) @ newline @ ''--json--'' @ newline @ c_str (xp_json e) @ newline)
           else []))"

definition authority_line :: "AuthorityReply \<Rightarrow> string" where
  "authority_line a = ''seq='' @ dec_u64 (au_sequence a) @ '' exists='' @ (if au_exists a then ''1'' else ''0'') @
     '' in_flight_epoch='' @ dec_u64 (au_epoch a) @ '' worker='' @ dec_u64 (au_worker a) @ '' boot='' @ dec_u64 (au_worker_boot a) @
     '' attempt='' @ dec_u64 (au_attempt a) @ '' gen='' @ dec_u64 (au_generation a) @ '' generated='' @ dec_u64 (au_generated a) @ newline"

definition cmd_inspect :: "Net \<Rightarrow> string list \<Rightarrow> CmdResult" where
  "cmd_inspect net argv =
    (let host = argv ! 2; port = atoi (argv ! 3); payload = encode_get_authority \<lparr>ga_sequence = strtoull (argv ! 4)\<rparr> in
     if isl (nt_send net host port FT_GetAuthority payload) then cmd_fails ''inspect send failed''
     else cmd_prints
       (case nt_recv net host port FT_GetAuthority payload of
          Inl _ \<Rightarrow> []
        | Inr fr \<Rightarrow>
           if fr_type fr = FT_AuthorityReply then
             (case decode_authority_reply (fr_payload fr) of Inl _ \<Rightarrow> [] | Inr a \<Rightarrow> authority_line a)
           else []))"

section \<open>The recovery demonstration\<close>

definition recover_worker :: WorkerDescriptor where
  "recover_worker = \<lparr>wd_id = 1, wd_boot_id = 1, wd_device = cx_device (new_CpuDecodeExecutor 1), wd_health = WH_Healthy,
     wd_advertised_capacity = 100, wd_active_reservations = 0,
     wd_supported_models = [default_CompatibilityKey\<lparr>ck_model := 1, ck_revision := 1, ck_backend := BK_CPU,
       ck_device := 1, ck_dtype := DT_F32\<rparr>], wd_generation = 0\<rparr>"

definition recover_fabric :: "ExecEnv \<Rightarrow> Fabric" where
  "recover_fabric env =
    (let f0 = snd (register_worker recover_worker (new_Fabric default_Config (\<lambda>_. 0)));
         f1 = fold (\<lambda>i f. snd (submit (demo_decode_request (i + 1) 1 1 1 10) f)) [0, 1, 2] f0
     in fst (snd (pump_once (cpu_executor env) 0 (f1, new_CpuDecodeExecutor 1))))"

text \<open>\<open>os\<close> are the faults of the write, \<open>unreadable\<close> and \<open>lost\<close> those of the read.\<close>

definition cmd_recover :: "ExecEnv \<Rightarrow> WriteFaults \<Rightarrow> bool \<Rightarrow> nat \<Rightarrow> string list \<Rightarrow> Files \<Rightarrow> CmdResult \<times> Files" where
  "cmd_recover env os unreadable lost argv fs =
    (let dir = argv ! 2;
         image = serialize_state (recover_fabric env);
         fs1 = (case image of Inl _ \<Rightarrow> fs | Inr bs \<Rightarrow> snd (write_record os dir ''state'' bs fs));
         size = (case image of Inl _ \<Rightarrow> 0 | Inr bs \<Rightarrow> of_nat (length bs));
         report = (case read_record unreadable lost dir ''state'' fs1 of
             Inr bs \<Rightarrow>
               (case recover_state bs (new_Fabric default_Config (\<lambda>_. 0)) of (r, g) \<Rightarrow>
                  ''recovered: '' @ (case r of Inr _ \<Rightarrow> ''ok'' | Inl e \<Rightarrow> c_str (err_message e)) @
                  '' active='' @ dec_u64 (ucast (active_sequences g)) @ '' ready='' @ dec_u64 (ucast (ready_sequences g)) @ newline)
           | Inl e \<Rightarrow> ''recover: no persisted state ('' @ c_str (err_message e) @ '')'' @ newline)
     in (cmd_prints (''persisted state ('' @ dec_u64 size @ '' bytes) after partial generation'' @ newline @ report), fs1))"

section \<open>Starting the processes\<close>

text \<open>\<^verbatim>\<open>coordinator_main\<close>: \<open>listen\<close> is what binding the port answers. The result is \<^const>\<open>None\<close> when the main thread never
  leaves its loop.\<close>

definition coordinator_config :: Config where
  "coordinator_config = default_Config\<lparr>cf_group_limits := default_GroupLimits\<lparr>gl_max_sequences := 64\<rparr>\<rparr>"

definition coordinator_main :: "(int \<Rightarrow> unit result) \<Rightarrow> string list \<Rightarrow> CmdResult option" where
  "coordinator_main listen argv =
    (if length argv < 2 then Some \<lparr>cr_code = 2, cr_out = [], cr_err = ''usage: df-coordinator <port> [loops]'' @ newline\<rparr>
     else case listen (atoi (argv ! 1)) of
         Inl e \<Rightarrow> Some (cmd_fails (''coordinator error: coordinator bind failed: '' @ c_str (err_message e)))
       | Inr _ \<Rightarrow> map_option (\<lambda>_. cmd_prints []) (coordinator_loops (if length argv \<ge> 3 then Some (atoi (argv ! 2)) else None)))"

text \<open>The worker connects up to 501 times; \<open>connect n\<close> is the answer to its attempt \<open>n\<close>.\<close>

fun connect_retry :: "(nat \<Rightarrow> unit result) \<Rightarrow> nat \<Rightarrow> nat \<Rightarrow> unit result" where
  "connect_retry connect n 0 = connect n"
| "connect_retry connect n (Suc rest) = (if isl (connect n) then connect_retry connect (n + 1) rest else connect n)"

datatype WorkerStart = Refused CmdResult | Started string WorkerDescriptor

definition want_cuda :: "string list \<Rightarrow> bool" where
  "want_cuda argv \<longleftrightarrow> length argv \<ge> 6 \<and> argv ! (length argv - 1) = ''--cuda''"

text \<open>\<^verbatim>\<open>worker_main\<close> up to its loop: what it prints on the error stream and the descriptor it announces. \<open>cuda_enabled\<close> is
  the build option and \<open>prop\<close> what the CUDA runtime reports of the device.\<close>

definition worker_start :: "bool \<Rightarrow> (string \<times> u32 \<times> u32 \<times> u64) option \<Rightarrow> (nat \<Rightarrow> unit result) \<Rightarrow> string list \<Rightarrow> WorkerStart" where
  "worker_start cuda_enabled prop connect argv =
    (if length argv < 6 then Refused \<lparr>cr_code = 2, cr_out = [],
       cr_err = ''usage: df-worker <host> <port> <worker_id> <boot_id> <device_id> [--cuda]'' @ newline\<rparr>
     else case connect_retry connect 0 500 of
         Inl e \<Rightarrow> Refused (cmd_fails (''worker connect failed: '' @ c_str (err_message e)))
       | Inr _ \<Rightarrow>
          let wid = strtoull (argv ! 3); boot = strtoull (argv ! 4); dev = strtoull (argv ! 5) in
          if want_cuda argv \<and> cuda_enabled
          then Started [] (worker_descriptor wid boot dev BK_CUDA (gx_device (new_CudaDecodeExecutor dev prop)))
          else Started (if want_cuda argv then ''worker: CUDA not enabled in this build; using CPU'' @ newline else [])
            (worker_descriptor wid boot dev BK_CPU (cx_device (new_CpuDecodeExecutor dev))))"

text \<open>The loop of the worker over the frames it receives, up to a shutdown or a failed receive (the end of the list): the
  frames it sends and its executor.\<close>

fun worker_loop :: "'e Executor \<Rightarrow> Frame list \<Rightarrow> 'e \<Rightarrow> sends \<times> 'e" where
  "worker_loop ex [] e = ([], e)"
| "worker_loop ex (fr # frs) e =
    (case worker_turn ex fr e of
       (out, e', Stop) \<Rightarrow> (out, e')
     | (out, e', Continue) \<Rightarrow> (case worker_loop ex frs e' of (rest, e'') \<Rightarrow> (out @ rest, e'')))"

section \<open>Main\<close>

definition cli_main :: "(string list \<Rightarrow> CmdResult) \<Rightarrow> (string list \<Rightarrow> CmdResult) \<Rightarrow> (string list \<Rightarrow> CmdResult) \<Rightarrow>
    (string list \<Rightarrow> CmdResult) \<Rightarrow> Net \<Rightarrow> string list \<Rightarrow> CmdResult" where
  "cli_main serve work bench recover net argv =
    (let argc = length argv in
     if argc < 2 then usage
     else let cmd = argv ! 1 in
     if cmd = ''serve'' then serve (''df-coordinator'' # drop 2 argv)
     else if cmd = ''worker'' then work (drop 1 argv)
     else if cmd = ''submit'' \<and> argc \<ge> 7 then cmd_submit net argv
     else if (cmd = ''status'' \<or> cmd = ''stats'') \<and> argc \<ge> 4 then cmd_status net argv False
     else if cmd = ''snapshot'' \<and> argc \<ge> 4 then cmd_status net argv True
     else if cmd = ''cancel'' \<and> argc \<ge> 5 then cmd_cancel net argv
     else if cmd = ''explain'' \<and> argc \<ge> 5 then cmd_explain net argv
     else if cmd = ''inspect'' \<and> argc \<ge> 5 then cmd_inspect net argv
     else if cmd = ''bench'' then bench argv
     else if cmd = ''recover'' \<and> argc \<ge> 3 then recover argv
     else usage)"

section \<open>Startup\<close>

lemma connect_retry_fails: "isl (connect_retry connect n rest) \<longleftrightarrow> (\<forall>i \<le> rest. isl (connect (n + i)))"
proof (induction rest arbitrary: n)
  case (Suc rest)
  have "(\<forall>i \<le> Suc rest. isl (connect (n + i))) \<longleftrightarrow> isl (connect n) \<and> (\<forall>i < Suc rest. isl (connect (n + Suc i)))"
    by (simp add: All_less_Suc2 flip: less_Suc_eq_le)
  then show ?case using Suc.IH [of "n + 1"] by (auto simp: less_Suc_eq_le)
qed simp

lemma worker_loop_append:
  "list_all (\<lambda>fr. fr_type fr \<noteq> FT_Shutdown) frs \<Longrightarrow>
     worker_loop ex (frs @ rest) e = (case worker_loop ex frs e of (out, e') \<Rightarrow> (case worker_loop ex rest e' of (out', e'') \<Rightarrow> (out @ out', e'')))"
proof (induction frs arbitrary: e)
  case (Cons fr frs)
  obtain out e' fl where t: "worker_turn ex fr e = (out, e', fl)" by (cases "worker_turn ex fr e") auto
  have "fl = Continue" using Cons.prems t by (auto simp: worker_turn_def split: if_splits sum.splits prod.splits)
  then show ?case using Cons t by (simp split: prod.split)
qed simp

text \<open>A worker on the CPU announces a descriptor that the coordinator reads back and registers.\<close>

lemma cpu_worker_registers:
  assumes "worker_start cuda_enabled prop connect argv = Started msg w" and "\<not> (want_cuda argv \<and> cuda_enabled)"
  shows "worker_hello sp (enc_worker w) co = (Some w, co\<lparr>co_fabric := snd (register_worker w (co_fabric co)),
    co_worker_conns := umap_set (wd_id w) sp (co_worker_conns co)\<rparr>)"
proof -
  have "wf_worker w"
    using assms by (auto simp: worker_start_def worker_descriptor_def wf_worker_def make_supported_key_def wf_key_def
        new_CpuDecodeExecutor_def default_CompatibilityKey_def small_bytes_def Let_def split: if_splits sum.splits)
  then show ?thesis
    using worker_msg.decode_encoded [of w "[]"] by (simp add: worker_hello_def dec_worker_def)
qed

section \<open>Properties\<close>

text \<open>The network that leads every address to the coordinator \<open>co\<close>: the reply is its first frame.\<close>

definition wire_to :: "Coordinator \<Rightarrow> Net" where
  "wire_to co = \<lparr>nt_connect = (\<lambda>_ _. Inr ()), nt_send = (\<lambda>_ _ _ _. Inr ()),
     nt_recv = (\<lambda>_ _ t p. case fst (client_frame (frame_of t p) co) of
        [] \<Rightarrow> failed EC_BackendError ''connection closed'' | (t', p') # _ \<Rightarrow> Inr (frame_of t' p'))\<rparr>"

lemma submit_args_wf: "wf_submit_request (submit_args argv)"
  by (simp add: submit_args_def demo_decode_request_def default_DecodeRequest_def wf_submit_request_def small_bytes_def)

lemma submit_exchange:
  fixes co req
  defines "d \<equiv> fst (submit req (co_fabric co))"
  assumes "wf_submit_request req"
  shows "\<exists>p. nt_recv (wire_to co) h n FT_SubmitRequest (encode_submit_request req) = Inr (frame_of FT_SubmitAck p) \<and>
    decode_submit_ack p = Inr \<lparr>sa_admitted = ad_admitted d, sa_sequence = ad_sequence d, sa_reason = ad_reason d\<rparr>"
proof -
  let ?ack = "\<lparr>sa_admitted = ad_admitted d, sa_sequence = ad_sequence d, sa_reason = ad_reason d\<rparr>"
  have "decode_submit_request (encode_submit_request req) = Inr req"
    using submit_request_msg.decode_encoded [OF assms(2), of "[]"] by (simp add: decode_submit_request_def)
  moreover have "decode_submit_ack (encode_submit_ack ?ack) = Inr ?ack"
    using submit_ack_msg.decode_encoded [of ?ack "[]"] submit_reason_small [of req "co_fabric co"]
    by (simp add: decode_submit_ack_def wf_submit_ack_def d_def)
  ultimately show ?thesis
    by (simp add: wire_to_def client_frame_def frame_of_def case_prod_beta Let_def d_def)
qed

lemma authority_exchange:
  "\<exists>p. nt_recv (wire_to co) h n FT_GetAuthority (encode_get_authority \<lparr>ga_sequence = k\<rparr>) = Inr (frame_of FT_AuthorityReply p) \<and>
    decode_authority_reply p = Inr (authority_reply k (in_flight_authority k (co_fabric co)))"
proof -
  have "decode_get_authority (encode_get_authority \<lparr>ga_sequence = k\<rparr>) = Inr \<lparr>ga_sequence = k\<rparr>"
    using get_authority_msg.decode_encoded [of "\<lparr>ga_sequence = k\<rparr>" "[]"] by (simp add: decode_get_authority_def)
  moreover have "decode_authority_reply (encode_authority_reply a) = Inr a" for a
    using authority_reply_msg.decode_encoded [of a "[]"] by (simp add: decode_authority_reply_def)
  ultimately show ?thesis by (simp add: wire_to_def client_frame_def frame_of_def Let_def)
qed

lemma second_argument: "take 1 (drop 1 argv) = [c] \<Longrightarrow> argv ! 1 = c \<and> length argv \<ge> 2"
  by (cases argv; cases "tl argv") auto

text \<open>C36: The command line reports what the coordinator decides. Against a live coordinator, \<^verbatim>\<open>submit\<close> with enough
  arguments exits with 0 exactly when the fabric admits the request that the arguments describe, and prints the decision;
  \<^verbatim>\<open>inspect\<close> prints the authority in flight for the sequence it names; with too few arguments
  both print the usage and exit with 2.\<close>

theorem cli_reports_coordinator:
  fixes co argv argv'
  defines "d \<equiv> fst (submit (submit_args argv) (co_fabric co))" and "k \<equiv> strtoull (argv' ! 4)"
  assumes "take 1 (drop 1 argv) = [''submit'']" and "take 1 (drop 1 argv') = [''inspect'']"
  shows "cli_main serve work bench recover (wire_to co) argv = (if length argv < 7 then usage else
      \<lparr>cr_code = (if ad_admitted d then 0 else 1),
       cr_out = ''submitted seq='' @ dec_u64 (ad_sequence d) @ '' admitted='' @
         (if ad_admitted d then ''1'' else ''0'') @ '' reason='' @ c_str (ad_reason d) @ newline, cr_err = []\<rparr>) \<and>
    cli_main serve work bench recover (wire_to co) argv' = (if length argv' < 5 then usage else
      cmd_prints (authority_line (authority_reply k (in_flight_authority k (co_fabric co)))))"
proof -
  have c: "cli_main serve work bench recover net argv = (if length argv < 7 then usage else cmd_submit net argv)"
    "cli_main serve work bench recover net argv' = (if length argv' < 5 then usage else cmd_inspect net argv')" for net
    using assms(3,4) [THEN second_argument] by (simp_all add: cli_main_def)
  have net: "nt_connect (wire_to co) h n = Inr ()" "nt_send (wire_to co) h n t b = Inr ()" for h n t b
    by (simp_all add: wire_to_def)
  show ?thesis
    using submit_exchange [OF submit_args_wf, of co "argv ! 2" "atoi (argv ! 3)" argv]
      authority_exchange [of co "argv' ! 2" "atoi (argv' ! 3)" k]
    unfolding c by (auto simp: cmd_submit_def cmd_inspect_def Let_def frame_of_def net k_def d_def)
qed

theorem cli_reports_coordinator_witness:
  "cr_code (cli_main (\<lambda>_. usage) (\<lambda>_. usage) (\<lambda>_. usage) (\<lambda>_. usage)
     (wire_to \<lparr>co_fabric = new_Fabric default_Config of_nat, co_worker_conns = []\<rparr>)
     [''df'', ''submit'', ''h'', ''7000'', ''3'', ''1'', ''0'']) = 1 \<and>
   cli_main (\<lambda>_. usage) (\<lambda>_. usage) (\<lambda>_. usage) (\<lambda>_. usage)
     (wire_to \<lparr>co_fabric = new_Fabric default_Config of_nat, co_worker_conns = []\<rparr>) [''df'', ''inspect''] = usage"
proof -
  have "strtoull ''0'' = 0" by (simp add: strtoull_def read_number_def isspace_def isdigit_def)
  then have "isl (validate (submit_args [''df'', ''submit'', ''h'', ''7000'', ''3'', ''1'', ''0'']))"
    by (simp add: validate_def submit_args_def demo_decode_request_def failed_def)
  then have "\<not> ad_admitted (fst (submit (submit_args [''df'', ''submit'', ''h'', ''7000'', ''3'', ''1'', ''0''])
      (new_Fabric default_Config of_nat)))"
    by (auto simp: submit_def rejected_def split: sum.splits)
  then show ?thesis
    using cli_reports_coordinator [of "[''df'', ''submit'', ''h'', ''7000'', ''3'', ''1'', ''0'']" "[''df'', ''inspect'']"
      "\<lambda>_. usage" "\<lambda>_. usage" "\<lambda>_. usage" "\<lambda>_. usage"
      "\<lparr>co_fabric = new_Fabric default_Config of_nat, co_worker_conns = []\<rparr>"] by simp
qed

end
