(* ===== verification/WireProperties.thy ===== *)
theory WireProperties
  imports Distributed
begin

text \<open>
  The message formats as a whole: every message within the wire limits is read back, and no truncated one is
  mistaken for a message.
\<close>

definition survives :: "('a \<Rightarrow> bytes) \<Rightarrow> (bytes \<Rightarrow> 'a result) \<Rightarrow> 'a \<Rightarrow> bool" where
  "survives encode decode v \<longleftrightarrow> decode (encode v) = Inr v \<and> list_all (\<lambda>n. isl (decode (take n (encode v)))) [0..<length (encode v)]"

context codec
begin

lemma survives_wire: "ok v \<Longrightarrow> survives enc (run_reader dec) v"
proof -
  assume v: "ok v"
  have "isl (run_reader dec (take n (enc v)))" if "n < length (enc v)" for n
    using truncated_rejected [OF v that] by (cases "run_reader dec (take n (enc v))") (simp_all add: is_ok_def)
  then show ?thesis using decode_encoded [OF v, of "[]"] by (simp add: survives_def list_all_iff)
qed

end

text \<open>C26: Every protocol message survives the wire and none is misread: a message within the wire limits decodes to
  exactly the value that was encoded, and each of its proper prefixes is refused with an error.\<close>

theorem messages_survive_the_wire:
  "(wf_execute_request m1 \<longrightarrow> survives encode_execute_request decode_execute_request m1) \<and>
   (wf_execute_result m2 \<longrightarrow> survives encode_execute_result decode_execute_result m2) \<and>
   (wf_prepared_result m3 \<longrightarrow> survives encode_prepared_result decode_prepared_result m3) \<and>
   (wf_commit_grant m4 \<longrightarrow> survives encode_commit_grant decode_commit_grant m4) \<and>
   (wf_commit_receipts m5 \<longrightarrow> survives encode_commit_receipts decode_commit_receipts m5) \<and>
   survives encode_abort_prepared decode_abort_prepared m6 \<and>
   (wf_submit_request m7 \<longrightarrow> survives encode_submit_request decode_submit_request m7) \<and>
   (wf_submit_ack m8 \<longrightarrow> survives encode_submit_ack decode_submit_ack m8) \<and>
   survives encode_status_reply decode_status_reply m9 \<and>
   (small_bytes m10 \<longrightarrow> survives encode_snapshot_reply decode_snapshot_reply m10) \<and>
   survives encode_query decode_query m11 \<and>
   (wf_explain_request m12 \<longrightarrow> survives encode_explain_request decode_explain_request m12) \<and>
   (wf_explain_reply m13 \<longrightarrow> survives encode_explain_reply decode_explain_reply m13) \<and>
   survives encode_get_authority decode_get_authority m14 \<and>
   survives encode_authority_reply decode_authority_reply m15 \<and>
   (wf_worker m16 \<longrightarrow> survives enc_worker dec_worker m16)"
proof -
  note eta = ext [OF decode_execute_request_def] ext [OF decode_execute_result_def] ext [OF decode_prepared_result_def]
    ext [OF decode_commit_grant_def] ext [OF decode_commit_receipts_def] ext [OF decode_abort_prepared_def]
    ext [OF decode_submit_request_def] ext [OF decode_submit_ack_def] ext [OF decode_status_reply_def]
    ext [OF decode_snapshot_reply_def] ext [OF decode_query_def] ext [OF decode_explain_request_def]
    ext [OF decode_explain_reply_def] ext [OF decode_get_authority_def] ext [OF decode_authority_reply_def]
    ext [OF dec_worker_def]
  show ?thesis
    unfolding eta
    by (intro conjI impI execute_request_msg.survives_wire execute_result_msg.survives_wire prepared_result_msg.survives_wire
        commit_grant_msg.survives_wire commit_receipts_msg.survives_wire abort_prepared_msg.survives_wire
        submit_request_msg.survives_wire submit_ack_msg.survives_wire status_reply_msg.survives_wire
        snapshot_reply_msg.survives_wire query_msg.survives_wire explain_request_msg.survives_wire
        explain_reply_msg.survives_wire get_authority_msg.survives_wire authority_reply_msg.survives_wire
        worker_msg.survives_wire) simp_all
qed

theorem messages_survive_the_wire_witness:
  "survives encode_prepared_result decode_prepared_result sc_prepared \<and> survives encode_commit_receipts decode_commit_receipts sc_receipts \<and>
   survives encode_submit_request decode_submit_request sc_request \<and> survives enc_worker dec_worker sc_worker"
  using messages_survive_the_wire [of _ _ sc_prepared _ sc_receipts _ sc_request _ _ _ _ _ _ _ _ sc_worker] sc_wf by blast

end
