(* ===== verification/CudaMemory.thy ===== *)
theory CudaMemory
  imports CudaExecutor
begin

text \<open>
  The device memory of the CUDA executor: whichever runtime calls fail, every buffer is owned by one state, no
  buffer leaks, and no access or release misses its buffer.
\<close>

section \<open>The runtime calls on the store\<close>

abbreviation heap :: "Gpu \<Rightarrow> nat \<Rightarrow> DevBuf option" where
  "heap g \<equiv> umap_find (gp_heap g)"

definition wf_gpu :: "Gpu \<Rightarrow> bool" where
  "wf_gpu g \<longleftrightarrow> \<not> gp_faulted g \<and> 0 < gp_next g \<and> (\<forall>p b. heap g p = Some b \<longrightarrow> 0 < p \<and> p < gp_next g)"

lemma wf_gpuD:
  assumes "wf_gpu g"
  shows "\<not> gp_faulted g" "heap g 0 = None" "heap g (gp_next g) = None" "0 < gp_next g"
  using assms by (auto simp: wf_gpu_def)

text \<open>A store that differs from a well-formed one only in the contents of its buffers, or that lost some.\<close>

lemma wf_gpu_shrink:
  assumes "wf_gpu g" and "\<not> gp_faulted g'" and "gp_next g' = gp_next g" and "\<And>p. heap g p = None \<Longrightarrow> heap g' p = None"
  shows "wf_gpu g'"
  using assms unfolding wf_gpu_def by (metis not_None_eq)

lemma cuda_call_simps [simp]:
  "gp_heap (snd (cuda_call env g)) = gp_heap g" "gp_next (snd (cuda_call env g)) = gp_next g"
  "gp_faulted (snd (cuda_call env g)) = gp_faulted g"
  by (simp_all add: cuda_call_def)

lemma cudaFree_simps [simp]:
  "heap (cudaFree p g) = (heap g)(p := None)" "gp_next (cudaFree p g) = gp_next g"
  "gp_faulted (cudaFree p g) \<longleftrightarrow> gp_faulted g \<or> heap g p = None"
  by (auto simp: cudaFree_def)

lemma dev_write_simps [simp]:
  "heap (dev_write p b g) = (if heap g p = None then heap g else (heap g)(p \<mapsto> b))" "gp_next (dev_write p b g) = gp_next g"
  "gp_faulted (dev_write p b g) \<longleftrightarrow> gp_faulted g \<or> heap g p = None"
  by (auto simp: dev_write_def)

lemma cuda_call_wf [simp]: "wf_gpu (snd (cuda_call env g)) \<longleftrightarrow> wf_gpu g"
  by (simp add: wf_gpu_def)

lemma cudaFree_wf [simp]: "wf_gpu g \<Longrightarrow> heap g p \<noteq> None \<Longrightarrow> wf_gpu (cudaFree p g)"
  by (rule wf_gpu_shrink) (auto simp: wf_gpu_def)

lemma dev_write_wf [simp]: "wf_gpu g \<Longrightarrow> heap g p \<noteq> None \<Longrightarrow> wf_gpu (dev_write p b g)"
  by (rule wf_gpu_shrink) (auto simp: wf_gpu_def)

lemma cudaMalloc_cases:
  assumes "wf_gpu g"
  obtains (fails) g' where "cudaMalloc env b g = (None, g')" "wf_gpu g'" "heap g' = heap g"
  | (fresh) p g' where "cudaMalloc env b g = (Some p, g')" "wf_gpu g'" "p \<noteq> 0" "heap g p = None"
      "heap g' = (heap g)(p \<mapsto> garbage_like env (gp_calls g) b)"
proof (cases "gv_fails env (gp_calls g)")
  case True
  then have "cudaMalloc env b g = (None, snd (cuda_call env g))" by (simp add: cudaMalloc_def cuda_call_def)
  then show ?thesis using assms fails by simp
next
  case False
  let ?g = "(snd (cuda_call env g))\<lparr>gp_heap := umap_set (gp_next g) (garbage_like env (gp_calls g) b) (gp_heap g), gp_next := gp_next g + 1\<rparr>"
  have "cudaMalloc env b g = (Some (gp_next g), ?g)" using False by (simp add: cudaMalloc_def cuda_call_def)
  moreover have "heap ?g = (heap g)(gp_next g \<mapsto> garbage_like env (gp_calls g) b)" by (simp add: fun_eq_iff)
  moreover have "wf_gpu ?g" using assms by (auto simp: wf_gpu_def split: if_splits)
  ultimately show ?thesis using fresh wf_gpuD [OF assms] by simp
qed

lemma copy_to_host_cases:
  assumes "wf_gpu g" and "heap g p = Some b"
  obtains (fails) g' where "copy_to_host env p g = (None, g')" "wf_gpu g'" "heap g' = heap g"
  | (ok) g' where "copy_to_host env p g = (Some b, g')" "wf_gpu g'" "heap g' = heap g"
proof (cases "gv_fails env (gp_calls g)")
  case True
  then have "copy_to_host env p g = (None, snd (cuda_call env g))"
    using assms(2) by (simp add: copy_to_host_def cuda_call_def dev_read_def)
  then show ?thesis using assms fails by simp
next
  case False
  then have "copy_to_host env p g = (Some b, snd (cuda_call env g))"
    using assms(2) by (simp add: copy_to_host_def cuda_call_def dev_read_def)
  then show ?thesis using assms ok by simp
qed

lemma copy_to_device_cases:
  assumes "wf_gpu g" and "heap g p = Some c"
  obtains (fails) g' where "copy_to_device env p b g = (False, g')" "wf_gpu g'"
      "heap g' = (heap g)(p \<mapsto> garbage_like env (gp_calls g) b)"
  | (ok) g' where "copy_to_device env p b g = (True, g')" "wf_gpu g'" "heap g' = (heap g)(p \<mapsto> b)"
proof (cases "gv_fails env (gp_calls g)")
  case True
  then have "copy_to_device env p b g = (False, dev_write p (garbage_like env (gp_calls g) b) (snd (cuda_call env g)))"
    by (simp add: copy_to_device_def cuda_call_def)
  then show ?thesis using assms fails by simp
next
  case False
  then have "copy_to_device env p b g = (True, dev_write p b (snd (cuda_call env g)))"
    by (simp add: copy_to_device_def cuda_call_def)
  then show ?thesis using assms ok by simp
qed

text \<open>A vector of the state size.\<close>

definition vector_at :: "Gpu \<Rightarrow> nat \<Rightarrow> bool" where
  "vector_at g p \<longleftrightarrow> (\<exists>xs. heap g p = Some (Floats xs) \<and> length xs = unat cu_kStateSize)"

lemma kernel_effect:
  assumes "wf_gpu g" and "heap g inp = Some (Floats xs)" and "heap g out = Some a" "heap g token = Some b" "heap g cksum = Some c"
    and "out \<noteq> token" "out \<noteq> cksum" "token \<noteq> cksum"
  shows "wf_gpu (df_decode_step_kernel env inp out token cksum g)"
    "heap (df_decode_step_kernel env inp out token cksum g) = (heap g)(out \<mapsto> Floats (kernel_out env xs),
       token \<mapsto> Word32 (kernel_token env (kernel_out env xs)), cksum \<mapsto> Word64 (kernel_checksum (kernel_out env xs)))"
  using assms by (simp_all add: df_decode_step_kernel_def dev_read_def floats_of_def Let_def)

lemma scratch_release:
  assumes "wf_gpu h" and "heap h = (heap g)(t \<mapsto> z, tk \<mapsto> a, ck \<mapsto> b)" and "heap g tk = None" "heap g ck = None"
    and "tk \<noteq> ck" "t \<noteq> tk" "t \<noteq> ck"
  shows "wf_gpu (cudaFree ck (cudaFree tk h)) \<and> heap (cudaFree ck (cudaFree tk h)) = (heap g)(t \<mapsto> z)"
  using assms by (auto simp: fun_eq_iff)

text \<open>Running the kernel touches the tentative buffer only; on success that buffer holds the next vector, and
  the token and checksum are those the kernel computed.\<close>

definition kernel_ran :: "CudaEnv \<Rightarrow> float list \<Rightarrow> nat \<Rightarrow> Gpu \<Rightarrow> (string + u32 \<times> u64 \<times> float list) \<times> Gpu \<Rightarrow> bool" where
  "kernel_ran env xs t g = (\<lambda>(r, g'). wf_gpu g' \<and> (\<exists>zs. length zs = length xs \<and> heap g' = (heap g)(t \<mapsto> Floats zs) \<and>
    (\<forall>tok ck next. r = Inr (tok, ck, next) \<longrightarrow>
       next = kernel_out env xs \<and> zs = next \<and> tok = kernel_token env next \<and> ck = kernel_checksum next)))"

lemma kernel_ran_failed:
  "wf_gpu g' \<Longrightarrow> heap g' = (heap g)(t \<mapsto> Floats zs) \<Longrightarrow> length zs = length xs \<Longrightarrow> kernel_ran env xs t g (Inl m, g')"
  by (auto simp: kernel_ran_def)

lemma kernel_out_length [simp]: "length (kernel_out env xs) = length xs"
  by (simp add: kernel_out_def Let_def)

lemma kernel_results_effect:
  assumes w: "wf_gpu h" and h: "heap h = (heap g)(t \<mapsto> Floats out, tk \<mapsto> Word32 (kernel_token env out), ck \<mapsto> Word64 (kernel_checksum out))"
    and out: "out = kernel_out env xs" and none: "heap g tk = None" "heap g ck = None" and ne: "tk \<noteq> ck" "t \<noteq> tk" "t \<noteq> ck"
  shows "kernel_ran env xs t g (kernel_results env tk ck t h)"
proof -
  have release: "wf_gpu (cudaFree ck (cudaFree tk h')) \<and> heap (cudaFree ck (cudaFree tk h')) = (heap g)(t \<mapsto> Floats out)"
    if "wf_gpu h'" "heap h' = heap h" for h'
    using scratch_release [OF that(1) _ none ne] that(2) h by simp
  have "heap h tk = Some (Word32 (kernel_token env out))" using h ne by simp
  with w show ?thesis
  proof (cases rule: copy_to_host_cases [where env = env])
    case (fails g1)
    then show ?thesis using release out by (auto simp: kernel_results_def intro!: kernel_ran_failed)
  next
    case (ok g1)
    note g1 = this
    have "heap g1 ck = Some (Word64 (kernel_checksum out))" using g1(3) h by simp
    with g1(2) show ?thesis
    proof (cases rule: copy_to_host_cases [where env = env])
      case (fails g2)
      then show ?thesis using release g1 out by (auto simp: kernel_results_def intro!: kernel_ran_failed)
    next
      case (ok g2)
      note g2 = this
      then have r: "wf_gpu (cudaFree ck (cudaFree tk g2))" "heap (cudaFree ck (cudaFree tk g2)) = (heap g)(t \<mapsto> Floats out)"
        using release [of g2] g1(3) by auto
      then have "heap (cudaFree ck (cudaFree tk g2)) t = Some (Floats out)" by simp
      with r(1) show ?thesis
        by (cases rule: copy_to_host_cases [where env = env])
          (use r(2) g1(1) g2(1) out in \<open>auto simp: kernel_results_def kernel_ran_def floats_of_def intro!: exI [of _ "kernel_out env xs"]\<close>)
    qed
  qed
qed

lemma run_kernel_effect:
  assumes w: "wf_gpu g" and d: "heap g d = Some (Floats xs)" and t: "heap g t = Some (Floats ys)" "length ys = length xs"
    and ne: "d \<noteq> t"
  shows "kernel_ran env xs t g (run_kernel env d t g)"
  using w
proof (cases rule: cudaMalloc_cases [where env = env and b = "Word32 0"])
  case (fails g1)
  then show ?thesis
    using t by (auto simp: run_kernel_def intro!: kernel_ran_failed [of _ _ _ ys])
next
  case (fresh tk g1)
  note tk = this
  from tk(2) show ?thesis
  proof (cases rule: cudaMalloc_cases [where env = env and b = "Word64 0"])
    case (fails g2)
    then show ?thesis
      using tk t by (auto simp: run_kernel_def fun_eq_iff intro!: kernel_ran_failed [of _ _ _ ys])
  next
    case (fresh ck g2)
    note ck = this
    have tn: "tk \<noteq> ck" "t \<noteq> tk" "t \<noteq> ck" "d \<noteq> tk" "d \<noteq> ck" "heap g ck = None" using tk ck d t by (auto split: if_splits)
    let ?c = "snd (cuda_call env g2)" and ?out = "kernel_out env xs"
    let ?k = "df_decode_step_kernel env d t tk ck ?c"
    have h2: "heap g2 = (heap g)(t \<mapsto> Floats ys, tk \<mapsto> garbage_like env (gp_calls g) (Word32 0), ck \<mapsto> garbage_like env (gp_calls g1) (Word64 0))"
      using tk ck t by (auto simp: fun_eq_iff)
    have k: "wf_gpu ?k" "heap ?k = (heap g)(t \<mapsto> Floats ?out, tk \<mapsto> Word32 (kernel_token env ?out), ck \<mapsto> Word64 (kernel_checksum ?out))"
      using kernel_effect [of ?c d xs t "Floats ys" tk _ ck] ck(2) tn d ne by (auto simp: h2 fun_eq_iff)
    have release: "kernel_ran env xs t g (Inl m, cudaFree ck (cudaFree tk h))" if "wf_gpu h" "heap h = heap ?k \<or> heap h = heap g2" for m h
      using that scratch_release [OF that(1), of g t _ tk _ ck] tn tk(4) t unfolding h2 k(2)
      by (auto intro!: kernel_ran_failed)
    obtain se g4 where s: "cuda_call env ?k = (se, g4)" by force
    then have g4: "wf_gpu g4" "heap g4 = heap ?k" using k(1) cuda_call_wf [of env ?k] cuda_call_simps(1) [of env ?k] by simp_all
    from kernel_results_effect [OF g4(1) g4(2) [unfolded k(2)] refl tk(4) tn(6,1,2,3)] release [of ?c] release [OF g4(1)] g4(2)
    show ?thesis using ck(1,2) tk(1) s by (auto simp: run_kernel_def case_prod_beta)
  qed
qed

section \<open>Ownership of one state\<close>

definition ptrs :: "DevState \<Rightarrow> nat set" where
  "ptrs st = {ds_device st, ds_tentative st} - {0}"

text \<open>The allocated buffers are those of \<open>st\<close>, which are vectors, and \<open>R\<close>.\<close>

definition held :: "nat set \<Rightarrow> DevState \<Rightarrow> Gpu \<Rightarrow> bool" where
  "held R st g \<longleftrightarrow> wf_gpu g \<and> dom (heap g) = R \<union> ptrs st \<and> R \<inter> ptrs st = {} \<and> (\<forall>p \<in> ptrs st. vector_at g p) \<and>
     (ds_inited st \<longleftrightarrow> ds_device st \<noteq> 0) \<and> (ds_tentative st \<noteq> 0 \<longrightarrow> ds_device st \<noteq> 0 \<and> ds_device st \<noteq> ds_tentative st)"

definition settled :: "DevState \<Rightarrow> bool" where
  "settled st \<longleftrightarrow> (ds_has_tentative st \<longleftrightarrow> ds_tentative st \<noteq> 0)"

definition kept :: "nat set \<Rightarrow> Gpu \<Rightarrow> DevState \<times> Gpu \<Rightarrow> bool" where
  "kept R g = (\<lambda>(st', g'). held R st' g' \<and> settled st' \<and> (\<forall>p \<in> R. heap g' p = heap g p))"

lemma held_device: "held R st g \<Longrightarrow> ds_inited st \<Longrightarrow> \<exists>xs. heap g (ds_device st) = Some (Floats xs) \<and> length xs = unat cu_kStateSize"
  by (auto simp: held_def ptrs_def vector_at_def)

lemma held_same: "held R st g \<Longrightarrow> wf_gpu g' \<Longrightarrow> heap g' = heap g \<Longrightarrow> held R st g'"
  by (simp add: held_def vector_at_def)

lemma kept_same: "held R st g \<Longrightarrow> settled st \<Longrightarrow> wf_gpu g' \<Longrightarrow> heap g' = heap g \<Longrightarrow> kept R g (st, g')"
  by (simp add: kept_def held_same)

lemma kept_trans: "kept R g (st, h) \<Longrightarrow> kept R h x \<Longrightarrow> kept R g x"
  by (auto simp: kept_def)

lemma kept_from: "kept R h x \<Longrightarrow> \<forall>p \<in> R. heap h p = heap g p \<Longrightarrow> kept R g x"
  by (auto simp: kept_def)

text \<open>Only pointers and the two flags matter.\<close>

lemma held_frame:
  assumes "held R st g" and "ds_device st' = ds_device st" "ds_tentative st' = ds_tentative st" "ds_inited st' = ds_inited st"
  shows "held R st' g"
  using assms by (simp add: held_def ptrs_def)

lemma held_write:
  assumes "held R st g" and "p \<in> ptrs st" and "wf_gpu g'" and "heap g' = (heap g)(p \<mapsto> Floats xs)" and "length xs = unat cu_kStateSize"
  shows "held R st g'"
  using assms by (auto simp: held_def vector_at_def)

lemma garbage_vector: "\<exists>ys. garbage_like env n (Floats xs) = Floats ys \<and> length ys = length xs"
  by (simp add: garbage_like_def)

lemma initial_loop_length: "length (initial_loop n h) = n"
  by (induction n arbitrary: h) (simp_all add: Let_def)

lemma initial_length: "length (cu_initial_state sid seed) = unat cu_kStateSize"
  by (simp add: cu_initial_state_def initial_loop_length)

lemma cu_initialize_kept:
  assumes "held R st g" and "settled st"
  shows "kept R g (snd (cu_initialize env m (st, g))) \<and>
    (fst (cu_initialize env m (st, g)) = Inr () \<longrightarrow> ds_inited (fst (snd (cu_initialize env m (st, g)))))"
proof (cases "ds_inited st")
  case True
  then show ?thesis using assms by (simp add: cu_initialize_def kept_def)
next
  case False
  then have z: "ds_device st = 0" "ds_tentative st = 0" "ptrs st = {}" "dom (heap g) = R" using assms(1) by (auto simp: held_def ptrs_def)
  let ?xs = "cu_initial_state (sd_id (ms_state m)) (ms_attempt m)"
  have w: "wf_gpu g" using assms(1) by (simp add: held_def)
  then show ?thesis
  proof (cases rule: cudaMalloc_cases [where env = env and b = "Floats ?xs"])
    case (fails g1)
    then show ?thesis using False kept_same [OF assms] by (simp add: cu_initialize_def failed_def)
  next
    case (fresh p g1)
    note m = this
    from m(5) have "heap g1 p = Some (garbage_like env (gp_calls g) (Floats ?xs))" by simp
    with m(2) show ?thesis
    proof (cases rule: copy_to_device_cases [where env = env and b = "Floats ?xs"])
      case (fails g2)
      then have "heap (cudaFree p g2) = heap g" using m(4,5) by (auto simp: fun_eq_iff)
      moreover have "wf_gpu (cudaFree p g2)" using fails by simp
      ultimately show ?thesis
        using False m(1) fails(1) kept_same [OF assms] z(1) by (simp add: cu_initialize_def failed_def kept_def held_def settled_def ptrs_def)
    next
      case (ok g2)
      then have "heap g2 = (heap g)(p \<mapsto> Floats ?xs)" using m(5) by (simp add: fun_eq_iff)
      then show ?thesis
        using False m ok z assms by (auto simp: cu_initialize_def kept_def held_def settled_def ptrs_def vector_at_def initial_length)
    qed
  qed
qed

lemma cu_catch_up_length: "length (fst (cu_catch_up env gen x)) = length (fst x)"
  by (induction env gen x rule: cu_catch_up.induct) (simp add: cu_catch_up.simps step_state_float_def Let_def)

lemma kept_write:
  assumes "held R st g" and "p \<in> ptrs st" and "wf_gpu g'" and "heap g' = (heap g)(p \<mapsto> Floats xs)" and "length xs = unat cu_kStateSize"
    and "settled st'" "ds_device st' = ds_device st" "ds_tentative st' = ds_tentative st" "ds_inited st' = ds_inited st"
  shows "kept R g (st', g')"
proof -
  have "\<forall>q \<in> R. heap g' q = heap g q" using assms(1,2,4) by (auto simp: held_def)
  then show ?thesis using held_frame [OF held_write [OF assms(1-5)] assms(7-9)] assms(6) by (simp add: kept_def)
qed

lemma cu_reconstruct_kept:
  assumes "held R st g" and "settled st" and "ds_inited st"
  shows "kept R g (snd (cu_reconstruct env m (st, g))) \<and> ds_inited (fst (snd (cu_reconstruct env m (st, g))))"
proof (cases "ds_tokens st < ms_generated_tokens m")
  case True
  obtain xs where xs: "heap g (ds_device st) = Some (Floats xs)" "length xs = unat cu_kStateSize"
    using held_device [OF assms(1,3)] by blast
  have w: "wf_gpu g" and p: "ds_device st \<in> ptrs st" using assms by (auto simp: held_def ptrs_def)
  from w xs(1) show ?thesis
  proof (cases rule: copy_to_host_cases [where env = env])
    case (fails g1)
    then show ?thesis using True assms kept_same [OF assms(1,2)] by (simp add: cu_reconstruct_def failed_def)
  next
    case (ok g1)
    note g1 = this
    obtain host tokens kv where c: "cu_catch_up env (ms_generated_tokens m) (xs, ds_tokens st, ds_kv_bytes st) = (host, tokens, kv)"
      using prod_cases3 by blast
    have len: "length host = unat cu_kStateSize" using cu_catch_up_length [of env "ms_generated_tokens m" "(xs, ds_tokens st, ds_kv_bytes st)"] xs(2) c by simp
    have st: "settled (st\<lparr>ds_tokens := tokens, ds_kv_bytes := kv\<rparr>)" using assms(2) by (simp add: settled_def)
    from g1(3) xs(1) have "heap g1 (ds_device st) = Some (Floats xs)" by simp
    with g1(2) show ?thesis
    proof (cases rule: copy_to_device_cases [where env = env and b = "Floats host"])
      case (fails g2)
      then show ?thesis
        using True g1 c assms garbage_vector [of env "gp_calls g1" host] kept_write [OF assms(1) p fails(2) _ _ st] len
        by (auto simp: cu_reconstruct_def failed_def floats_of_def)
    next
      case (ok g2)
      then show ?thesis
        using True g1 c assms kept_write [OF assms(1) p ok(2) _ _ st] len by (simp add: cu_reconstruct_def floats_of_def)
    qed
  qed
qed (use assms in \<open>simp add: cu_reconstruct_def kept_def\<close>)

lemma cu_ensure_kept:
  assumes "held R st g" and "settled st"
  shows "kept R g (snd (cu_ensure_initialized env m (st, g))) \<and>
    (fst (cu_ensure_initialized env m (st, g)) = Inr () \<longrightarrow> ds_inited (fst (snd (cu_ensure_initialized env m (st, g)))))"
proof -
  obtain r st1 g1 where i: "cu_initialize env m (st, g) = (r, st1, g1)" using prod_cases3 by blast
  note k = cu_initialize_kept [OF assms, of env m, unfolded i, simplified]
  show ?thesis
  proof (cases r)
    case (Inr u)
    then show ?thesis
      using k cu_reconstruct_kept [of R st1 g1 env m] kept_trans [of R g st1 g1]
      by (auto simp: cu_ensure_initialized_def i) (auto simp: kept_def)
  qed (use k in \<open>simp add: cu_ensure_initialized_def i\<close>)
qed

lemma cu_clear_kept: "held R st g \<Longrightarrow> kept R g (cu_clear_tentative (st, g))"
  by (auto simp: cu_clear_tentative_def kept_def held_def settled_def ptrs_def free_unless_null_def vector_at_def)

lemma cu_prepare_step_kept:
  assumes "held R st g" and "ds_inited st" and "ds_tentative st = 0" and "settled st"
  shows "kept R g (snd (cu_prepare_step env m req pr (st, g)))"
proof -
  obtain xs where xs: "heap g (ds_device st) = Some (Floats xs)" "length xs = unat cu_kStateSize"
    using held_device [OF assms(1,2)] by blast
  have w: "wf_gpu g" and p: "ds_device st \<noteq> 0" using assms by (auto simp: held_def)
  from w xs(1) show ?thesis
  proof (cases rule: copy_to_host_cases [where env = env])
    case (fails g1)
    then show ?thesis using kept_same [OF assms(1,4)] by (simp add: cu_prepare_step_def)
  next
    case (ok g1)
    note g1 = this
    from g1(2) show ?thesis
    proof (cases rule: cudaMalloc_cases [where env = env and b = "Floats xs"])
      case (fails g2)
      then show ?thesis using kept_same [OF assms(1,4)] g1 assms(3) by (simp add: cu_prepare_step_def Let_def)
    next
      case (fresh t g2)
      note g2 = this
      let ?st = "st\<lparr>ds_tentative := t\<rparr>"
      obtain ys where ys: "heap g2 t = Some (Floats ys)" "length ys = length xs"
        using g2(5) garbage_vector [of env "gp_calls g1" xs] by auto
      have h2: "held R ?st g2" using assms(1,3) g1 g2 ys xs p
        by (auto simp: held_def ptrs_def vector_at_def)
      have "heap g2 (ds_device st) = Some (Floats xs)" "ds_device st \<noteq> t" using g1 g2 xs by auto
      note k = run_kernel_effect [OF g2(2) this(1) ys this(2), of env]
      obtain r g3 where r: "run_kernel env (ds_device st) t g2 = (r, g3)" by force
      obtain zs where zs: "wf_gpu g3" "length zs = length xs" "heap g3 = (heap g2)(t \<mapsto> Floats zs)"
        using k r by (auto simp: kernel_ran_def)
      have h3: "held R ?st g3" using held_write [OF h2 _ zs(1,3)] zs(2) xs(2) g2(3) by (simp add: ptrs_def)
      have f: "\<forall>q \<in> R. heap g3 q = heap g q" using g1(3) g2(4,5) zs(3) assms(1) by (auto simp: held_def)
      show ?thesis
      proof (cases r)
        case (Inl msg)
        then show ?thesis
          using kept_from [OF cu_clear_kept [OF h3] f] g1 g2 assms(3) r by (simp add: cu_prepare_step_def Let_def)
      next
        case (Inr v)
        obtain token cksum nxt where v: "v = (token, cksum, nxt)" using prod_cases3 by blast
        have "kept R g (cu_stage m req pr token cksum a b ?st, g3)" for a b
          using held_frame [OF h3] f g2(3) by (simp add: kept_def cu_stage_def settled_def)
        then show ?thesis using g1 g2 assms(3) r Inr v by (simp add: cu_prepare_step_def Let_def)
      qed
    qed
  qed
qed

lemma cu_promote_kept:
  assumes "held R st g" and "settled st" and "ds_tentative st \<noteq> 0"
  shows "kept R g (snd (cu_promote env grant (st, g)))"
proof -
  have i: "ds_inited st" "ds_device st \<noteq> ds_tentative st" and w: "wf_gpu g" and p: "ds_device st \<in> ptrs st"
    using assms by (auto simp: held_def ptrs_def)
  obtain xs where xs: "heap g (ds_device st) = Some (Floats xs)" "length xs = unat cu_kStateSize"
    using held_device [OF assms(1) i(1)] by blast
  obtain ys where ys: "heap g (ds_tentative st) = Some (Floats ys)" "length ys = unat cu_kStateSize"
    using assms(1,3) by (auto simp: held_def ptrs_def vector_at_def)
  from w xs(1) show ?thesis
  proof (cases rule: copy_to_host_cases [where env = env])
    case (fails g1)
    then show ?thesis using kept_same [OF assms(1,2)] by (simp add: cu_promote_def)
  next
    case (ok g1)
    note g1 = this
    have same: "kept R g (st, g1)" using kept_same [OF assms(1,2) g1(2,3)] .
    have c: "copy_on_device env (ds_device st) (ds_tentative st) g1 = copy_to_device env (ds_device st) (Floats ys) g1"
      using ys g1(3) by (simp add: copy_on_device_def dev_read_def)
    from g1(3) xs(1) have "heap g1 (ds_device st) = Some (Floats xs)" by simp
    with g1(2) show ?thesis
    proof (cases rule: copy_to_device_cases [where env = env and b = "Floats ys"])
      case (fails g2)
      have "kept R g (st, g2)"
        using garbage_vector [of env "gp_calls g1" ys] kept_write [OF assms(1) p fails(2) _ _ assms(2)] fails(3) g1(3) ys(2) by auto
      then show ?thesis using g1 fails same c by (simp add: cu_promote_def)
    next
      case (ok g2)
      let ?st = "st\<lparr>ds_kv_bytes := ds_tentative_kv_bytes st, ds_tokens := ds_tokens st + 1,
             ds_token := ds_tentative_token st, ds_checksum := ds_tentative_checksum st\<rparr>"
      have "kept R g (?st, g2)"
        using kept_write [OF assms(1) p ok(2), of ys ?st] ok(3) g1(3) ys(2) assms(2) by (simp add: settled_def)
      then have "kept R g (cu_clear_tentative (?st, g2))"
        using cu_clear_kept [of R ?st g2] by (auto simp: kept_def)
      then show ?thesis using g1 ok same c by (simp add: cu_promote_def)
    qed
  qed
qed

section \<open>Ownership in the executor\<close>

abbreviation dev_state :: "CudaDecodeExecutor \<Rightarrow> StateId \<Rightarrow> DevState" where
  "dev_state x sid \<equiv> umap_get default_DevState (gx_states x) sid"

definition others :: "StateId \<Rightarrow> CudaDecodeExecutor \<Rightarrow> nat set" where
  "others sid x = (\<Union>j \<in> - {sid}. ptrs (dev_state x j))"

definition device_ok :: "CudaDecodeExecutor \<Rightarrow> bool" where
  "device_ok x \<longleftrightarrow> umap_ok (gx_states x) \<and> (\<forall>sid. held (others sid x) (dev_state x sid) (gx_gpu x) \<and> settled (dev_state x sid))"

lemma device_ok_update:
  assumes "device_ok x" and "kept (others sid x) (gx_gpu x) (st', g')"
    and "gx_states x' = umap_set sid st' (gx_states x)" and "gx_gpu x' = g'"
  shows "device_ok x'"
proof -
  have k: "held (others sid x) st' g'" "settled st'" "\<forall>p \<in> others sid x. heap g' p = heap (gx_gpu x) p"
    using assms(2) by (auto simp: kept_def)
  have "held (others j x') (dev_state x j) g'" if j: "j \<noteq> sid" for j
  proof -
    let ?rest = "\<Union>i \<in> - {j, sid}. ptrs (dev_state x i)"
    have o: "others j x' = ?rest \<union> ptrs st'" "others sid x = ?rest \<union> ptrs (dev_state x j)" "others j x = ?rest \<union> ptrs (dev_state x sid)"
      using j assms(3) by (auto simp: others_def split: if_splits)
    have h: "held (others j x) (dev_state x j) (gx_gpu x)" using assms(1) by (simp add: device_ok_def)
    have "\<forall>p \<in> ptrs (dev_state x j). vector_at g' p" using h k(3) o(2) by (auto simp: held_def vector_at_def)
    moreover have "wf_gpu g'" "dom (heap g') = others j x' \<union> ptrs (dev_state x j)" "others j x' \<inter> ptrs (dev_state x j) = {}"
      using k(1) h unfolding o held_def by auto
    ultimately show ?thesis using h by (simp add: held_def)
  qed
  moreover have "others sid x' = others sid x" using assms(3) by (simp add: others_def)
  ultimately show ?thesis using assms k(1,2) by (auto simp: device_ok_def)
qed

lemma device_ok_same: "device_ok x \<Longrightarrow> gx_states x' = gx_states x \<Longrightarrow> wf_gpu (gx_gpu x') \<Longrightarrow> heap (gx_gpu x') = heap (gx_gpu x) \<Longrightarrow> device_ok x'"
  by (simp add: device_ok_def others_def) (blast intro: held_same)

lemma device_ok_gpu: "device_ok x \<Longrightarrow> wf_gpu (gx_gpu x)"
  by (simp add: device_ok_def held_def)

lemma cu_set_device_ok: "device_ok x \<Longrightarrow> device_ok (snd (cu_set_device env x))"
  by (rule device_ok_same) (simp_all add: cu_set_device_def case_prod_beta device_ok_gpu)

lemma cu_prepare_member_ok:
  assumes "device_ok x"
  shows "device_ok (snd (cu_prepare_member env m req x))"
proof -
  let ?sid = "sd_id (ms_state m)" and ?g = "snd (cuda_call env (gx_gpu x))"
  let ?R = "others ?sid x"
  have h: "held ?R (dev_state x ?sid) ?g" "settled (dev_state x ?sid)"
    using assms held_same [of ?R "dev_state x ?sid" "gx_gpu x" ?g] by (simp_all add: device_ok_def device_ok_gpu held_def)
  obtain r st g where e: "cu_ensure_initialized env m (dev_state x ?sid, ?g) = (r, st, g)" using prod_cases3 by blast
  have k: "kept ?R (gx_gpu x) (st, g)" "r = Inr () \<Longrightarrow> ds_inited st"
    using cu_ensure_kept [OF h, of env m] by (simp_all add: e kept_def)
  have put: "device_ok (x\<lparr>gx_states := umap_set ?sid st' (gx_states x), gx_gpu := g'\<rparr>)"
    "device_ok (x\<lparr>gx_states := umap_set ?sid st' (gx_states x), gx_gpu := g', gx_next_proposal := n\<rparr>)"
    if "kept ?R (gx_gpu x) (st', g')" for st' g' n
    using device_ok_update [OF assms that] by simp_all
  obtain st1 g1 where sg: "(if ds_has_tentative st then cu_clear_tentative (st, g) else (st, g)) = (st1, g1)" by force
  have c: "kept ?R (gx_gpu x) (st1, g1)" "ds_tentative st1 = 0" "ds_inited st1 = ds_inited st"
    using k(1) sg kept_trans [OF k(1), of "(st1, g1)"] cu_clear_kept [of ?R st g]
    by (auto simp: kept_def cu_clear_tentative_def settled_def split: if_splits)
  obtain p st2 g2 where ps: "cu_prepare_step env m req (gx_next_proposal x + 1) (st1, g1) = (p, st2, g2)" using prod_cases3 by blast
  have s: "kept ?R (gx_gpu x) (st2, g2)" if "r = Inr ()"
    using kept_trans [OF c(1) cu_prepare_step_kept [of ?R st1 g1 env m req "gx_next_proposal x + 1"]] c k(2) [OF that]
    by (simp add: ps) (simp add: kept_def)
  show ?thesis
  proof (cases "fst (cuda_call env (gx_gpu x))")
    case False
    then show ?thesis
      using device_ok_same [OF assms] device_ok_gpu [OF assms] by (simp add: cu_prepare_member_def case_prod_beta)
  next
    case True
    then show ?thesis
      using put [OF k(1)] put [OF s] sg ps by (cases r; cases p; cases "ds_has_tentative st") (auto simp: cu_prepare_member_def case_prod_beta Let_def e)
  qed
qed

lemma cu_prepare_ok: "device_ok x \<Longrightarrow> device_ok (snd (cu_prepare env req x))"
proof -
  have "device_ok y \<Longrightarrow> device_ok (snd (cu_prepare_loop env req ms out y))" for ms out y
  proof (induction ms arbitrary: out y)
    case (Cons m ms)
    obtain p y1 where p: "cu_prepare_member env m req y = (p, y1)" by force
    then have "device_ok y1" using cu_prepare_member_ok [OF Cons.prems, of env m req] by simp
    then show ?case using Cons.IH p by (cases p) simp_all
  qed simp
  moreover assume "device_ok x"
  ultimately show ?thesis
    using cu_set_device_ok [of x env] by (auto simp: cu_prepare_def case_prod_beta split: sum.split prod.split)
qed

lemma device_ok_state: "device_ok x \<Longrightarrow> umap_find (gx_states x) sid = Some st \<Longrightarrow> held (others sid x) st (gx_gpu x) \<and> settled st"
  unfolding device_ok_def by (metis umap_get_Some)

lemma cu_commit_ok: "device_ok x \<Longrightarrow> device_ok (snd (cu_commit env grant x))"
proof -
  assume x: "device_ok x"
  obtain ok x0 where s: "cu_set_device env x = (ok, x0)" by force
  then have x0: "device_ok x0" using cu_set_device_ok [OF x, of env] by simp
  show ?thesis
  proof (cases "umap_find (gx_states x0) (cg_state grant)")
    case (Some st)
    obtain r st1 g1 where p: "cu_promote env grant (st, gx_gpu x0) = (r, st1, g1)" using prod_cases3 by blast
    have "device_ok y" if "ds_tentative st \<noteq> 0" "gx_states y = umap_set (cg_state grant) st1 (gx_states x0)" "gx_gpu y = g1" for y
      using device_ok_update [OF x0, of "cg_state grant" st1 g1 y] cu_promote_kept [of "others (cg_state grant) x0" st "gx_gpu x0" env grant]
        device_ok_state [OF x0 Some] that by (simp add: p)
    then show ?thesis using x0 Some by (cases r) (auto simp: cu_commit_def s p split: option.split)
  qed (use x0 in \<open>auto simp: cu_commit_def s split: option.split\<close>)
qed

lemma cu_abort_ok: "device_ok x \<Longrightarrow> device_ok (snd (cu_abort env a x))"
proof -
  assume x: "device_ok x"
  obtain ok x0 where s: "cu_set_device env x = (ok, x0)" by force
  then have x0: "device_ok x0" using cu_set_device_ok [OF x, of env] by simp
  show ?thesis
  proof (cases "umap_find (gx_states x0) (ab_state a)")
    case (Some st)
    obtain st1 g1 where c: "cu_clear_tentative (st, gx_gpu x0) = (st1, g1)" by force
    have "device_ok (x0\<lparr>gx_states := umap_set (ab_state a) st1 (gx_states x0), gx_gpu := g1\<rparr>)"
      using device_ok_update [OF x0] cu_clear_kept [of "others (ab_state a) x0" st "gx_gpu x0"] device_ok_state [OF x0 Some] by (simp add: c)
    then show ?thesis using x0 Some by (simp add: cu_abort_def s c)
  qed (use x0 in \<open>simp add: cu_abort_def s\<close>)
qed

lemma cu_digest_ok: "device_ok x \<Longrightarrow> device_ok (snd (cu_committed_state_digest env sid x))"
proof (cases "umap_find (gx_states x) sid")
  case (Some st)
  assume x: "device_ok x"
  show ?thesis
  proof (cases "ds_inited st")
    case True
    then obtain xs where "heap (gx_gpu x) (ds_device st) = Some (Floats xs)" using held_device device_ok_state [OF x Some] by blast
    with device_ok_gpu [OF x] show ?thesis
      by (cases rule: copy_to_host_cases [where env = env])
        (use x Some True device_ok_same [OF x] in \<open>simp_all add: cu_committed_state_digest_def\<close>)
  qed (use x Some in \<open>simp add: cu_committed_state_digest_def\<close>)
qed (simp add: cu_committed_state_digest_def)

lemma new_executor_ok: "device_ok (new_CudaDecodeExecutor d prop)"
  by (simp add: device_ok_def new_CudaDecodeExecutor_def Let_def held_def others_def ptrs_def umap_get_def default_DevState_def
      wf_gpu_def settled_def fun_eq_iff)

section \<open>Runs and destruction\<close>

datatype cu_op = CuPrepare DecodeExecutionRequest | CuCommit CommitGrant | CuAbort AbortPrepared | CuDigest StateId

primrec cu_perform :: "CudaEnv \<Rightarrow> cu_op \<Rightarrow> CudaDecodeExecutor \<Rightarrow> CudaDecodeExecutor" where
  "cu_perform env (CuPrepare req) x = snd (cu_prepare env req x)"
| "cu_perform env (CuCommit grant) x = snd (cu_commit env grant x)"
| "cu_perform env (CuAbort a) x = snd (cu_abort env a x)"
| "cu_perform env (CuDigest sid) x = snd (cu_committed_state_digest env sid x)"

lemma cu_run_ok: "device_ok x \<Longrightarrow> device_ok (fold (cu_perform env) ops x)"
proof (induction ops arbitrary: x)
  case (Cons op ops)
  have "device_ok (cu_perform env op x)"
    using Cons.prems by (cases op) (simp_all add: cu_prepare_ok cu_commit_ok cu_abort_ok cu_digest_ok)
  then show ?case using Cons.IH by simp
qed simp

lemma free_all:
  assumes "wf_gpu g" and "dom (heap g) = (\<Union>(k, st) \<in> set sts. ptrs st)"
    and "sorted_wrt (\<lambda>(k, a) (j, b). ptrs a \<inter> ptrs b = {}) sts"
    and "\<forall>(k, st) \<in> set sts. ds_tentative st \<noteq> 0 \<longrightarrow> ds_device st \<noteq> ds_tentative st"
  shows "wf_gpu (fold (\<lambda>(k, st) g. free_unless_null (ds_tentative st) (free_unless_null (ds_device st) g)) sts g) \<and>
    heap (fold (\<lambda>(k, st) g. free_unless_null (ds_tentative st) (free_unless_null (ds_device st) g)) sts g) = (\<lambda>_. None)"
  using assms
proof (induction sts arbitrary: g)
  case Nil
  then show ?case by auto
next
  case (Cons kst sts)
  obtain k st where kst: "kst = (k, st)" by force
  let ?g = "free_unless_null (ds_tentative st) (free_unless_null (ds_device st) g)"
  have live: "p \<in> ptrs st \<Longrightarrow> heap g p \<noteq> None" for p using Cons.prems(2) by (auto simp: kst)
  have h: "heap ?g = (\<lambda>p. if p \<in> ptrs st then None else heap g p)"
    using Cons.prems(1) by (auto simp: free_unless_null_def ptrs_def fun_eq_iff wf_gpuD(2))
  have "wf_gpu ?g"
    using Cons.prems(1,4) live [of "ds_device st"] live [of "ds_tentative st"]
    by (auto simp: free_unless_null_def ptrs_def kst)
  moreover have "dom (heap ?g) = (\<Union>(k, st) \<in> set sts. ptrs st)"
  proof -
    have "dom (heap ?g) = dom (heap g) - ptrs st" unfolding h by (auto split: if_splits)
    then show ?thesis using Cons.prems(2,3) by (auto simp: kst)
  qed
  ultimately show ?case using Cons.IH [of ?g] Cons.prems(3,4) by (simp add: kst)
qed

lemma device_ok_disjoint:
  assumes "device_ok x" and "a \<noteq> b"
  shows "ptrs (dev_state x a) \<inter> ptrs (dev_state x b) = {}"
proof -
  have "ptrs (dev_state x b) \<subseteq> others a x" using assms(2) by (auto simp: others_def)
  then show ?thesis using assms(1) by (auto simp: device_ok_def held_def)
qed

lemma device_ok_live:
  assumes "device_ok x"
  shows "dom (heap (gx_gpu x)) = (\<Union>sid. ptrs (dev_state x sid))"
proof -
  have "dom (heap (gx_gpu x)) = others 0 x \<union> ptrs (dev_state x 0)" using assms by (simp add: device_ok_def held_def)
  then show ?thesis by (auto simp: others_def)
qed

lemma destroy_frees:
  assumes "device_ok x"
  shows "\<not> gp_faulted (gx_gpu (cu_destroy x))" "heap (gx_gpu (cu_destroy x)) = (\<lambda>_. None)"
proof -
  have u: "umap_ok (gx_states x)" using assms by (simp add: device_ok_def)
  have get: "dev_state x k = st" if "(k, st) \<in> set (gx_states x)" for k st
    using that umap_find_eq_Some [OF u] umap_get_Some by metis
  have "(\<Union>sid. ptrs (dev_state x sid)) = (\<Union>(k, st) \<in> set (gx_states x). ptrs st)"
  proof -
    have "p \<in> (\<Union>(k, st) \<in> set (gx_states x). ptrs st)" if "p \<in> ptrs (dev_state x sid)" for p sid
      using that umap_find_Some_in [of "gx_states x" sid]
      by (cases "umap_find (gx_states x) sid") (auto simp: umap_get_def ptrs_def default_DevState_def)
    then show ?thesis using get by fastforce
  qed
  moreover have "sorted_wrt (\<lambda>(k, a) (j, b). ptrs a \<inter> ptrs b = {}) (gx_states x)"
  unfolding sorted_wrt_iff_nth_less
  proof (intro allI impI)
    fix i j
    assume ij: "i < j" "j < length (gx_states x)"
    obtain k a l b where n: "gx_states x ! i = (k, a)" "gx_states x ! j = (l, b)" by (meson surj_pair)
    have "k \<noteq> l" using u ij n nth_eq_iff_index_eq [of "map fst (gx_states x)" i j] by (auto simp: umap_ok_def)
    moreover have "dev_state x k = a" "dev_state x l = b"
      using get [of k a] get [of l b] nth_mem [of i "gx_states x"] nth_mem [OF ij(2)] ij n by auto
    ultimately show "(case gx_states x ! i of (k, a) \<Rightarrow> \<lambda>(j, b). ptrs a \<inter> ptrs b = {}) (gx_states x ! j)"
      using device_ok_disjoint [OF assms, of k l] n by simp
  qed
  moreover have "\<forall>(k, st) \<in> set (gx_states x). ds_tentative st \<noteq> 0 \<longrightarrow> ds_device st \<noteq> ds_tentative st"
    using assms get by (fastforce simp: device_ok_def held_def)
  ultimately have "wf_gpu (gx_gpu (cu_destroy x)) \<and> heap (gx_gpu (cu_destroy x)) = (\<lambda>_. None)"
    using free_all [OF device_ok_gpu [OF assms], of "gx_states x"] device_ok_live [OF assms] by (simp add: cu_destroy_def)
  then show "\<not> gp_faulted (gx_gpu (cu_destroy x))" "heap (gx_gpu (cu_destroy x)) = (\<lambda>_. None)" by (auto simp: wf_gpu_def)
qed


end
