(* ===== verification/CudaProperties.thy ===== *)
theory CudaProperties
  imports CudaMemory Pump
begin

text \<open>
  What the CUDA executor computes and how it behaves under the pump: the kernel and its mirror on the host, the
  promotion of a tentative vector, and the pump with an executor whose runtime calls may fail.
\<close>

section \<open>The kernel and the host\<close>

text \<open>The device evaluates the expressions of the kernel as the host does: the documented intention of the mirror.\<close>

definition device_like_host :: "CudaEnv \<Rightarrow> bool" where
  "device_like_host env \<longleftrightarrow> gv_dev_tanhf env = gv_tanhf env \<and> gv_dev_sinf env = gv_sinf env \<and>
     gv_dev_acc env = (\<lambda>a x b y c z. f32_add (f32_add (f32_mul a x) (f32_mul b y)) (f32_mul c z)) \<and>
     gv_dev_score env = (\<lambda>v n s. f32_add (f32_mul v n) s)"

lemma byte_bit:
  fixes v :: u32
  assumes "n < 64"
  shows "bit (push_bit j (ucast (drop_bit j v AND 0xFF)) :: u64) n \<longleftrightarrow> j \<le> n \<and> n < j + 8 \<and> bit v n"
proof -
  have m: "(0xFF :: u32) = mask 8" by (simp add: mask_eq_exp_minus_1)
  show ?thesis using assms unfolding m by (auto simp: bit_push_bit_iff bit_ucast_iff bit_and_iff bit_mask_iff bit_drop_bit_eq)
qed

lemma pack_bytes:
  fixes v :: u32
  shows "fold (\<lambda>k b. b OR push_bit (8 * k) (ucast (drop_bit (8 * k) v AND 0xFF))) [0..<4] (0 :: u64) = ucast v"
proof (rule bit_word_eqI)
  have l: "[0..<4] = [0, 1, 2, 3]" by (simp add: upt_rec)
  fix n
  assume "n < LENGTH(64)"
  then have n: "n < 64" by simp
  have "n < 32" if "bit v n" using bit_imp_le_length [OF that] by simp
  then show "bit (fold (\<lambda>k b. b OR push_bit (8 * k) (ucast (drop_bit (8 * k) v AND 0xFF))) [0..<4] (0 :: u64)) n = bit (ucast v :: u64) n"
    using n by (simp only: l fold_simps bit_or_iff bit_0_eq byte_bit [OF n] bit_ucast_iff) auto
qed

lemma unpack_byte:
  fixes v :: u32
  shows "drop_bit n (ucast v :: u64) AND 0xFF = ucast (drop_bit n v AND 0xFF)"
proof (rule bit_word_eqI)
  have m: "(0xFF :: u32) = mask 8" "(0xFF :: u64) = mask 8" by (simp_all add: mask_eq_exp_minus_1)
  show "bit (drop_bit n (ucast v :: u64) AND 0xFF) i = bit (ucast (drop_bit n v AND 0xFF) :: u64) i" for i
    unfolding m by (auto simp: bit_simps dest: bit_imp_le_length)
qed

lemma kernel_checksum_host: "kernel_checksum out = cu_state_checksum out"
  unfolding kernel_checksum_def cu_state_checksum_def pack_bytes Let_def unpack_byte ..


definition demo_cuda :: CudaEnv where
  "demo_cuda = \<lparr>gv_fails = \<lambda>_. False, gv_garbage = \<lambda>_ _. 0, gv_error_string = \<lambda>_. [], gv_tanhf = \<lambda>x. x, gv_sinf = \<lambda>x. x,
     gv_dev_tanhf = \<lambda>x. x, gv_dev_sinf = \<lambda>x. x,
     gv_dev_acc = \<lambda>a x b y c z. f32_add (f32_add (f32_mul a x) (f32_mul b y)) (f32_mul c z),
     gv_dev_score = \<lambda>v n s. f32_add (f32_mul v n) s, gv_elapsed = \<lambda>_. 1\<rparr>"


section \<open>Under the pump\<close>

definition cuda_executor :: "CudaEnv \<Rightarrow> CudaDecodeExecutor Executor" where
  "cuda_executor env = \<lparr>ex_prepare = cu_prepare env, ex_commit = cu_commit env, ex_abort = cu_abort env\<rparr>"

lemma cu_prepare_loop_members:
  "cu_prepare_loop env req ms out x = (Inr pms, x') \<Longrightarrow>
     \<exists>new. pms = out @ new \<and> length new = length ms \<and> (\<forall>pm \<in> set new. pm_dispatch pm = er_dispatch_id req)"
proof (induction ms arbitrary: out x)
  case (Cons m ms)
  obtain pm x1 where one: "cu_prepare_member env m req x = (Inr pm, x1)"
    using Cons.prems by (auto split: prod.splits sum.splits)
  with Cons.prems Cons.IH [of "out @ [bind_member req pm]" x1] obtain new where
    "pms = out @ bind_member req pm # new" "length new = length ms" "\<forall>pm \<in> set new. pm_dispatch pm = er_dispatch_id req"
    by auto
  then show ?case by (intro exI [of _ "bind_member req pm # new"]) (simp add: bind_member_def)
qed simp

lemma cu_prepare_members:
  assumes "cu_prepare env req x = (Inr pd, x')"
  shows "length (pd_members pd) = length (er_members req)" "\<forall>pm \<in> set (pd_members pd). pm_dispatch pm = er_dispatch_id req"
  using assms cu_prepare_loop_members [of env req "er_members req" "[]"]
  by (auto simp: cu_prepare_def failed_def split: prod.splits sum.splits if_splits)

interpretation cuda_pump: dispatch_executor "cuda_executor env" for env
  by unfold_locales (auto simp: cuda_executor_def cu_prepare_members)

text \<open>C17: Pumping the CUDA executor is a run of the fabric, whichever runtime calls fail on the way: every guarantee of runs
  holds of the fabric it leaves behind, in particular no sequence exceeds its budget.\<close>

theorem cuda_pump_is_run:
  assumes "fab_run cfg clock f" and "max_cycles > 0" and "spacious (nat max_cycles * length (fb_seqs f)) f"
  shows "\<exists>f' x'. pump_until_idle (cuda_executor env) max_cycles (f, x) = Some (f', x') \<and> fab_run cfg clock f' \<and>
    map fst (fb_seqs f') = map fst (fb_seqs f) \<and>
    (\<forall>(k, s) \<in> set (fb_seqs f'). s_generated s = s_committed s \<and> s_committed s \<le> rq_max_generation_length (s_req s))"
  using cuda_pump.pump_until_idle_run [OF assms] by blast

theorem cuda_pump_is_run_witness:
  "\<exists>f' x'. pump_until_idle (cuda_executor demo_cuda) 8 (sc_admitted, new_CudaDecodeExecutor 1 None) = Some (f', x') \<and>
     map fst (fb_seqs f') = [21]"
proof -
  have "spacious (nat 8 * length (fb_seqs sc_admitted)) sc_admitted" by (simp add: spacious_def sc_admitted_eq)
  from cuda_pump_is_run [OF sc_reaches(1) _ this, of demo_cuda "new_CudaDecodeExecutor 1 None"] show ?thesis
    by (auto simp: sc_admitted_eq)
qed

section \<open>Promotion\<close>

definition vector_in :: "Gpu \<Rightarrow> nat \<Rightarrow> float list option" where
  "vector_in g p = map_option floats_of (umap_find (gp_heap g) p)"

definition committed_vector :: "CudaDecodeExecutor \<Rightarrow> StateId \<Rightarrow> float list option" where
  "committed_vector x sid = vector_in (gx_gpu x) (ds_device (umap_get default_DevState (gx_states x) sid))"

definition tentative_vector :: "CudaDecodeExecutor \<Rightarrow> StateId \<Rightarrow> float list option" where
  "tentative_vector x sid = vector_in (gx_gpu x) (ds_tentative (umap_get default_DevState (gx_states x) sid))"

lemma cu_promote_Inr:
  assumes "held R st g" and "ds_tentative st \<noteq> 0" and "cu_promote env grant (st, g) = (Inr rec, st', g')"
  shows "\<exists>xs ys. heap g (ds_device st) = Some (Floats xs) \<and> heap g (ds_tentative st) = Some (Floats ys) \<and>
    digest_dev xs (ds_tokens st) (ds_kv_bytes st) = cg_pre_state_digest grant \<and> ds_prepared_post_digest st = cg_post_state_digest grant \<and>
    rec = cu_grant_receipt grant (ds_tokens st) \<and> ds_device st' = ds_device st \<and> ds_tokens st' = ds_tokens st + 1 \<and>
    ds_tentative st' = 0 \<and> heap g' (ds_device st) = Some (Floats ys)"
proof -
  have i: "ds_inited st" "ds_device st \<noteq> ds_tentative st" and w: "wf_gpu g" using assms by (auto simp: held_def)
  obtain xs where xs: "heap g (ds_device st) = Some (Floats xs)" using held_device [OF assms(1) i(1)] by blast
  obtain ys where ys: "heap g (ds_tentative st) = Some (Floats ys)" using assms(1,2) by (auto simp: held_def ptrs_def vector_at_def)
  from w xs show ?thesis
  proof (cases rule: copy_to_host_cases [where env = env])
    case (fails g1)
    then show ?thesis using assms(3) by (simp add: cu_promote_def failed_def)
  next
    case (ok g1)
    note g1 = this
    have c: "copy_on_device env (ds_device st) (ds_tentative st) g1 = copy_to_device env (ds_device st) (Floats ys) g1"
      using ys g1(3) by (simp add: copy_on_device_def dev_read_def)
    from g1(3) xs have "heap g1 (ds_device st) = Some (Floats xs)" by simp
    with g1(2) show ?thesis
    proof (cases rule: copy_to_device_cases [where env = env and b = "Floats ys"])
      case (fails g2)
      then show ?thesis using assms(3) g1 c by (simp add: cu_promote_def failed_def floats_of_def split: if_splits)
    next
      case (ok g2)
      then show ?thesis using assms(2,3) g1 c xs ys i(2)
        by (auto simp: cu_promote_def failed_def floats_of_def cu_clear_tentative_def free_unless_null_def split: if_splits)
    qed
  qed
qed

lemma cu_set_device_simps [simp]:
  "gx_states (snd (cu_set_device env x)) = gx_states x" "gx_receipts_by_grant (snd (cu_set_device env x)) = gx_receipts_by_grant x"
  "heap (gx_gpu (snd (cu_set_device env x))) = heap (gx_gpu x)" "fst (cu_set_device env x) \<longleftrightarrow> \<not> gv_fails env (gp_calls (gx_gpu x))"
  by (simp_all add: cu_set_device_def cuda_call_def)

text \<open>The one way a commit with a new grant succeeds.\<close>

lemma cu_commit_Inr_cases:
  assumes "cu_commit env grant x = (Inr r, x')" and "umap_find (gx_receipts_by_grant x) (cg_grant_id grant) = None"
  obtains st st' g' where "umap_find (gx_states x) (cg_state grant) = Some st" "ds_tentative st \<noteq> 0"
    "ds_prepared_proposal st = cg_proposal grant" "ds_tokens st = cg_committed_position grant"
    "cu_promote env grant (st, gx_gpu (snd (cu_set_device env x))) = (Inr r, st', g')"
    "gx_states x' = umap_set (cg_state grant) st' (gx_states x)" "gx_gpu x' = g'"
    "umap_find (gx_receipts_by_grant x') (cg_grant_id grant) = Some r"
proof -
  obtain ok x0 where s: "cu_set_device env x = (ok, x0)" by force
  have x0: "gx_states x0 = gx_states x" "gx_receipts_by_grant x0 = gx_receipts_by_grant x"
    using cu_set_device_simps(1,2) [of env x] by (simp_all add: s)
  obtain st where st: "umap_find (gx_states x) (cg_state grant) = Some st"
    using assms x0 by (auto simp: cu_commit_def s failed_def split: option.splits if_splits)
  obtain p st' g' where p: "cu_promote env grant (st, gx_gpu x0) = (p, st', g')" using prod_cases3 by blast
  show thesis
    using assms x0 st p by (intro that [of st st' g'])
      (auto simp: cu_commit_def s failed_def split: option.splits if_splits sum.splits)
qed

lemma commit_elsewhere:
  assumes "device_ok x" and "device_ok x'" and "kept (others sid x) (gx_gpu x) (st', g')"
    and "gx_states x' = umap_set sid st' (gx_states x)" "gx_gpu x' = g'" and "j \<noteq> sid"
  shows "committed_vector x' j = committed_vector x j \<and> tentative_vector x' j = tentative_vector x j"
proof -
  have "heap g' p = heap (gx_gpu x) p" if "p \<in> insert 0 (ptrs (dev_state x j))" for p
  proof (cases "p = 0")
    case True
    then show ?thesis using wf_gpuD(2) [OF device_ok_gpu [OF assms(1)]] wf_gpuD(2) [OF device_ok_gpu [OF assms(2)]] assms(5) by simp
  next
    case False
    then have "p \<in> others sid x" using that assms(6) by (auto simp: others_def)
    then show ?thesis using assms(3) by (auto simp: kept_def)
  qed
  then show ?thesis using assms(4-6) by (simp add: committed_vector_def tentative_vector_def vector_in_def ptrs_def)
qed


text \<open>A first prepare and its commit, none of whose runtime calls fails.\<close>

definition demo_cuda_prepared :: "PreparedDecode result \<times> CudaDecodeExecutor" where
  "demo_cuda_prepared = cu_prepare demo_cuda demo_request (new_CudaDecodeExecutor 1 None)"

definition demo_cuda_grant :: CommitGrant where
  "demo_cuda_grant = grant_of 9 (hd (pd_members (projr (fst demo_cuda_prepared))))"

lemma demo_cuda_never_fails [simp]: "gv_fails demo_cuda n = False"
  by (simp add: demo_cuda_def)

lemmas cuda_runtime_simps = cuda_call_def cudaMalloc_def copy_to_host_def copy_to_device_def copy_on_device_def dev_read_def dev_write_def
  cudaFree_def free_unless_null_def garbage_like_def umap_set_def umap_find_def umap_erase_def df_decode_step_kernel_def floats_of_def

lemma demo_cuda_commit: "\<exists>r x'. cu_commit demo_cuda demo_cuda_grant (snd demo_cuda_prepared) = (Inr r, x')"
  unfolding demo_cuda_grant_def
  apply (simp add: demo_cuda_prepared_def cu_prepare_def cu_set_device_def new_CudaDecodeExecutor_def demo_request_def cuda_call_def)
  apply (simp add: cu_prepare_member_def cu_ensure_initialized_def cu_initialize_def cu_reconstruct_def Let_def umap_get_def default_DevState_def
    cuda_runtime_simps)
  apply (simp add: cu_prepare_step_def run_kernel_def kernel_results_def cuda_runtime_simps Let_def)
  apply (simp add: cu_commit_def cu_set_device_def cu_promote_def cu_stage_def grant_of_def bind_member_def cu_prepared_member_def Let_def
    cu_clear_tentative_def cuda_runtime_simps)
  done

lemma cu_prepare_ledger: "gx_receipts_by_grant (snd (cu_prepare env req x)) = gx_receipts_by_grant x"
proof -
  have m: "gx_receipts_by_grant (snd (cu_prepare_member env m req y)) = gx_receipts_by_grant y" for m y
    by (simp add: cu_prepare_member_def case_prod_beta Let_def split: sum.split)
  have "gx_receipts_by_grant (snd (cu_prepare_loop env req ms out y)) = gx_receipts_by_grant y" for ms out y
  proof (induction ms arbitrary: out y)
    case (Cons k ms)
    obtain p y1 where "cu_prepare_member env k req y = (p, y1)" by force
    then show ?case using Cons m [of k y] by (cases p) simp_all
  qed simp
  then show ?thesis
    using cu_set_device_simps(2) [of env x] by (auto simp: cu_prepare_def case_prod_beta split: sum.split prod.split)
qed


section \<open>A reconstruction that fails half way\<close>

text \<open>When the copy back to the device fails, the token count has already moved: the next prepare of the same position finds
  nothing to reconstruct and takes the vector that happens to be in the buffer for the committed one.\<close>

theorem failed_reconstruction_is_forgotten:
  assumes "cu_reconstruct env m (st, g) = (failed EC_BackendError ''cudaMemcpy reconstruction write failed'', st', g')"
  shows "ds_tokens st' = ms_generated_tokens m \<and> cu_reconstruct env m (st', g'') = (Inr (), st', g'')"
proof -
  have loop: "fst (snd (cu_catch_up env gen y)) = (if fst (snd y) < gen then gen else fst (snd y))" for gen y
  proof (induction env gen y rule: cu_catch_up.induct)
    case (1 env gen host t kv)
    have "t + 1 = gen" if "t < gen" "\<not> t + 1 < gen"
      using unat_add_one [OF that(1)] that by (simp add: word_less_nat_alt word_unat_eq_iff)
    with 1 show ?case by (auto simp: cu_catch_up.simps [of env gen host t kv])
  qed
  let ?gen = "ms_generated_tokens m"
  have t: "ds_tokens st < ?gen" using assms by (auto simp: cu_reconstruct_def failed_def split: if_splits)
  obtain b g1 where r: "copy_to_host env (ds_device st) g = (Some b, g1)"
    using assms t by (auto simp: cu_reconstruct_def failed_def split: prod.splits option.splits)
  obtain host toks kv where c: "cu_catch_up env ?gen (floats_of b, ds_tokens st, ds_kv_bytes st) = (host, toks, kv)"
    using prod_cases3 by blast
  have "toks = ?gen" using loop [of ?gen "(floats_of b, ds_tokens st, ds_kv_bytes st)"] c t by simp
  moreover have "ds_tokens st' = toks"
    using assms t r c by (auto simp: cu_reconstruct_def failed_def Let_def split: prod.splits if_splits)
  ultimately show ?thesis by (simp add: cu_reconstruct_def)
qed

end
