(* ===== verification/Spec2Isabelle.thy ===== *)
theory Spec2Isabelle
  imports Cli WireProperties CudaProperties
begin

text \<open>
  A verification development of Decode Fabric, a runtime that schedules the decode steps of language-model
  sequences over workers and commits every generated token through a transactional protocol.

  \<^bold>\<open>The program and its parts.\<close> Clients submit decode requests to a fabric (\<^verbatim>\<open>src/fabric.cpp\<close>). In each
  cycle its scheduler groups compatible sequences, reserves device memory and dispatches the groups to workers. A worker's executor
  (\<^verbatim>\<open>src/cpu_executor.cpp\<close>, \<^verbatim>\<open>src/cuda_executor.cu\<close>) prepares one step in tentative storage; the fabric checks the authority of the
  prepared step and answers with a one-use grant; the executor commits under the grant and returns a
  receipt; the fabric finalises exactly one token. Coordinator and workers exchange framed messages over TCP
  (\<^verbatim>\<open>src/distributed.cpp\<close>, \<^verbatim>\<open>src/protocol.cpp\<close>, \<^verbatim>\<open>src/transport.cpp\<close>), the state is saved as a checksummed image
  (\<^verbatim>\<open>src/persistence.cpp\<close>), and a command line (\<^verbatim>\<open>cli/main.cpp\<close>) drives a coordinator. Paths below are relative to \<^verbatim>\<open>src/\<close>.

  \<^bold>\<open>Theories and the code they model.\<close>

  \<^item> \<open>Prelude\<close>: machine integers as words, \<^verbatim>\<open>std::unordered_map\<close> as an association list with distinct keys, little-endian
    bytes. \<open>Float64\<close>: \<^verbatim>\<open>double\<close> as its 64-bit pattern with correctly rounded operations.
  \<^item> \<open>Enums\<close>, \<open>Results\<close>, \<open>Records\<close>: the enumerations with their unchecked casts, \<^verbatim>\<open>Result<T>\<close>, and the
    structs of the public headers, one record per struct.
  \<^item> \<open>Core\<close>: \<^verbatim>\<open>src/core.cpp\<close>, compatibility keys with their canonical text, hash and decision.
  \<^item> \<open>Lifecycle\<close>: the transition table of \<^verbatim>\<open>SequenceStateMachine\<close> and \<^verbatim>\<open>TokenBudget\<close>.
  \<^item> \<open>Binary\<close>, \<open>Framing\<close>, \<open>Messages\<close>: \<^verbatim>\<open>binary.hpp\<close>, the frame decoder of \<^verbatim>\<open>protocol.cpp\<close> with the loops of
    \<^verbatim>\<open>transport.cpp\<close>, and the codec of every message.
  \<^item> \<open>FabricState\<close>, \<open>Operations\<close>, \<open>Scheduler\<close>, \<open>Transaction\<close>, \<open>Pump\<close>, \<open>Observability\<close>: \<^verbatim>\<open>fabric.cpp\<close> in the order of the file. The
    record \<open>Fabric\<close> is \<^verbatim>\<open>DecodeFabric::Impl\<close>; each public method runs under one lock and is a
    function from the state to its result and the new state. \<open>Pump\<close> is \<^verbatim>\<open>pump_once\<close> and \<^verbatim>\<open>pump_until_idle\<close>.
  \<^item> \<open>Recovery\<close>: \<^verbatim>\<open>serialize_state\<close> and \<^verbatim>\<open>recover_state\<close>. \<open>Persistence\<close>: the record files of \<^verbatim>\<open>persistence.cpp\<close>.
  \<^item> \<open>CpuExecutor\<close>: \<^verbatim>\<open>cpu_executor.cpp\<close>. \<open>CudaExecutor\<close>: \<^verbatim>\<open>cuda_executor.cu\<close>, its kernel included, over an explicit store
    of device buffers.
  \<^item> \<open>Distributed\<close>: the handlers of \<^verbatim>\<open>distributed.cpp\<close>, one function per turn of a thread; a run of the coordinator is any interleaving
    of turns. \<open>Cli\<close>: the commands of \<^verbatim>\<open>cli/main.cpp\<close> and the start of
    both processes.
  \<^item> \<open>FabricSteps\<close>, \<open>TokenLedger\<close>, \<open>Accounts\<close>, \<open>FabricRun\<close>: the proof library of the fabric. Every public operation is a
    sequence of atomic steps (\<open>fstep\<close>), so an invariant of the steps is an invariant of every run (\<open>fab_run\<close>).
    \<open>Scenario\<close> is one concrete run, on which the properties of runs are exercised.

  \<^bold>\<open>Interfaces.\<close> \<open>codec\<close> (a reader inverts a writer on every value within its limits and fails on every prefix) is
    interpreted for each message; \<open>fabric_invariant\<close> (an initial predicate kept by every step) for the token books,
    the memory, the tallies, the history and the lifecycle; \<open>decode_executor\<close> (what commit and abort promise) for the CPU
    executor; \<open>dispatch_executor\<close> (what the pump needs of an executor) for the CPU and the CUDA executor; \<open>record_store\<close> (a
    map of records) for the file store.

  \<^bold>\<open>What the theorems show.\<close>

  \<^item> The fabric (\<open>FabricProperties\<close>, \<open>SchedulerSafety\<close>): in every run each committed token is backed by exactly one
    consumed grant, accounts stay within their budget, the digests of consumed grants chain, memory and counters close, terminal
    states are final, only receipts move tokens, results of an old epoch or worker boot are refused, and a cycle dispatches no sequence twice and never mixes
    compatibility keys.
  \<^item> The executors (\<open>ExecutorTrace\<close>, \<open>CudaMemory\<close>, \<open>CudaProperties\<close>): the committed vector is exactly the committed number of steps
    from its initial vector, a grant and a proposal are used once, a prepared step can be committed, the kernel is its host
    mirror, and no device buffer leaks or is freed twice, whichever runtime calls fail.
  \<^item> Recovery and persistence: an image restores every account and no authority; any changed byte is refused; a write under
    faults leaves the old or the new record.
  \<^item> The wire (\<open>Framing\<close>, \<open>WireProperties\<close>, \<open>Distributed\<close>, \<open>Cli\<close>): frames survive any chunking, messages survive the wire, the coordinator refines the fabric
    whatever peers send, and a remote submission, also from the command line, is a local one.

  \<^bold>\<open>Bounds.\<close> \<open>permitted\<close> states what runs assume of the environment: the 64-bit counters of dispatches, reservations and
    grants have room for the ids the next operation can mint, and prepared members carry a dispatch id other than null, which is what
    every executor sends; without the latter a budget can be overrun (\<open>null_dispatch_overruns_budget\<close>). Loops are structural or have a
    measure. \<open>pump_until_idle\<close> without a bound may run for ever and is a partial function; with a
    bound it returns (\<open>pump_returns\<close>). The socket loops consume a list of events and are blocked when it ends.
    The image holds at most \<open>2 ^ 22\<close> grants, the limit the reader enforces.

  \<^bold>\<open>Parameters.\<close> The clock (any sequence of readings), the functions of the C math library, measured durations, what the
    operating system answers to file and socket calls, the CUDA runtime with its device arithmetic, and the order in which a hash map is iterated (any
    rehashing between two operations of a run).

  \<^bold>\<open>Not modelled.\<close> The creation of sockets and threads and the accept loop (calls of the operating
    system); the locks, whose effect is the atomicity of each operation; the \<^verbatim>\<open>bench\<close> command and \<^verbatim>\<open>benchmarks/\<close>, which print
    wall-clock rates; the entry points in \<^verbatim>\<open>tools/\<close>; \<^verbatim>\<open>examples/\<close> and \<^verbatim>\<open>tests/\<close>, which are clients of the library.
\<close>

end
